(* ===== verification/Prelude.thy ===== *)
theory Prelude
  imports Main "HOL-Library.Word"
begin

text \<open>
  What every component shares: the types of Go's machine data, the outcome of a piece
  of Go code (it returns, it panics, or its goroutine blocks for ever), the error values
  of the program, byte slices, and the generic lemmas on them.  The collection
  \<open>outcome_simps\<close> holds the rules that push a predicate on results through the
  sequencing operator; \<open>go_defs\<close> collects the small accessors that proofs unfold.
\<close>

named_theorems outcome_simps "predicates on outcomes, pushed through sequencing"
named_theorems go_defs "small accessors unfolded by component proofs"

section \<open>Machine data\<close>

type_synonym byte = "8 word"
type_synonym u16 = "16 word"
type_synonym u32 = "32 word"
type_synonym u64 = "64 word"
type_synonym bytes = "byte list"

text \<open>
  A Go string is an immutable byte sequence; the conversions \<open>[]byte(s)\<close> and
  \<open>string(b)\<close> copy the bytes.  An Isabelle \<open>char\<close> is exactly one byte.
\<close>

definition byte_of_char :: "char \<Rightarrow> byte" where
  "byte_of_char c = word_of_nat (of_char c)"

definition char_of_byte :: "byte \<Rightarrow> char" where
  "char_of_byte b = char_of (unat b)"

definition bytes_of_string :: "string \<Rightarrow> bytes" where
  "bytes_of_string s = map byte_of_char s"

definition string_of_bytes :: "bytes \<Rightarrow> string" where
  "string_of_bytes bs = map char_of_byte bs"

lemma char_of_byte_of_char [simp]: "char_of_byte (byte_of_char c) = c"
proof -
  have "(of_char c :: nat) < 256" by (rule nat_of_char_less_256)
  then show ?thesis
    by (simp add: char_of_byte_def byte_of_char_def unat_of_nat)
qed

lemma byte_of_char_of_byte [simp]: "byte_of_char (char_of_byte b) = b"
proof -
  have "unat b < 256" using unsigned_less [of b] by simp
  then show ?thesis
    by (simp add: char_of_byte_def byte_of_char_def)
qed

lemma string_of_bytes_of_string [simp]: "string_of_bytes (bytes_of_string s) = s"
  by (induction s) (simp_all add: string_of_bytes_def bytes_of_string_def)

lemma bytes_of_string_of_bytes [simp]: "bytes_of_string (string_of_bytes b) = b"
  by (induction b) (simp_all add: string_of_bytes_def bytes_of_string_def)

lemma length_bytes_of_string [simp]: "length (bytes_of_string s) = length s"
  by (simp add: bytes_of_string_def)

lemma length_string_of_bytes [simp]: "length (string_of_bytes b) = length b"
  by (simp add: string_of_bytes_def)

lemma bytes_of_string_simps [simp]:
  "bytes_of_string [] = []"
  "bytes_of_string (c # cs) = byte_of_char c # bytes_of_string cs"
  "bytes_of_string (s @ t) = bytes_of_string s @ bytes_of_string t"
  by (simp_all add: bytes_of_string_def)

lemma bytes_of_string_inject [simp]: "bytes_of_string s = bytes_of_string t \<longleftrightarrow> s = t"
  by (metis string_of_bytes_of_string)

section \<open>Outcomes of Go code\<close>

text \<open>
  \<open>Ret x\<close>: the code returned \<open>x\<close>.  \<open>Panic\<close>: a run-time panic (a slice bound out of
  range, a nil dereference).  \<open>Blocked\<close>: the goroutine waits for ever on a channel it
  alone could drain.  Errors that the code returns as values are part of \<open>x\<close>.
\<close>

datatype 'a outcome = Ret 'a | Panic | Blocked

fun andThen :: "'a outcome \<Rightarrow> ('a \<Rightarrow> 'b outcome) \<Rightarrow> 'b outcome" where
  "andThen (Ret x) f = f x"
| "andThen Panic f = Panic"
| "andThen Blocked f = Blocked"

text \<open>
  \<open>on_ret P r\<close>: if \<open>r\<close> returned, its result satisfies \<open>P\<close> (partial correctness).
  \<open>returns P r\<close>: \<open>r\<close> did return, and its result satisfies \<open>P\<close> (total correctness).
\<close>

fun on_ret :: "('a \<Rightarrow> bool) \<Rightarrow> 'a outcome \<Rightarrow> bool" where
  "on_ret P (Ret x) = P x"
| "on_ret P Panic = True"
| "on_ret P Blocked = True"

fun returns :: "('a \<Rightarrow> bool) \<Rightarrow> 'a outcome \<Rightarrow> bool" where
  "returns P (Ret x) = P x"
| "returns P Panic = False"
| "returns P Blocked = False"

lemma on_ret_andThen [outcome_simps]:
  "on_ret P (andThen r f) = on_ret (\<lambda>x. on_ret P (f x)) r"
  by (cases r) simp_all

lemma returns_andThen [outcome_simps]:
  "returns P (andThen r f) = returns (\<lambda>x. returns P (f x)) r"
  by (cases r) simp_all

lemma andThen_Ret [simp]: "andThen r Ret = r"
  by (cases r) simp_all

lemma andThen_assoc: "andThen (andThen r f) g = andThen r (\<lambda>x. andThen (f x) g)"
  by (cases r) simp_all

text \<open>\<open>safe P r\<close>: \<open>r\<close> did not panic, and if it returned, its result satisfies \<open>P\<close>.\<close>

fun safe :: "('a \<Rightarrow> bool) \<Rightarrow> 'a outcome \<Rightarrow> bool" where
  "safe P (Ret x) = P x"
| "safe P Panic = False"
| "safe P Blocked = True"

lemma safe_andThen [outcome_simps]:
  "safe P (andThen r f) = safe (\<lambda>x. safe P (f x)) r"
  by (cases r) simp_all

lemma safe_mono: "safe P r \<Longrightarrow> (\<And>x. r = Ret x \<Longrightarrow> P x \<Longrightarrow> Q x) \<Longrightarrow> safe Q r"
  by (cases r) simp_all

lemma returns_safe: "returns P r \<Longrightarrow> safe P r"
  by (cases r) simp_all

lemma safe_no_panic: "safe P r \<Longrightarrow> r \<noteq> Panic"
  by (cases r) simp_all

lemma safeD: "safe P r \<Longrightarrow> r = Ret x \<Longrightarrow> P x"
  by simp

lemma on_ret_mono: "on_ret P r \<Longrightarrow> (\<And>x. r = Ret x \<Longrightarrow> P x \<Longrightarrow> Q x) \<Longrightarrow> on_ret Q r"
  by (cases r) simp_all

lemma returns_mono: "returns P r \<Longrightarrow> (\<And>x. r = Ret x \<Longrightarrow> P x \<Longrightarrow> Q x) \<Longrightarrow> returns Q r"
  by (cases r) simp_all

lemma returns_on_ret: "returns P r \<Longrightarrow> on_ret P r"
  by (cases r) simp_all

lemma returnsE: "returns P r \<Longrightarrow> (\<And>x. r = Ret x \<Longrightarrow> P x \<Longrightarrow> thesis) \<Longrightarrow> thesis"
  by (cases r) simp_all

lemma on_retD: "on_ret P r \<Longrightarrow> r = Ret x \<Longrightarrow> P x"
  by simp

lemma on_retI: "(\<And>x. r = Ret x \<Longrightarrow> P x) \<Longrightarrow> on_ret P r"
  by (cases r) simp_all

lemma on_ret_True [simp]: "on_ret (\<lambda>_. True) r"
  by (cases r) simp_all

lemma on_ret_conj: "on_ret (\<lambda>x. P x \<and> Q x) r \<longleftrightarrow> on_ret P r \<and> on_ret Q r"
  by (cases r) simp_all

lemma andThen_eq_Ret:
  "andThen r f = Ret y \<longleftrightarrow> (\<exists>x. r = Ret x \<and> f x = Ret y)"
  by (cases r) simp_all

lemma andThen_cong [fundef_cong]:
  "r = r' \<Longrightarrow> (\<And>x. r' = Ret x \<Longrightarrow> f x = f' x) \<Longrightarrow> andThen r f = andThen r' f'"
  by (cases r') simp_all

section \<open>Error values\<close>

text \<open>
  One constructor per error the code creates or passes on; the arguments are the values
  the message is formatted from.  \<open>ErrEOF\<close> to \<open>ErrBrokenPipe\<close> come from Go's
  \<open>io\<close> and \<open>net\<close> packages.
\<close>

datatype error =
    ErrEOF
  | ErrUnexpectedEOF
  | ErrNetClosed
  | ErrBrokenPipe
  | ErrEnsureLength int int
  | ErrPayloadTooLarge
  | ErrInvalidCRC32 u32 u32
  | ErrNoSpace nat u32
  | ErrNoSpaceRaw nat nat
  | ErrNoData u32 u32
  | ErrStringTooLong u32 u32
  | ErrUnexpectedCommand u32 u32
  | ErrObjectAlreadyDisposed
  | ErrMessageTooShort
  | ErrInvalidCommand u32
  | ErrInvalidMagic u32 u32
  | ErrDataTooLong u32
  | ErrDataBeyondBuffer u32 nat
  | ErrPcapHeader error
  | ErrPcapRecord error
  | ErrPcapFrame error
  | ErrTransportClosed
  | ErrContextCancelled
  | ErrSmartSocket string
  | ErrParseInt string
  | ErrResponseTooLong int
  | ErrServer string int string
  | ErrJoinRoomDenied string
  | ErrPrompt string
  | ErrOs string
  | ErrIdentityFile nat
  | ErrNoCertificate
  | ErrLogHandle error
  | ErrLogUnmarshal error
  | ErrLogMarshal error

section \<open>Numbers in messages\<close>

text \<open>\<open>fmt\<close>'s \<open>%d\<close> on a non-negative number.\<close>

fun decimal :: "nat \<Rightarrow> string" where
  "decimal n = (if n < 10 then [char_of (48 + n)] else decimal (n div 10) @ [char_of (48 + n mod 10)])"

declare decimal.simps [simp del]

lemma length_decimal: "n < 10 ^ k \<Longrightarrow> 0 < k \<Longrightarrow> length (decimal n) \<le> k"
proof (induction k arbitrary: n)
  case (Suc k)
  show ?case
  proof (cases "n < 10")
    case False
    with Suc.prems(1) have "0 < k" by (cases k) simp_all
    moreover have "n div 10 < 10 ^ k" using Suc.prems(1) by (simp add: div_less_iff_less_mult mult.commute)
    ultimately show ?thesis using Suc.IH [of "n div 10"] False by (simp add: decimal.simps [of n])
  qed (simp add: decimal.simps [of n])
qed simp

section \<open>Byte slices\<close>

text \<open>
  \<open>slice i j xs\<close> is \<open>xs[i:j]\<close> where Go accepts the bounds, \<open>put_at i ys xs\<close> the array
  after \<open>copy(xs[i:], ys)\<close> when \<open>ys\<close> fits.  \<open>go_slice\<close> is the slice expression with
  its bounds check, which panics unless \<open>i \<le> j \<le> cap\<close>.
\<close>

definition slice :: "nat \<Rightarrow> nat \<Rightarrow> 'a list \<Rightarrow> 'a list" where
  "slice i j xs = take (j - i) (drop i xs)"

definition put_at :: "nat \<Rightarrow> 'a list \<Rightarrow> 'a list \<Rightarrow> 'a list" where
  "put_at i ys xs = take i xs @ ys @ drop (i + length ys) xs"

definition go_slice :: "nat \<Rightarrow> nat \<Rightarrow> 'a list \<Rightarrow> 'a list outcome" where
  "go_slice i j xs = (if i \<le> j \<and> j \<le> length xs then Ret (slice i j xs) else Panic)"

lemma length_slice [simp]: "length (slice i j xs) = min (j - i) (length xs - i)"
  by (simp add: slice_def min.commute)

lemma slice_empty [simp]: "slice i i xs = []"
  by (simp add: slice_def)

lemma slice_all [simp]: "slice 0 (length xs) xs = xs"
  by (simp add: slice_def)

lemma slice_0: "slice 0 j xs = take j xs"
  by (simp add: slice_def)

lemma slice_drop: "slice i (length xs) xs = drop i xs"
  by (simp add: slice_def)

lemma length_put_at [simp]:
  "i + length ys \<le> length xs \<Longrightarrow> length (put_at i ys xs) = length xs"
  by (simp add: put_at_def)

lemma put_at_Nil [simp]: "put_at i [] xs = xs"
  by (simp add: put_at_def)

lemma slice_put_at_same:
  "i + length ys \<le> length xs \<Longrightarrow> j = i + length ys \<Longrightarrow> slice i j (put_at i ys xs) = ys"
  by (simp add: slice_def put_at_def)

lemma slice_put_at_before:
  "j \<le> i \<Longrightarrow> i + length ys \<le> length xs \<Longrightarrow> slice a j (put_at i ys xs) = slice a j xs"
  by (auto simp: slice_def put_at_def drop_take min_def)

lemma slice_put_at_after:
  "i + length ys \<le> a \<Longrightarrow> i + length ys \<le> length xs \<Longrightarrow>
   slice a j (put_at i ys xs) = slice a j xs"
  by (simp add: slice_def put_at_def)

lemma take_put_at_extend:
  "i + length ys \<le> length xs \<Longrightarrow> take (i + length ys) (put_at i ys xs) = take i xs @ ys"
  by (simp add: put_at_def)

lemma slice_slice: "c + b \<le> d \<Longrightarrow> slice a b (slice c d xs) = slice (c + a) (c + b) xs"
  by (simp add: slice_def drop_take min_def add.commute)

lemma slice_append_left: "j \<le> length xs \<Longrightarrow> slice i j (xs @ ys) = slice i j xs"
  by (simp add: slice_def)

lemma slice_append_at:
  "i = length xs \<Longrightarrow> j = i + length ys \<Longrightarrow> slice i j (xs @ ys @ zs) = ys"
  by (simp add: slice_def)

lemma drop_put_at_before:
  "i + length ys \<le> k \<Longrightarrow> i + length ys \<le> length xs \<Longrightarrow> drop k (put_at i ys xs) = drop k xs"
  by (simp add: put_at_def)

lemma drop_put_at:
  "k \<le> i \<Longrightarrow> i + length ys \<le> length xs \<Longrightarrow> drop k (put_at i ys xs) = put_at (i - k) ys (drop k xs)"
  by (simp add: put_at_def drop_take)

lemma go_slice_ok [simp]: "i \<le> j \<Longrightarrow> j \<le> length xs \<Longrightarrow> go_slice i j xs = Ret (slice i j xs)"
  by (simp add: go_slice_def)

section \<open>Words as natural numbers\<close>

lemma unat_add_no_wrap:
  fixes a b :: "'a::len word"
  shows "unat a + unat b < 2 ^ LENGTH('a) \<Longrightarrow> unat (a + b) = unat a + unat b"
  using unat_add_lem by blast

lemma unat_u32_of_nat [simp]: "n < 4294967296 \<Longrightarrow> unat (word_of_nat n :: u32) = n"
  by (simp add: unat_of_nat)

lemma unat_u32_less [simp]: "unat (w :: u32) < 4294967296"
  using unsigned_less [of w] by simp

lemma length_decimal_u32: "length (decimal (unat (w :: u32))) \<le> 10"
  using length_decimal [of "unat w" 10] less_trans [OF unat_u32_less [of w], of "10 ^ 10"] by simp

lemma unat_u32_diff: "(b :: u32) \<le> a \<Longrightarrow> unat (a - b) = unat a - unat b"
  by (simp add: unat_sub)

lemma u32_of_nat_unat [simp]: "(word_of_nat (unat (w :: u32)) :: u32) = w"
  by simp

end
