(* ===== verification/Object_Pool.thy ===== *)
theory Object_Pool
  imports Prelude
begin

text \<open>
  \<open>shared/utils/objectPool.go\<close>: the pool of recycled buffers and the disposable containers
  that hand them out.  Go's containers are heap objects reached through pointers, and several
  parties may hold the same pointer; here the pool's record holds every container ever
  created and a pointer is an index into that list.  The slot array and its fill count are
  kept as in the code.  The mutexes make each operation atomic; the model's operations are
  those atomic steps.
\<close>

section \<open>Data\<close>

definition poolSizeMax :: nat where "poolSizeMax = 100"

record 'a DisposableObjectContainer =
  pdata :: 'a
  current :: u32
  target :: u32

record 'a ObjectPool =
  objects :: "'a DisposableObjectContainer list"
  container :: "nat option list"
  plength :: nat
  factory :: 'a

definition NewObjectPool :: "'a \<Rightarrow> 'a ObjectPool" where
  "NewObjectPool fresh =
     \<lparr>objects = [], container = replicate poolSizeMax None, plength = 0, factory = fresh\<rparr>"

definition newDisposableObjectContainer :: "'a \<Rightarrow> 'a DisposableObjectContainer" where
  "newDisposableObjectContainer d = \<lparr>pdata = d, current = 0, target = 1\<rparr>"

definition upd_object ::
  "nat \<Rightarrow> ('a DisposableObjectContainer \<Rightarrow> 'a DisposableObjectContainer) \<Rightarrow> 'a ObjectPool \<Rightarrow> 'a ObjectPool" where
  "upd_object a f p = p\<lparr>objects := (objects p)[a := f (objects p ! a)]\<rparr>"

text \<open>What a holder of the pointer \<open>Data\<close> returned does to the object behind it.\<close>

definition store_data :: "nat \<Rightarrow> 'a \<Rightarrow> 'a ObjectPool \<Rightarrow> 'a ObjectPool" where
  "store_data a d = upd_object a (\<lambda>c. c\<lparr>pdata := d\<rparr>)"

section \<open>Operations\<close>

definition reset_container :: "nat \<Rightarrow> 'a ObjectPool \<Rightarrow> 'a ObjectPool" where
  "reset_container a = upd_object a (\<lambda>c. c\<lparr>current := 0, target := 1\<rparr>)"

definition Obtain :: "'a ObjectPool \<Rightarrow> ('a ObjectPool \<times> nat) outcome" where
  "Obtain pool =
     (if plength pool \<le> 0
      then Ret (pool\<lparr>objects := objects pool @ [newDisposableObjectContainer (factory pool)]\<rparr>,
                length (objects pool))
      else let l = plength pool - 1 in
        (case container pool ! l of
           None \<Rightarrow> Panic
         | Some cachedObject \<Rightarrow>
             Ret (reset_container cachedObject
                    (pool\<lparr>plength := l, container := (container pool)[l := None]\<rparr>),
                  cachedObject)))"

definition release :: "nat \<Rightarrow> 'a ObjectPool \<Rightarrow> 'a ObjectPool \<times> bool" where
  "release a pool =
     (if plength pool \<ge> poolSizeMax then (pool, False)
      else (pool\<lparr>container := (container pool)[plength pool := Some a],
                 plength := plength pool + 1\<rparr>, True))"

definition Data :: "nat \<Rightarrow> 'a ObjectPool \<Rightarrow> error + 'a" where
  "Data a pool =
     (let d = objects pool ! a in
      if current d \<ge> target d then Inl ErrObjectAlreadyDisposed else Inr (pdata d))"

definition UpdateCounter :: "nat \<Rightarrow> u32 \<Rightarrow> 'a ObjectPool \<Rightarrow> 'a ObjectPool \<times> error option" where
  "UpdateCounter a newTarget pool =
     (let d = objects pool ! a in
      if current d \<ge> target d then (pool, Some ErrObjectAlreadyDisposed)
      else (upd_object a (\<lambda>c. c\<lparr>target := newTarget\<rparr>) pool, None))"

definition Dispose :: "nat \<Rightarrow> 'a ObjectPool \<Rightarrow> 'a ObjectPool \<times> error option" where
  "Dispose a pool =
     (let d = objects pool ! a in
      if current d \<ge> target d then (pool, Some ErrObjectAlreadyDisposed)
      else
        let pool1 = upd_object a (\<lambda>c. c\<lparr>current := current c + 1\<rparr>) pool in
        if current d + 1 \<ge> target d then (fst (release a pool1), None)
        else (pool1, None))"

text \<open>
  The pattern every sender of the program follows: \<open>Obtain\<close>, \<open>defer Dispose\<close>, \<open>Data\<close>, then
  work on the message and return its result.
\<close>

definition withPooled ::
  "'a ObjectPool \<Rightarrow> (error \<Rightarrow> 'r) \<Rightarrow> ('a \<Rightarrow> ('a \<times> 'r) outcome) \<Rightarrow> ('a ObjectPool \<times> 'r) outcome" where
  "withPooled pool onError body =
     andThen (Obtain pool) (\<lambda>(pool1, a).
       (case Data a pool1 of
          Inl e \<Rightarrow> Ret (fst (Dispose a pool1), onError e)
        | Inr m \<Rightarrow> andThen (body m) (\<lambda>(m', r).
            Ret (fst (Dispose a (store_data a m' pool1)), r))))"

section \<open>The invariant\<close>

text \<open>
  \<open>free_list\<close> is the filled part of the slot array, \<open>live\<close> a container its holders may still
  use.  The invariant: the slots above the fill count are \<open>nil\<close>, those below hold distinct
  containers, and no container in the pool is live.
\<close>

definition free_list :: "'a ObjectPool \<Rightarrow> nat list" where
  "free_list p = map the (take (plength p) (container p))"

definition live :: "'a ObjectPool \<Rightarrow> nat \<Rightarrow> bool" where
  "live p a \<longleftrightarrow> a < length (objects p) \<and> current (objects p ! a) < target (objects p ! a)"

definition pool_inv :: "'a ObjectPool \<Rightarrow> bool" where
  "pool_inv p \<longleftrightarrow>
     plength p \<le> poolSizeMax \<and> length (container p) = poolSizeMax \<and>
     None \<notin> set (take (plength p) (container p)) \<and>
     drop (plength p) (container p) = replicate (poolSizeMax - plength p) None \<and>
     distinct (free_list p) \<and>
     (\<forall>a \<in> set (free_list p). a < length (objects p) \<and> \<not> live p a)"

definition pool_all :: "('a \<Rightarrow> bool) \<Rightarrow> 'a ObjectPool \<Rightarrow> bool" where
  "pool_all P p \<longleftrightarrow> P (factory p) \<and> (\<forall>c \<in> set (objects p). P (pdata c))"

lemma length_free_list: "pool_inv p \<Longrightarrow> length (free_list p) = plength p"
  by (simp add: pool_inv_def free_list_def)

lemma map_Some_the: "None \<notin> set xs \<Longrightarrow> map Some (map the xs) = xs"
  by (induction xs) (auto simp: comp_def)

text \<open>The slot array, split at the fill count.\<close>

lemma container_split:
  assumes "pool_inv p"
  shows "container p = map Some (free_list p) @ replicate (poolSizeMax - plength p) None"
proof -
  have "map Some (free_list p) = take (plength p) (container p)"
    using assms unfolding free_list_def pool_inv_def by (intro map_Some_the) simp
  then show ?thesis
    using assms append_take_drop_id [of "plength p" "container p"]
    by (simp add: pool_inv_def)
qed

text \<open>A pool whose slots are given as a list of container pointers.\<close>

lemma pool_invI:
  assumes "container p = map Some fl @ replicate (poolSizeMax - plength p) None"
    and "length fl = plength p" "plength p \<le> poolSizeMax" "distinct fl"
    and "\<And>a. a \<in> set fl \<Longrightarrow> a < length (objects p) \<and> \<not> live p a"
  shows "pool_inv p" "free_list p = fl"
  using assms by (auto simp: pool_inv_def free_list_def comp_def)

lemma pool_inv_New: "pool_inv (NewObjectPool d)"
  by (simp add: pool_inv_def NewObjectPool_def free_list_def)

lemma pool_all_New: "P d \<Longrightarrow> pool_all P (NewObjectPool d)"
  by (simp add: pool_all_def NewObjectPool_def)

text \<open>A change to one container that does not make it live (or that is not in the pool) is harmless.\<close>

lemma upd_object_simps [simp]:
  "container (upd_object a f p) = container p"
  "plength (upd_object a f p) = plength p"
  "factory (upd_object a f p) = factory p"
  "length (objects (upd_object a f p)) = length (objects p)"
  "free_list (upd_object a f p) = free_list p"
  by (simp_all add: upd_object_def free_list_def)

lemma objects_upd_object:
  "a < length (objects p) \<Longrightarrow>
   objects (upd_object a f p) ! b = (if b = a then f (objects p ! a) else objects p ! b)"
  by (simp add: upd_object_def)

lemma live_upd_object:
  "a < length (objects p) \<Longrightarrow>
   live (upd_object a f p) b =
     (if b = a then current (f (objects p ! a)) < target (f (objects p ! a)) else live p b)"
  by (simp add: live_def objects_upd_object)

lemma pool_inv_upd_object:
  assumes "pool_inv p" "a < length (objects p)" "a \<notin> set (free_list p)"
  shows "pool_inv (upd_object a f p)"
  using assms by (auto simp: pool_inv_def live_upd_object)

lemma set_update_subset: "set (xs[i := x]) \<subseteq> insert x (set xs)"
  by (rule set_update_subset_insert)

lemma pool_all_upd_object:
  assumes "pool_all P p" "a < length (objects p)" "P (pdata (f (objects p ! a)))"
  shows "pool_all P (upd_object a f p)"
  using assms set_update_subset_insert [of "objects p" a "f (objects p ! a)"]
  by (auto simp: pool_all_def upd_object_def)

section \<open>What the operations do\<close>

lemma Obtain_fresh:
  assumes "pool_inv p" "free_list p = []"
  shows "Obtain p = Ret (p\<lparr>objects := objects p @ [newDisposableObjectContainer (factory p)]\<rparr>,
     length (objects p))"
  using length_free_list [OF assms(1)] assms(2) by (simp add: Obtain_def)

text \<open>The pool is a stack: the container released last is the next one handed out.\<close>

lemma Obtain_recycled:
  assumes "pool_inv p" "free_list p = fl @ [a]"
  shows "Obtain p = Ret (reset_container a
     (p\<lparr>plength := length fl, container := (container p)[length fl := None]\<rparr>), a)"
proof -
  have "plength p = Suc (length fl)" using length_free_list [OF assms(1)] assms(2) by simp
  moreover have "container p ! length fl = Some a"
    using container_split [OF assms(1)] assms(2) by (simp add: nth_append)
  ultimately show ?thesis by (simp add: Obtain_def Let_def)
qed

lemma pool_inv_pop:
  assumes "pool_inv p" "free_list p = fl @ [a]"
  shows "pool_inv (p\<lparr>plength := length fl, container := (container p)[length fl := None]\<rparr>)"
    "free_list (p\<lparr>plength := length fl, container := (container p)[length fl := None]\<rparr>) = fl"
proof -
  let ?p = "p\<lparr>plength := length fl, container := (container p)[length fl := None]\<rparr>"
  have n: "plength p = Suc (length fl)" using length_free_list [OF assms(1)] assms(2) by simp
  have max: "Suc (length fl) \<le> poolSizeMax" using assms(1) n by (simp add: pool_inv_def)
  have "container ?p = map Some fl @ None # replicate (poolSizeMax - Suc (length fl)) None"
    using container_split [OF assms(1)] assms(2) n by (simp add: list_update_append)
  also have "\<dots> = map Some fl @ replicate (poolSizeMax - length fl) None"
    using max by (simp flip: replicate_Suc add: Suc_diff_le Suc_diff_Suc)
  finally have c: "container ?p = map Some fl @ replicate (poolSizeMax - plength ?p) None" by simp
  have "distinct fl" and "\<And>b. b \<in> set fl \<Longrightarrow> b < length (objects ?p) \<and> \<not> live ?p b"
    using assms by (auto simp: pool_inv_def live_def)
  with pool_invI [OF c] max show "pool_inv ?p" "free_list ?p = fl" by simp_all
qed

lemma Data_live: "live p a \<Longrightarrow> Data a p = Inr (pdata (objects p ! a))"
  by (simp add: Data_def live_def Let_def not_le)

lemma Data_dead: "a < length (objects p) \<Longrightarrow> \<not> live p a \<Longrightarrow> Data a p = Inl ErrObjectAlreadyDisposed"
  by (simp add: Data_def live_def Let_def not_less)

text \<open>
  \<open>Obtain\<close> always returns, with a container that nobody else may use: it was not live before,
  it is live now, and no other container changed.
\<close>

definition others_kept :: "nat \<Rightarrow> 'a ObjectPool \<Rightarrow> 'a ObjectPool \<Rightarrow> bool" where
  "others_kept a p p' \<longleftrightarrow>
     length (objects p) \<le> length (objects p') \<and> factory p' = factory p \<and>
     (\<forall>b. b \<noteq> a \<longrightarrow> live p' b = live p b) \<and>
     (\<forall>b < length (objects p). b \<noteq> a \<longrightarrow> objects p' ! b = objects p ! b)"

lemma others_kept_refl [simp]: "others_kept a p p"
  by (simp add: others_kept_def)

lemma others_kept_trans: "others_kept a p q \<Longrightarrow> others_kept a q r \<Longrightarrow> others_kept a p r"
  by (auto simp: others_kept_def)

lemma others_kept_upd: "a < length (objects p) \<Longrightarrow> others_kept a p (upd_object a f p)"
  by (simp add: others_kept_def live_upd_object objects_upd_object)

theorem Obtain_exclusive:
  assumes "pool_inv p"
  shows "\<exists>p' a. Obtain p = Ret (p', a) \<and> pool_inv p' \<and> \<not> live p a \<and> live p' a \<and>
     a \<notin> set (free_list p') \<and> others_kept a p p' \<and>
     (\<forall>P. pool_all P p \<longrightarrow> pool_all P p')"
proof (cases "free_list p" rule: rev_cases)
  case Nil
  let ?p = "p\<lparr>objects := objects p @ [newDisposableObjectContainer (factory p)]\<rparr>"
  have "plength p = 0" using length_free_list [OF assms] Nil by simp
  then have "pool_inv ?p" using assms Nil by (simp add: pool_inv_def free_list_def)
  moreover have "\<not> live p (length (objects p))" "live ?p (length (objects p))"
    by (simp_all add: live_def newDisposableObjectContainer_def)
  moreover have "free_list ?p = []" using Nil by (simp add: free_list_def)
  moreover have "others_kept (length (objects p)) p ?p"
    by (auto simp: others_kept_def live_def nth_append)
  moreover have "pool_all P p \<longrightarrow> pool_all P ?p" for P
    by (simp add: pool_all_def newDisposableObjectContainer_def)
  ultimately show ?thesis using Obtain_fresh [OF assms Nil] by auto
next
  case (snoc fl a)
  let ?q = "p\<lparr>plength := length fl, container := (container p)[length fl := None]\<rparr>"
  note q = pool_inv_pop [OF assms snoc]
  have a: "a < length (objects p)" "\<not> live p a" "a \<notin> set fl"
    using assms snoc by (auto simp: pool_inv_def)
  then have aq: "a < length (objects ?q)" "a \<notin> set (free_list ?q)" using q by simp_all
  have "pool_inv (reset_container a ?q)" "free_list (reset_container a ?q) = fl"
    using pool_inv_upd_object [OF q(1) aq] q(2) by (simp_all add: reset_container_def)
  moreover have "live (reset_container a ?q) a"
    using aq by (simp add: reset_container_def live_upd_object)
  moreover have "others_kept a p (reset_container a ?q)"
  proof (rule others_kept_trans)
    show "others_kept a p ?q" by (simp add: others_kept_def live_def)
    show "others_kept a ?q (reset_container a ?q)"
      unfolding reset_container_def by (rule others_kept_upd [OF aq(1)])
  qed
  moreover have "pool_all P p \<longrightarrow> pool_all P (reset_container a ?q)" for P
  proof
    assume "pool_all P p"
    then have "pool_all P ?q" by (simp add: pool_all_def)
    then show "pool_all P (reset_container a ?q)"
      using aq(1) unfolding reset_container_def
      by (intro pool_all_upd_object) (simp_all add: pool_all_def)
  qed
  ultimately show ?thesis using Obtain_recycled [OF assms snoc] a by auto
qed

text \<open>
  \<open>Dispose\<close> of a live container uses up one of its disposals; the last one returns it to the
  pool (or drops it when the pool is full).  A container that is not live is refused.
\<close>

lemma Dispose_dead:
  "a < length (objects p) \<Longrightarrow> \<not> live p a \<Longrightarrow> Dispose a p = (p, Some ErrObjectAlreadyDisposed)"
  by (simp add: Dispose_def live_def Let_def not_less)

lemma u32_Suc_le: "(c :: u32) < t \<Longrightarrow> unat (c + 1) = Suc (unat c)"
proof -
  assume "c < t"
  then have "unat c + unat (1 :: u32) < 2 ^ 32"
    using unat_u32_less [of t] by (simp add: word_less_nat_alt del: unat_u32_less)
  then show ?thesis using unat_add_no_wrap [of c 1] by simp
qed

lemma pool_inv_release:
  assumes "pool_inv p" "a < length (objects p)" "\<not> live p a" "a \<notin> set (free_list p)"
  shows "pool_inv (fst (release a p))"
    "free_list (fst (release a p)) =
       (if plength p < poolSizeMax then free_list p @ [a] else free_list p)"
    "objects (fst (release a p)) = objects p" "factory (fst (release a p)) = factory p"
proof -
  show "objects (fst (release a p)) = objects p" "factory (fst (release a p)) = factory p"
    by (simp_all add: release_def)
  have "pool_inv (fst (release a p)) \<and> free_list (fst (release a p)) =
       (if plength p < poolSizeMax then free_list p @ [a] else free_list p)"
  proof (cases "plength p < poolSizeMax")
    case True
    let ?p = "p\<lparr>container := (container p)[plength p := Some a], plength := plength p + 1\<rparr>"
    have len: "length (free_list p) = plength p" using assms(1) by (rule length_free_list)
    obtain k where k: "poolSizeMax - plength p = Suc k" "poolSizeMax - Suc (plength p) = k"
      using True by (cases "poolSizeMax - plength p") simp_all
    have "container ?p = map Some (free_list p) @ Some a # replicate k None"
      using container_split [OF assms(1)] len by (simp add: list_update_append k)
    then have "container ?p = map Some (free_list p @ [a]) @ replicate (poolSizeMax - plength ?p) None"
      by (simp add: k)
    note c = pool_invI [OF this]
    have "distinct (free_list p @ [a])" using assms by (simp add: pool_inv_def)
    moreover have "b < length (objects ?p) \<and> \<not> live ?p b" if "b \<in> set (free_list p @ [a])" for b
      using that assms by (auto simp: pool_inv_def live_def)
    ultimately have "pool_inv ?p \<and> free_list ?p = free_list p @ [a]"
      using c [OF _ _ _] True len by simp
    with True show ?thesis by (simp add: release_def)
  qed (use assms(1) in \<open>simp add: release_def\<close>)
  then show "pool_inv (fst (release a p))"
    "free_list (fst (release a p)) =
       (if plength p < poolSizeMax then free_list p @ [a] else free_list p)" by blast+
qed

lemma pool_all_release: "pool_all P (fst (release a p)) = pool_all P p"
  by (simp add: release_def pool_all_def)

theorem Dispose_live:
  assumes "pool_inv p" "live p a"
  defines "last_use \<equiv> current (objects p ! a) + 1 \<ge> target (objects p ! a)"
  shows "snd (Dispose a p) = None"
    and "pool_inv (fst (Dispose a p))"
    and "live (fst (Dispose a p)) a \<longleftrightarrow> \<not> last_use"
    and "free_list (fst (Dispose a p)) =
      (if last_use \<and> plength p < poolSizeMax then free_list p @ [a] else free_list p)"
    and "others_kept a p (fst (Dispose a p))"
    and "\<And>P. pool_all P p \<Longrightarrow> pool_all P (fst (Dispose a p))"
proof -
  let ?d = "objects p ! a" and ?q = "upd_object a (\<lambda>c. c\<lparr>current := current c + 1\<rparr>) p"
  have a: "a < length (objects p)" "current ?d < target ?d" "a \<notin> set (free_list p)"
    using assms(1,2) by (auto simp: live_def pool_inv_def)
  have q: "pool_inv ?q" "a < length (objects ?q)" "a \<notin> set (free_list ?q)"
    "live ?q a \<longleftrightarrow> \<not> last_use" "others_kept a p ?q"
    using assms(1) a
    by (simp_all add: pool_inv_upd_object live_upd_object last_use_def not_le others_kept_upd)
  have D: "Dispose a p = (if last_use then fst (release a ?q) else ?q, None)"
    using a by (simp add: Dispose_def Let_def leD last_use_def)
  have all: "pool_all P p \<Longrightarrow> pool_all P ?q" for P
    using a by (intro pool_all_upd_object) (simp_all add: pool_all_def)
  show "snd (Dispose a p) = None" by (simp add: D)
  have "pool_inv (fst (Dispose a p)) \<and> (live (fst (Dispose a p)) a \<longleftrightarrow> \<not> last_use) \<and>
    free_list (fst (Dispose a p)) =
      (if last_use \<and> plength p < poolSizeMax then free_list p @ [a] else free_list p) \<and>
    others_kept a p (fst (Dispose a p)) \<and> (\<forall>P. pool_all P p \<longrightarrow> pool_all P (fst (Dispose a p)))"
  proof (cases last_use)
    case True
    note r = pool_inv_release [OF q(1,2) _ q(3)]
    have "others_kept a ?q (fst (release a ?q))"
      using r True q(4) by (simp add: others_kept_def live_def)
    with others_kept_trans [OF q(5)] r True q all show ?thesis
      by (simp add: D live_def pool_all_release)
  next
    case False
    with q all show ?thesis by (simp add: D)
  qed
  then show "pool_inv (fst (Dispose a p))" "live (fst (Dispose a p)) a \<longleftrightarrow> \<not> last_use"
    "free_list (fst (Dispose a p)) =
      (if last_use \<and> plength p < poolSizeMax then free_list p @ [a] else free_list p)"
    "others_kept a p (fst (Dispose a p))" "\<And>P. pool_all P p \<Longrightarrow> pool_all P (fst (Dispose a p))"
    by blast+
qed

lemma UpdateCounter_live:
  assumes "pool_inv p" "live p a"
  shows "snd (UpdateCounter a n p) = None" "pool_inv (fst (UpdateCounter a n p))"
    "live (fst (UpdateCounter a n p)) a \<longleftrightarrow> current (objects p ! a) < n"
    "others_kept a p (fst (UpdateCounter a n p))"
    "free_list (fst (UpdateCounter a n p)) = free_list p"
proof -
  have a: "a < length (objects p)" "current (objects p ! a) < target (objects p ! a)"
    "a \<notin> set (free_list p)" "\<not> target (objects p ! a) \<le> current (objects p ! a)"
    using assms by (auto simp: live_def pool_inv_def)
  then show "snd (UpdateCounter a n p) = None" "pool_inv (fst (UpdateCounter a n p))"
    "live (fst (UpdateCounter a n p)) a \<longleftrightarrow> current (objects p ! a) < n"
    "others_kept a p (fst (UpdateCounter a n p))"
    "free_list (fst (UpdateCounter a n p)) = free_list p"
    using assms(1)
    by (simp_all add: UpdateCounter_def Let_def pool_inv_upd_object live_upd_object
        others_kept_upd)
qed

lemma UpdateCounter_dead:
  "a < length (objects p) \<Longrightarrow> \<not> live p a \<Longrightarrow>
   UpdateCounter a n p = (p, Some ErrObjectAlreadyDisposed)"
  by (simp add: UpdateCounter_def live_def Let_def not_less)

end
