(* ===== verification/Pool_Contract.thy ===== *)
theory Pool_Contract
  imports Object_Pool
begin

text \<open>
  What the pool promises its clients.  \<open>leases\<close> is its abstract specification, a stack of idle
  containers and a disposal count per container, which the operations of \<open>Object_Pool\<close>
  refine.  The locale \<open>lease_pool\<close> is the contract the senders and readers rely on: a
  container obtained is held by nobody else, and returning it leaves every other holder's
  container as it was.  The lemmas on \<open>withPooled\<close> carry the contract to the pattern
  \<open>Obtain; defer Dispose; Data; ...\<close> of the program's senders.
\<close>

section \<open>Disposals left\<close>

definition uses :: "'a ObjectPool \<Rightarrow> nat \<Rightarrow> nat" where
  "uses p a =
     (if a < length (objects p) then unat (target (objects p ! a)) - unat (current (objects p ! a))
      else 0)"

lemma uses_live: "0 < uses p a \<longleftrightarrow> live p a"
  by (simp add: uses_def live_def word_less_nat_alt)

lemma uses_0: "uses p a = 0 \<longleftrightarrow> \<not> live p a"
  by (simp flip: uses_live)

section \<open>The abstract specification\<close>

record leases =
  idle :: "nat list"
  used :: "nat \<Rightarrow> nat"
  allowed :: "nat \<Rightarrow> nat"
  created :: nat

definition lease_obtain :: "leases \<Rightarrow> leases \<times> nat" where
  "lease_obtain l =
     (if idle l = []
      then (l\<lparr>used := (used l)(created l := 0), allowed := (allowed l)(created l := 1),
              created := Suc (created l)\<rparr>, created l)
      else let a = last (idle l) in
        (l\<lparr>idle := butlast (idle l), used := (used l)(a := 0), allowed := (allowed l)(a := 1)\<rparr>, a))"

definition lease_dispose :: "nat \<Rightarrow> leases \<Rightarrow> leases \<times> bool" where
  "lease_dispose a l =
     (if allowed l a \<le> used l a then (l, False)
      else (l\<lparr>used := (used l)(a := Suc (used l a)),
              idle := (if allowed l a \<le> Suc (used l a) \<and> length (idle l) < poolSizeMax
                       then idle l @ [a] else idle l)\<rparr>, True))"

definition lease_retarget :: "nat \<Rightarrow> nat \<Rightarrow> leases \<Rightarrow> leases \<times> bool" where
  "lease_retarget a n l =
     (if allowed l a \<le> used l a then (l, False) else (l\<lparr>allowed := (allowed l)(a := n)\<rparr>, True))"

definition leases_of :: "'a ObjectPool \<Rightarrow> leases" where
  "leases_of p =
     \<lparr>idle = free_list p,
      used = (\<lambda>a. if a < length (objects p) then unat (current (objects p ! a)) else 0),
      allowed = (\<lambda>a. if a < length (objects p) then unat (target (objects p ! a)) else 0),
      created = length (objects p)\<rparr>"

lemma leases_of_upd_object:
  "a < length (objects p) \<Longrightarrow>
   leases_of (upd_object a f p) = (leases_of p)
     \<lparr>used := (used (leases_of p))(a := unat (current (f (objects p ! a)))),
      allowed := (allowed (leases_of p))(a := unat (target (f (objects p ! a))))\<rparr>"
  by (auto simp: leases_of_def objects_upd_object fun_eq_iff)

lemma free_list_objects [simp]: "free_list (p\<lparr>objects := xs\<rparr>) = free_list p"
  by (simp add: free_list_def)

lemma lease_obtain_refined:
  assumes "pool_inv p"
  shows "\<exists>p' a. Obtain p = Ret (p', a) \<and> lease_obtain (leases_of p) = (leases_of p', a)"
proof (cases "free_list p" rule: rev_cases)
  case Nil
  then show ?thesis
    using Obtain_fresh [OF assms Nil]
    by (auto simp: lease_obtain_def leases_of_def newDisposableObjectContainer_def fun_eq_iff
        nth_append)
next
  case (snoc fl a)
  let ?q = "p\<lparr>plength := length fl, container := (container p)[length fl := None]\<rparr>"
  have a: "a < length (objects ?q)" using assms snoc by (simp add: pool_inv_def)
  have "leases_of ?q = (leases_of p)\<lparr>idle := fl\<rparr>"
    using pool_inv_pop [OF assms snoc] by (simp add: leases_of_def cong: if_cong)
  then have "leases_of (reset_container a ?q) = (leases_of p)
     \<lparr>idle := fl, used := (used (leases_of p))(a := 0), allowed := (allowed (leases_of p))(a := 1)\<rparr>"
    using leases_of_upd_object [OF a] by (simp add: reset_container_def)
  moreover have "idle (leases_of p) = fl @ [a]" using snoc by (simp add: leases_of_def)
  ultimately show ?thesis
    using Obtain_recycled [OF assms snoc] by (simp add: lease_obtain_def)
qed

lemma lease_dispose_refined:
  assumes "pool_inv p" "a < length (objects p)"
  shows "lease_dispose a (leases_of p) =
     (leases_of (fst (Dispose a p)), snd (Dispose a p) = None)"
proof (cases "live p a")
  case False
  then show ?thesis
    using Dispose_dead [OF assms(2) False] assms(2)
    by (simp add: lease_dispose_def leases_of_def live_def word_less_nat_alt not_less)
next
  case True
  let ?d = "objects p ! a" and ?q = "upd_object a (\<lambda>c. c\<lparr>current := current c + 1\<rparr>) p"
  have lt: "current ?d < target ?d" using True by (simp add: live_def)
  have suc: "unat (current ?d + 1) = Suc (unat (current ?d))" by (rule u32_Suc_le [OF lt])
  have D: "fst (Dispose a p) = (if target ?d \<le> current ?d + 1 then fst (release a ?q) else ?q)"
    using lt by (simp add: Dispose_def Let_def leD)
  have q: "leases_of ?q = (leases_of p)\<lparr>used := (used (leases_of p))(a := Suc (used (leases_of p) a))\<rparr>"
    using leases_of_upd_object [OF assms(2)] assms(2) suc by (simp add: leases_of_def fun_eq_iff)
  note live = Dispose_live [OF assms(1) True]
  have len: "length (free_list p) = plength p" by (rule length_free_list [OF assms(1)])
  have rel: "leases_of (fst (release a ?q)) = (leases_of ?q)\<lparr>idle := free_list (fst (release a ?q))\<rparr>"
    by (simp add: leases_of_def release_def cong: if_cong)
  have idle: "free_list (fst (Dispose a p)) =
      (if target ?d \<le> current ?d + 1 \<and> plength p < poolSizeMax then free_list p @ [a] else free_list p)"
    by (rule live(4))
  have "leases_of (fst (Dispose a p)) = (leases_of ?q)\<lparr>idle := free_list (fst (Dispose a p))\<rparr>"
  proof (cases "target ?d \<le> current ?d + 1")
    case True
    then show ?thesis by (simp add: D rel)
  next
    case False
    then show ?thesis by (simp add: D) (simp add: leases_of_def)
  qed
  then show ?thesis
    using live(1) idle lt suc len assms(2)
    by (simp add: q lease_dispose_def) (simp add: leases_of_def word_le_nat_alt word_less_nat_alt)
qed

lemma lease_retarget_refined:
  assumes "a < length (objects p)"
  shows "lease_retarget a (unat n) (leases_of p) =
     (leases_of (fst (UpdateCounter a n p)), snd (UpdateCounter a n p) = None)"
proof -
  have "leases_of (upd_object a (\<lambda>c. c\<lparr>target := n\<rparr>) p) =
      (leases_of p)\<lparr>allowed := (allowed (leases_of p))(a := unat n)\<rparr>"
    using assms leases_of_upd_object [OF assms, of "\<lambda>c. c\<lparr>target := n\<rparr>"]
    by (simp add: leases_of_def fun_upd_idem_iff)
  moreover have "allowed (leases_of p) a \<le> used (leases_of p) a \<longleftrightarrow>
      target (objects p ! a) \<le> current (objects p ! a)"
    using assms by (simp add: leases_of_def word_le_nat_alt)
  ultimately show ?thesis
    by (simp add: lease_retarget_def UpdateCounter_def Let_def)
qed

section \<open>The contract\<close>

locale lease_pool =
  fixes inv :: "'p \<Rightarrow> bool"
    and left :: "'p \<Rightarrow> nat \<Rightarrow> nat"
    and fetch :: "nat \<Rightarrow> 'p \<Rightarrow> error + 'a"
    and store :: "nat \<Rightarrow> 'a \<Rightarrow> 'p \<Rightarrow> 'p"
    and acquire :: "'p \<Rightarrow> ('p \<times> nat) outcome"
    and give_back :: "nat \<Rightarrow> 'p \<Rightarrow> 'p \<times> error option"
  assumes acquire: "inv p \<Longrightarrow> \<exists>p' a. acquire p = Ret (p', a) \<and> inv p' \<and> left p a = 0 \<and> left p' a = 1 \<and>
      (\<forall>b. b \<noteq> a \<longrightarrow> left p' b = left p b \<and> (0 < left p b \<longrightarrow> fetch b p' = fetch b p))"
    and store: "inv p \<Longrightarrow> 0 < left p a \<Longrightarrow> inv (store a d p) \<and> left (store a d p) = left p \<and>
      fetch a (store a d p) = Inr d \<and>
      (\<forall>b. b \<noteq> a \<longrightarrow> 0 < left p b \<longrightarrow> fetch b (store a d p) = fetch b p)"
    and fetch: "inv p \<Longrightarrow> 0 < left p a \<Longrightarrow> \<exists>d. fetch a p = Inr d"
    and give_back: "inv p \<Longrightarrow> 0 < left p a \<Longrightarrow>
      snd (give_back a p) = None \<and> inv (fst (give_back a p)) \<and>
      left (fst (give_back a p)) = (left p)(a := left p a - 1) \<and>
      (\<forall>b. b \<noteq> a \<longrightarrow> 0 < left p b \<longrightarrow> fetch b (fst (give_back a p)) = fetch b p)"
begin

text \<open>Two containers held at the same time are different.\<close>

lemma acquire_distinct:
  assumes "inv p" "acquire p = Ret (p', a)" "0 < left p b"
  shows "a \<noteq> b"
  using acquire [OF assms(1)] assms(2,3) by auto

text \<open>
  A scoped use (obtain, work, dispose) gives the pool back with exactly the leases it had, and
  every other holder's data untouched.
\<close>

lemma scoped_use:
  fixes d :: 'a
  assumes "inv p" "acquire p = Ret (p1, a)"
  defines "p3 \<equiv> fst (give_back a (store a d p1))"
  shows "inv p3" "left p3 = left p" "\<And>b. 0 < left p b \<Longrightarrow> fetch b p3 = fetch b p"
proof -
  from acquire [OF assms(1)] assms(2) have p1: "inv p1" "left p a = 0" "left p1 a = 1"
    "\<forall>b. b \<noteq> a \<longrightarrow> left p1 b = left p b \<and> (0 < left p b \<longrightarrow> fetch b p1 = fetch b p)"
    by auto
  have p2: "inv (store a d p1)" "left (store a d p1) = left p1"
    "\<forall>b. b \<noteq> a \<longrightarrow> 0 < left p1 b \<longrightarrow> fetch b (store a d p1) = fetch b p1"
    using store [OF p1(1), of a d] p1(3) by simp_all
  have "0 < left (store a d p1) a" using p1(3) p2(2) by simp
  note p3 = give_back [OF p2(1) this, folded p3_def]
  show "inv p3" using p3 by blast
  show "left p3 = left p" using p3 p2(2) p1 by (auto simp: fun_eq_iff)
  show "fetch b p3 = fetch b p" if "0 < left p b" for b
  proof -
    have "b \<noteq> a" using that p1(2) by auto
    then show ?thesis using that p1(4) p2(2,3) p3 by metis
  qed
qed

end

text \<open>The pool of the program keeps the contract.\<close>

lemma uses_upd_object:
  "a < length (objects p) \<Longrightarrow>
   uses (upd_object a f p) b =
     (if b = a then unat (target (f (objects p ! a))) - unat (current (f (objects p ! a))) else uses p b)"
  by (simp add: uses_def objects_upd_object)

lemma others_kept_uses:
  "others_kept a p p' \<Longrightarrow> b \<noteq> a \<Longrightarrow> b < length (objects p) \<Longrightarrow> uses p' b = uses p b"
  by (simp add: others_kept_def uses_def)

lemma others_kept_Data:
  "others_kept a p p' \<Longrightarrow> b \<noteq> a \<Longrightarrow> b < length (objects p) \<Longrightarrow> Data b p' = Data b p"
  by (simp add: others_kept_def Data_def)

lemma live_length: "live p a \<Longrightarrow> a < length (objects p)"
  by (simp add: live_def)

lemma others_kept_uses_all:
  assumes "others_kept a p p'" "b \<noteq> a"
  shows "uses p' b = uses p b \<and> (0 < uses p b \<longrightarrow> Data b p' = Data b p)"
proof (cases "live p b")
  case True
  with live_length show ?thesis
    using others_kept_uses [OF assms] others_kept_Data [OF assms] by blast
next
  case False
  moreover have "live p' b = live p b" using assms by (simp add: others_kept_def)
  ultimately show ?thesis by (simp add: uses_0 [THEN iffD2])
qed

lemma uses_one:
  "uses p a = unat (target (objects p ! a)) - unat (current (objects p ! a)) \<or> uses p a = 0"
  by (simp add: uses_def)

lemma Obtain_uses:
  assumes "pool_inv p" "Obtain p = Ret (p', a)"
  shows "uses p' a = 1"
proof (cases "free_list p" rule: rev_cases)
  case Nil
  then show ?thesis
    using Obtain_fresh [OF assms(1) Nil] assms(2)
    by (auto simp: uses_def newDisposableObjectContainer_def)
next
  case (snoc fl b)
  have "b < length (objects p)" using assms(1) snoc by (simp add: pool_inv_def)
  then show ?thesis
    using Obtain_recycled [OF assms(1) snoc] assms(2)
    by (auto simp: uses_upd_object reset_container_def)
qed

lemma Dispose_uses:
  assumes "pool_inv p" "live p a"
  shows "uses (fst (Dispose a p)) = (uses p)(a := uses p a - 1)"
proof
  fix b
  let ?d = "objects p ! a"
  have a: "a < length (objects p)" "current ?d < target ?d" using assms(2) by (auto simp: live_def)
  show "uses (fst (Dispose a p)) b = ((uses p)(a := uses p a - 1)) b"
  proof (cases "b = a")
    case True
    have "objects (fst (Dispose a p)) ! a = ?d\<lparr>current := current ?d + 1\<rparr>"
      "length (objects (fst (Dispose a p))) = length (objects p)"
      using a by (simp_all add: Dispose_def Let_def leD objects_upd_object release_def)
    with True a u32_Suc_le [OF a(2)] show ?thesis by (simp add: uses_def)
  next
    case False
    with others_kept_uses_all [OF Dispose_live(5) [OF assms] False] show ?thesis by simp
  qed
qed

interpretation pooled: lease_pool pool_inv uses Data store_data Obtain Dispose
proof
  fix p :: "'a ObjectPool"
  assume inv: "pool_inv p"
  show "\<exists>p' a. Obtain p = Ret (p', a) \<and> pool_inv p' \<and> uses p a = 0 \<and> uses p' a = 1 \<and>
      (\<forall>b. b \<noteq> a \<longrightarrow> uses p' b = uses p b \<and> (0 < uses p b \<longrightarrow> Data b p' = Data b p))"
    using Obtain_exclusive [OF inv] Obtain_uses [OF inv] others_kept_uses_all
    by (metis uses_0)
next
  fix p :: "'a ObjectPool" and a d
  assume inv: "pool_inv p" and live: "0 < uses p a"
  then have l: "live p a" by (simp add: uses_live)
  have a: "a < length (objects p)" "a \<notin> set (free_list p)"
    using l inv by (auto simp: live_def pool_inv_def)
  have "uses (store_data a d p) = uses p"
    using a by (auto simp: store_data_def fun_eq_iff uses_def objects_upd_object cong: if_cong)
  moreover have "Data a (store_data a d p) = Inr d"
    using l a by (simp add: store_data_def Data_def objects_upd_object Let_def live_def leD)
  moreover have "b \<noteq> a \<Longrightarrow> 0 < uses p b \<Longrightarrow> Data b (store_data a d p) = Data b p" for b
    using others_kept_uses_all [OF others_kept_upd [OF a(1)]] by (metis store_data_def)
  ultimately show "pool_inv (store_data a d p) \<and> uses (store_data a d p) = uses p \<and>
      Data a (store_data a d p) = Inr d \<and>
      (\<forall>b. b \<noteq> a \<longrightarrow> 0 < uses p b \<longrightarrow> Data b (store_data a d p) = Data b p)"
    using pool_inv_upd_object [OF inv a] by (simp add: store_data_def)
next
  fix p :: "'a ObjectPool" and a
  assume "pool_inv p" "0 < uses p a"
  then show "\<exists>d. Data a p = Inr d" by (simp add: uses_live Data_live)
next
  fix p :: "'a ObjectPool" and a
  assume inv: "pool_inv p" and live: "0 < uses p a"
  then have l: "live p a" by (simp add: uses_live)
  show "snd (Dispose a p) = None \<and> pool_inv (fst (Dispose a p)) \<and>
      uses (fst (Dispose a p)) = (uses p)(a := uses p a - 1) \<and>
      (\<forall>b. b \<noteq> a \<longrightarrow> 0 < uses p b \<longrightarrow> Data b (fst (Dispose a p)) = Data b p)"
    using Dispose_live [OF inv l] Dispose_uses [OF inv l] others_kept_uses_all by metis
qed

section \<open>The senders' pattern\<close>

text \<open>The pool after a scoped use: same leases, and what other holders see is unchanged.\<close>

definition same_leases :: "'a ObjectPool \<Rightarrow> 'a ObjectPool \<Rightarrow> bool" where
  "same_leases p p' \<longleftrightarrow> uses p' = uses p \<and> (\<forall>b. 0 < uses p b \<longrightarrow> Data b p' = Data b p)"

lemma same_leases_refl [simp]: "same_leases p p"
  by (simp add: same_leases_def)

lemma same_leases_trans: "same_leases p q \<Longrightarrow> same_leases q r \<Longrightarrow> same_leases p r"
  by (simp add: same_leases_def)

definition good_pool :: "('a \<Rightarrow> bool) \<Rightarrow> 'a ObjectPool \<Rightarrow> bool" where
  "good_pool P p \<longleftrightarrow> pool_inv p \<and> pool_all P p"

lemma good_pool_New: "P d \<Longrightarrow> good_pool P (NewObjectPool d)"
  by (simp add: good_pool_def pool_inv_New pool_all_New)

lemma pool_all_nth: "pool_all P p \<Longrightarrow> a < length (objects p) \<Longrightarrow> P (pdata (objects p ! a))"
  by (simp add: pool_all_def)

text \<open>
  The message the next \<open>Obtain\<close> will hand out.  The pool is a stack: after a scoped use it is
  the message that use left behind.
\<close>

definition next_message :: "'a ObjectPool \<Rightarrow> 'a \<Rightarrow> bool" where
  "next_message p m \<longleftrightarrow> (\<exists>p' a. Obtain p = Ret (p', a) \<and> Data a p' = Inr m)"

lemma Obtain_room:
  assumes "pool_inv p" "Obtain p = Ret (p1, a)"
  shows "plength p1 < poolSizeMax" "live p1 a" "pool_inv p1"
    "current (objects p1 ! a) = 0" "target (objects p1 ! a) = 1"
proof -
  show "live p1 a" "pool_inv p1" using Obtain_exclusive [OF assms(1)] assms(2) by auto
  have "plength p1 < poolSizeMax \<and> current (objects p1 ! a) = 0 \<and> target (objects p1 ! a) = 1"
  proof (cases "free_list p" rule: rev_cases)
    case Nil
    then have "plength p = 0" using length_free_list [OF assms(1)] by simp
    with Obtain_fresh [OF assms(1) Nil] assms(2) show ?thesis
      by (auto simp: newDisposableObjectContainer_def poolSizeMax_def)
  next
    case (snoc fl b)
    have "Suc (length fl) \<le> poolSizeMax"
      using length_free_list [OF assms(1)] snoc assms(1) by (simp add: pool_inv_def)
    moreover have "b < length (objects p)" using assms(1) snoc by (simp add: pool_inv_def)
    ultimately show ?thesis
      using Obtain_recycled [OF assms(1) snoc] assms(2)
      by (auto simp: reset_container_def objects_upd_object)
  qed
  then show "plength p1 < poolSizeMax" "current (objects p1 ! a) = 0" "target (objects p1 ! a) = 1" by simp_all
qed

lemma next_after_use:
  assumes "pool_inv p" "Obtain p = Ret (p1, a)"
  shows "next_message (fst (Dispose a (store_data a m p1))) m"
proof -
  note o = Obtain_room [OF assms]
  let ?p2 = "store_data a m p1"
  have a: "a < length (objects p1)" "a \<notin> set (free_list p1)"
    using o(2,3) by (auto simp: live_def pool_inv_def)
  have p2: "pool_inv ?p2" "live ?p2 a" "plength ?p2 = plength p1" "free_list ?p2 = free_list p1"
    "target (objects ?p2 ! a) \<le> current (objects ?p2 ! a) + 1" "pdata (objects ?p2 ! a) = m"
    using pool_inv_upd_object [OF o(3) a] o a
    by (simp_all add: store_data_def live_upd_object objects_upd_object)
  note d = Dispose_live [OF p2(1,2)]
  let ?p3 = "fst (Dispose a ?p2)"
  have fl: "free_list ?p3 = free_list p1 @ [a]" using d(4) p2 o(1) by simp
  have "pdata (objects ?p3 ! a) = m"
  proof -
    have "\<not> current (objects ?p2 ! a) \<ge> target (objects ?p2 ! a)" using p2(2) by (simp add: live_def not_le)
    then show ?thesis using p2(6) a
      by (simp add: Dispose_def Let_def release_def objects_upd_object store_data_def)
  qed
  moreover have "a < length (objects ?p3)" using d(2) fl by (simp add: pool_inv_def)
  ultimately show ?thesis
    unfolding next_message_def Obtain_recycled [OF d(2) fl]
    by (simp add: Data_def Let_def reset_container_def objects_upd_object)
qed

lemma withPooled_next:
  assumes "next_message p m"
  obtains p1 a where "Obtain p = Ret (p1, a)" "withPooled p onError body = andThen (body m) (\<lambda>(m', r).
      Ret (fst (Dispose a (store_data a m' p1)), r))"
  using assms by (auto simp: next_message_def withPooled_def)

text \<open>\<open>withPooled\<close> runs its body exactly once, on some message of the pool's making.\<close>

lemma withPooled_unfold:
  assumes "good_pool P p"
  shows "\<exists>m a p1. P m \<and> Obtain p = Ret (p1, a) \<and>
    withPooled p onError body = andThen (body m) (\<lambda>(m', r).
        Ret (fst (Dispose a (store_data a m' p1)), r)) \<and>
    (\<forall>m'. P m' \<longrightarrow> good_pool P (fst (Dispose a (store_data a m' p1))) \<and>
        same_leases p (fst (Dispose a (store_data a m' p1))))"
proof -
  have inv: "pool_inv p" and all: "pool_all P p" using assms by (simp_all add: good_pool_def)
  from Obtain_exclusive [OF inv] all obtain p1 a where o: "Obtain p = Ret (p1, a)" "pool_inv p1"
    "live p1 a" "pool_all P p1" "a \<notin> set (free_list p1)"
    by blast
  have a: "a < length (objects p1)" using o(3) by (rule live_length)
  let ?m = "pdata (objects p1 ! a)"
  have P: "P ?m" by (rule pool_all_nth [OF o(4) a])
  have unf: "withPooled p onError body = andThen (body ?m) (\<lambda>(m', r).
      Ret (fst (Dispose a (store_data a m' p1)), r))"
    using o(1) Data_live [OF o(3)] by (simp add: withPooled_def)
  have "good_pool P (fst (Dispose a (store_data a m' p1))) \<and>
        same_leases p (fst (Dispose a (store_data a m' p1)))" if P': "P m'" for m'
  proof -
    have all2: "pool_all P (store_data a m' p1)"
      unfolding store_data_def by (rule pool_all_upd_object [OF o(4) a]) (simp add: P')
    have "pool_inv (store_data a m' p1)" "live (store_data a m' p1) a"
      using pool_inv_upd_object [OF o(2) a o(5)] o(3) a
      by (simp_all add: store_data_def live_upd_object) (simp add: live_def)
    then have "pool_all P (fst (Dispose a (store_data a m' p1)))"
      using Dispose_live(6) all2 by blast
    with pooled.scoped_use [OF inv o(1)] show ?thesis
      by (simp add: good_pool_def same_leases_def)
  qed
  with P unf o(1) show ?thesis by blast
qed

lemma withPooled_returns:
  assumes "good_pool P p" "\<And>m. P m \<Longrightarrow> returns (\<lambda>(m', r). P m' \<and> Q r) (body m)"
  shows "returns (\<lambda>(p', r). good_pool P p' \<and> same_leases p p' \<and> Q r) (withPooled p onError body)"
proof -
  from withPooled_unfold [OF assms(1), of onError body] obtain m a p1 where m: "P m"
    "withPooled p onError body = andThen (body m) (\<lambda>(m', r).
        Ret (fst (Dispose a (store_data a m' p1)), r))"
    "\<forall>m'. P m' \<longrightarrow> good_pool P (fst (Dispose a (store_data a m' p1))) \<and>
        same_leases p (fst (Dispose a (store_data a m' p1)))"
    by blast
  show ?thesis
    using assms(2) [OF m(1)] m(3) by (auto simp: m(2) elim!: returnsE)
qed

lemma withPooled_on_ret:
  assumes "good_pool P p" "\<And>m. P m \<Longrightarrow> on_ret (\<lambda>(m', r). P m' \<and> Q r) (body m)"
  shows "on_ret (\<lambda>(p', r). good_pool P p' \<and> same_leases p p' \<and> Q r) (withPooled p onError body)"
proof -
  from withPooled_unfold [OF assms(1), of onError body] obtain m a p1 where m: "P m"
    "withPooled p onError body = andThen (body m) (\<lambda>(m', r).
        Ret (fst (Dispose a (store_data a m' p1)), r))"
    "\<forall>m'. P m' \<longrightarrow> good_pool P (fst (Dispose a (store_data a m' p1))) \<and>
        same_leases p (fst (Dispose a (store_data a m' p1)))"
    by blast
  show ?thesis
    using assms(2) [OF m(1)] m(3) by (cases "body m") (auto simp: m(2))
qed

end
