(* ===== verification/Pool_Properties.thy ===== *)
theory Pool_Properties
  imports Pool_Contract
begin

text \<open>
  The properties of the buffer pool: every history of operations keeps its invariant, a buffer
  handed out is exclusively the caller's, and the operations refine the lease specification.
  The last property is the limit of the protection against double disposal.
\<close>

section \<open>Histories of a pool\<close>

text \<open>
  \<open>pool_reach d p\<close>: the pool \<open>p\<close> arises from a new pool with factory \<open>d\<close>.  Containers are
  obtained, written by their holders, retargeted and disposed of in any order and any number
  of times, also after their last allowed disposal.
\<close>

inductive pool_reach :: "'a \<Rightarrow> 'a ObjectPool \<Rightarrow> bool" for d where
  new: "pool_reach d (NewObjectPool d)"
| obtaining: "pool_reach d p \<Longrightarrow> Obtain p = Ret (p', a) \<Longrightarrow> pool_reach d p'"
| writing: "pool_reach d p \<Longrightarrow> Data a p = Inr x \<Longrightarrow> a < length (objects p) \<Longrightarrow>
    pool_reach d (store_data a y p)"
| updating: "pool_reach d p \<Longrightarrow> a < length (objects p) \<Longrightarrow> pool_reach d (fst (UpdateCounter a n p))"
| disposing: "pool_reach d p \<Longrightarrow> a < length (objects p) \<Longrightarrow> pool_reach d (fst (Dispose a p))"

inductive_cases pool_reachE: "pool_reach d p"

lemma Data_Inr_live: "a < length (objects p) \<Longrightarrow> Data a p = Inr x \<Longrightarrow> live p a"
  using Data_dead by fastforce

lemma pool_reach_inv: "pool_reach d p \<Longrightarrow> pool_inv p"
proof (induction rule: pool_reach.induct)
  case new
  show ?case by (rule pool_inv_New)
next
  case (obtaining p p' a)
  then show ?case using Obtain_exclusive [of p] by auto
next
  case (writing p a x y)
  have "live p a" by (rule Data_Inr_live [OF writing.hyps(3,2)])
  then show ?case
    using writing pooled.store [of p a y] by (simp add: uses_live)
next
  case (updating p a n)
  then show ?case
    by (cases "live p a") (simp_all add: UpdateCounter_live(2) UpdateCounter_dead)
next
  case (disposing p a)
  then show ?case by (cases "live p a") (simp_all add: Dispose_live(2) Dispose_dead)
qed

section \<open>Properties\<close>

text \<open>
  C5. After any history of the pool \<open>Obtain\<close> succeeds, and the container it returns is
  exclusively the caller's: it was in nobody's use, it is no longer in the pool, every
  container that was in use is a different one and still holds what its holder put there.
\<close>

theorem Obtain_is_exclusive:
  assumes "pool_reach d p"
  shows "\<exists>p' a. Obtain p = Ret (p', a) \<and> \<not> live p a \<and> live p' a \<and> a \<notin> set (free_list p') \<and>
     (\<forall>b. live p b \<longrightarrow> b \<noteq> a \<and> live p' b \<and> Data b p' = Data b p)"
proof -
  from Obtain_exclusive [OF pool_reach_inv [OF assms]] obtain p' a where o:
    "Obtain p = Ret (p', a)" "\<not> live p a" "live p' a" "a \<notin> set (free_list p')"
    "others_kept a p p'" by blast
  have "b \<noteq> a \<and> live p' b \<and> Data b p' = Data b p" if b: "live p b" for b
  proof -
    have "b \<noteq> a" using b o(2) by auto
    moreover have "live p' b" using o(5) b \<open>b \<noteq> a\<close> by (simp add: others_kept_def)
    ultimately show ?thesis using others_kept_Data [OF o(5) _ live_length [OF b]] by blast
  qed
  with o show ?thesis by blast
qed

theorem Obtain_is_exclusive_witness:
  "\<exists>p' a. Obtain (NewObjectPool (0 :: nat)) = Ret (p', a) \<and> \<not> live (NewObjectPool (0 :: nat)) a \<and>
     live p' a \<and> a \<notin> set (free_list p') \<and>
     (\<forall>b. live (NewObjectPool (0 :: nat)) b \<longrightarrow>
        b \<noteq> a \<and> live p' b \<and> Data b p' = Data b (NewObjectPool (0 :: nat)))"
  by (rule Obtain_is_exclusive [of 0, OF pool_reach.new])

text \<open>
  C6. The slot array, the fill count and the two counters of the containers implement the lease
  specification: in every reachable state \<open>Obtain\<close>, \<open>Dispose\<close> and \<open>UpdateCounter\<close> act on the
  abstract stack of idle containers and disposal counts as their specifications do, and
  report an error exactly when those refuse.
\<close>

theorem pool_refines_leases:
  assumes "pool_reach d p"
  shows "(\<exists>p' a. Obtain p = Ret (p', a) \<and> lease_obtain (leases_of p) = (leases_of p', a)) \<and>
     (\<forall>a < length (objects p). lease_dispose a (leases_of p) =
        (leases_of (fst (Dispose a p)), snd (Dispose a p) = None)) \<and>
     (\<forall>a < length (objects p). \<forall>n. lease_retarget a (unat n) (leases_of p) =
        (leases_of (fst (UpdateCounter a n p)), snd (UpdateCounter a n p) = None))"
  using lease_obtain_refined lease_dispose_refined lease_retarget_refined
    pool_reach_inv [OF assms] by blast

theorem pool_refines_leases_witness:
  "\<exists>p' a. Obtain (NewObjectPool (0 :: nat)) = Ret (p', a) \<and>
     lease_obtain (leases_of (NewObjectPool (0 :: nat))) = (leases_of p', a)"
  using pool_refines_leases [OF pool_reach.new, of "0 :: nat"] by blast

text \<open>\<open>dispose_times n a p\<close>: \<open>n\<close> disposals in a row, with what each reported.\<close>

fun dispose_times :: "nat \<Rightarrow> nat \<Rightarrow> 'a ObjectPool \<Rightarrow> 'a ObjectPool \<times> error option list" where
  "dispose_times 0 a p = (p, [])"
| "dispose_times (Suc n) a p =
     (let (p', err) = Dispose a p; (q, errs) = dispose_times n a p' in (q, err # errs))"

lemma dispose_times_live:
  assumes "pool_inv p" "uses p a = Suc n" "plength p < poolSizeMax"
  shows "dispose_times (Suc n) a p = (q, errs) \<Longrightarrow>
     errs = replicate (Suc n) None \<and> pool_inv q \<and> a < length (objects q) \<and> uses q a = 0 \<and>
     free_list q = free_list p @ [a]"
  using assms
proof (induction n arbitrary: p q errs)
  case 0
  have l: "live p a" using 0(3) by (simp flip: uses_live)
  have "uses (fst (Dispose a p)) a = 0" using Dispose_uses [OF 0(2) l] 0(3) by simp
  then have dead: "\<not> live (fst (Dispose a p)) a" by (simp add: uses_0)
  note D = Dispose_live [OF 0(2) l]
  have last: "target (objects p ! a) \<le> current (objects p ! a) + 1" using D(3) dead by blast
  have "a < length (objects (fst (Dispose a p)))"
    using live_length [OF l] D(5) by (simp add: others_kept_def)
  with 0(1,4) D(1,2,4) last dead show ?case
    by (cases "Dispose a p") (auto simp: uses_0 [THEN iffD2])
next
  case (Suc n)
  have l: "live p a" using Suc.prems(3) by (simp flip: uses_live)
  note D = Dispose_live [OF Suc.prems(2) l]
  have u: "uses (fst (Dispose a p)) a = Suc n" using Dispose_uses [OF Suc.prems(2) l] Suc.prems(3) by simp
  then have "live (fst (Dispose a p)) a" by (simp flip: uses_live)
  with D(3) have nl: "\<not> target (objects p ! a) \<le> current (objects p ! a) + 1" by blast
  then have fl: "free_list (fst (Dispose a p)) = free_list p" using D(4) by simp
  with length_free_list [OF D(2)] length_free_list [OF Suc.prems(2)] Suc.prems(4)
  have pl: "plength (fst (Dispose a p)) < poolSizeMax" by simp
  obtain q' errs' where r: "dispose_times (Suc n) a (fst (Dispose a p)) = (q', errs')"
    by (cases "dispose_times (Suc n) a (fst (Dispose a p))")
  have "q = q' \<and> errs = None # errs'"
    using Suc.prems(1) r D(1) by (cases "Dispose a p") (simp only: dispose_times.simps(2) [of "Suc n"], simp)
  with Suc.IH [OF r D(2) u pl] fl show ?case by simp
qed

text \<open>
  A container given \<open>n\<close> disposals takes exactly \<open>n\<close> of them: each of the first \<open>n\<close> succeeds
  and only the last returns it to the pool; the next one is refused and changes nothing.
\<close>

theorem disposals_are_counted:
  assumes "pool_reach d p" "uses p a = n" "0 < n" "plength p < poolSizeMax"
  shows "\<exists>q. dispose_times n a p = (q, replicate n None) \<and> free_list q = free_list p @ [a] \<and>
     Dispose a q = (q, Some ErrObjectAlreadyDisposed)"
proof -
  obtain k where k: "n = Suc k" using assms(3) by (cases n) auto
  obtain q errs where q: "dispose_times n a p = (q, errs)" by (cases "dispose_times n a p")
  have "errs = replicate n None \<and> pool_inv q \<and> a < length (objects q) \<and> uses q a = 0 \<and>
     free_list q = free_list p @ [a]"
    using dispose_times_live [OF pool_reach_inv [OF assms(1)], of a k q errs] assms(2,4) q k by simp
  with q Dispose_dead show ?thesis by (auto simp: uses_0)
qed

lemma new_pool_obtains:
  "Obtain (NewObjectPool d) =
     Ret ((NewObjectPool d)\<lparr>objects := [\<lparr>pdata = d, current = 0, target = 1\<rparr>]\<rparr>, 0)"
  by (simp add: Obtain_def NewObjectPool_def newDisposableObjectContainer_def)

theorem disposals_are_counted_witness:
  "\<exists>q. dispose_times 1 0 ((NewObjectPool (7 :: nat))\<lparr>objects := [\<lparr>pdata = 7, current = 0, target = 1\<rparr>]\<rparr>)
       = (q, replicate 1 None) \<and>
     free_list q = free_list ((NewObjectPool (7 :: nat))\<lparr>objects :=
       [\<lparr>pdata = 7, current = 0, target = 1\<rparr>]\<rparr>) @ [0] \<and>
     Dispose 0 q = (q, Some ErrObjectAlreadyDisposed)"
  by (rule disposals_are_counted
        [OF pool_reach.obtaining [OF pool_reach.new, OF new_pool_obtains]])
    (simp_all add: uses_def NewObjectPool_def poolSizeMax_def)

text \<open>
  The limit of that check: the counters belong to the container, not to its holder.  A
  holder that disposes once too often after the container was handed out again ends the new
  holder's lease and puts the buffer into the pool under it.
\<close>

theorem stale_dispose_hits_next_holder:
  assumes "pool_reach d p" "free_list p = fl @ [a]"
  shows "\<exists>q. Obtain p = Ret (q, a) \<and> live q a \<and> snd (Dispose a q) = None \<and>
     Data a (fst (Dispose a q)) = Inl ErrObjectAlreadyDisposed \<and> a \<in> set (free_list (fst (Dispose a q)))"
proof -
  note inv = pool_reach_inv [OF assms(1)]
  from Obtain_exclusive [OF inv] obtain q b where q: "Obtain p = Ret (q, b)" "pool_inv q" "live q b"
    by blast
  have b: "b = a" using Obtain_recycled [OF inv assms(2)] q(1) by simp
  note D = Dispose_live [OF q(2,3) [unfolded b]]
  have "uses q a = 1" using Obtain_uses [OF inv q(1)] b by simp
  then have dead: "\<not> live (fst (Dispose a q)) a"
    using Dispose_uses [OF q(2,3) [unfolded b]] uses_live [of "fst (Dispose a q)" a] by simp
  with D(3) have last: "target (objects q ! a) \<le> current (objects q ! a) + 1" by blast
  have "a < length (objects (fst (Dispose a q)))"
    using live_length [OF q(3)] D(5) b by (simp add: others_kept_def)
  moreover have "plength q < poolSizeMax"
  proof -
    have "q = reset_container a (p\<lparr>plength := length fl, container := (container p)[length fl := None]\<rparr>)"
      using Obtain_recycled [OF inv assms(2)] q(1) by simp
    moreover have "Suc (length fl) \<le> poolSizeMax"
      using length_free_list [OF inv] assms(2) inv by (simp add: pool_inv_def)
    ultimately show ?thesis by (simp add: reset_container_def)
  qed
  ultimately show ?thesis using q b D(1,4) dead last Data_dead by fastforce
qed

lemma one_idle:
  "fst (Dispose 0 ((NewObjectPool d)\<lparr>objects := [\<lparr>pdata = d, current = 0, target = 1\<rparr>]\<rparr>)) =
   (NewObjectPool d)\<lparr>objects := [\<lparr>pdata = d, current = 1, target = 1\<rparr>],
      container := (container (NewObjectPool d))[0 := Some 0], plength := 1\<rparr>"
  by (simp add: Dispose_def release_def upd_object_def NewObjectPool_def poolSizeMax_def)

theorem stale_dispose_hits_next_holder_witness:
  "\<exists>p. pool_reach (7 :: nat) p \<and> (\<exists>q. Obtain p = Ret (q, 0) \<and> live q 0 \<and> snd (Dispose 0 q) = None \<and>
     Data 0 (fst (Dispose 0 q)) = Inl ErrObjectAlreadyDisposed \<and> 0 \<in> set (free_list (fst (Dispose 0 q))))"
proof -
  let ?p = "(NewObjectPool (7 :: nat))\<lparr>objects := [\<lparr>pdata = 7, current = 0, target = 1\<rparr>]\<rparr>"
  have r: "pool_reach 7 (fst (Dispose 0 ?p))"
    by (intro pool_reach.disposing pool_reach.obtaining [OF pool_reach.new new_pool_obtains]) simp
  have "free_list (fst (Dispose 0 ?p)) = [] @ [0]"
    unfolding one_idle
    by (simp add: free_list_def NewObjectPool_def poolSizeMax_def take_Suc_conv_app_nth)
  from stale_dispose_hits_next_holder [OF r this] r show ?thesis by blast
qed

end
