(* ===== verification/Byte_Order.thy ===== *)
theory Byte_Order
  imports Prelude
begin

text \<open>
  Go's \<open>encoding/binary\<close>, as far as the program uses it: 32-bit and 16-bit fields in
  little-endian order (the transporter protocol, the ADB protocol, the pcap headers) and
  16-bit fields in big-endian order (the synthetic Ethernet, IPv4 and UDP headers).  The
  locale \<open>byte_order\<close> is the contract every codec of a fixed-width field keeps; it is
  interpreted on the three codecs the code uses.
\<close>

unbundle bit_operations_syntax

section \<open>The contract of a fixed-width field codec\<close>

locale byte_order =
  fixes put :: "'w::len word \<Rightarrow> bytes"
    and get :: "bytes \<Rightarrow> 'w word"
    and width :: nat
  assumes length_put: "length (put v) = width"
    and get_put: "get (put v) = v"
    and put_get: "length b = width \<Longrightarrow> put (get b) = b"
begin

lemma put_inject: "put v = put w \<longleftrightarrow> v = w"
  by (metis get_put)

lemma get_inject: "length a = width \<Longrightarrow> length b = width \<Longrightarrow> get a = get b \<longleftrightarrow> a = b"
  by (metis put_get)

text \<open>A field stored in a buffer reads back, and leaves every other field as it was.\<close>

lemma field_read:
  "i + width \<le> length buf \<Longrightarrow> j = i + width \<Longrightarrow> get (slice i j (put_at i (put v) buf)) = v"
  by (simp add: slice_put_at_same length_put get_put)

lemma field_other:
  "i + width \<le> length buf \<Longrightarrow> b \<le> i \<or> i + width \<le> a \<Longrightarrow>
   slice a b (put_at i (put v) buf) = slice a b buf"
  by (auto simp: slice_put_at_before slice_put_at_after length_put)

lemma field_length:
  "i + width \<le> length buf \<Longrightarrow> length (put_at i (put v) buf) = length buf"
  by (simp add: length_put)

lemma get_append: "get (take width (put v @ rest)) = v"
  by (simp add: length_put get_put)

end

section \<open>Little-endian fields\<close>

definition PutUint32 :: "u32 \<Rightarrow> bytes" where
  "PutUint32 v =
     [ucast v, ucast (drop_bit 8 v), ucast (drop_bit 16 v), ucast (drop_bit 24 v)]"

definition Uint32 :: "bytes \<Rightarrow> u32" where
  "Uint32 b =
     ucast (b ! 0) OR push_bit 8 (ucast (b ! 1)) OR push_bit 16 (ucast (b ! 2))
       OR push_bit 24 (ucast (b ! 3))"

definition PutUint16 :: "u16 \<Rightarrow> bytes" where
  "PutUint16 v = [ucast v, ucast (drop_bit 8 v)]"

definition Uint16 :: "bytes \<Rightarrow> u16" where
  "Uint16 b = ucast (b ! 0) OR push_bit 8 (ucast (b ! 1))"

section \<open>Big-endian fields\<close>

definition BigPutUint16 :: "u16 \<Rightarrow> bytes" where
  "BigPutUint16 v = [ucast (drop_bit 8 v), ucast v]"

definition BigUint16 :: "bytes \<Rightarrow> u16" where
  "BigUint16 b = ucast (b ! 1) OR push_bit 8 (ucast (b ! 0))"

section \<open>The codecs keep the contract\<close>

lemma length4_exhaust:
  assumes "length b = 4"
  obtains b0 b1 b2 b3 where "b = [b0, b1, b2, b3]"
  using assms by (auto simp: numeral_eq_Suc length_Suc_conv)

lemma length2_exhaust:
  assumes "length b = 2"
  obtains b0 b1 where "b = [b0, b1]"
  using assms by (auto simp: numeral_eq_Suc length_Suc_conv)

lemma Uint32_PutUint32: "Uint32 (PutUint32 v) = v"
proof (rule bit_word_eqI)
  fix n
  assume "n < LENGTH(32)"
  then consider "n < 8" | "8 \<le> n \<and> n < 16" | "16 \<le> n \<and> n < 24" | "24 \<le> n \<and> n < 32"
    by force
  then show "bit (Uint32 (PutUint32 v)) n \<longleftrightarrow> bit v n"
    by cases (auto simp: Uint32_def PutUint32_def bit_simps)
qed

lemma PutUint32_bytes:
  "PutUint32 (ucast b0 OR push_bit 8 (ucast b1) OR push_bit 16 (ucast b2)
     OR push_bit 24 (ucast b3)) = [b0, b1, b2, b3]"
proof -
  let ?w = "ucast b0 OR push_bit 8 (ucast b1) OR push_bit 16 (ucast b2)
     OR push_bit 24 (ucast b3) :: u32"
  have "ucast ?w = b0" by (rule bit_word_eqI) (auto simp: bit_simps dest: bit_imp_le_length)
  moreover have "ucast (drop_bit 8 ?w) = b1" by (rule bit_word_eqI) (auto simp: bit_simps dest: bit_imp_le_length)
  moreover have "ucast (drop_bit 16 ?w) = b2" by (rule bit_word_eqI) (auto simp: bit_simps dest: bit_imp_le_length)
  moreover have "ucast (drop_bit 24 ?w) = b3" by (rule bit_word_eqI) (auto simp: bit_simps dest: bit_imp_le_length)
  ultimately show ?thesis by (simp only: PutUint32_def)
qed

lemma PutUint32_Uint32: "length b = 4 \<Longrightarrow> PutUint32 (Uint32 b) = b"
  by (erule length4_exhaust) (simp only: Uint32_def PutUint32_bytes nth_Cons_numeral nth_Cons_0
      One_nat_def nth_Cons_Suc numeral_2_eq_2 numeral_3_eq_3)

lemma Uint16_PutUint16: "Uint16 (PutUint16 v) = v"
  unfolding Uint16_def PutUint16_def
  by (rule bit_word_eqI) (auto simp: bit_simps)

lemma BigUint16_BigPutUint16: "BigUint16 (BigPutUint16 v) = v"
  unfolding BigUint16_def BigPutUint16_def
  by (rule bit_word_eqI) (auto simp: bit_simps)

lemma halves_of_u16:
  "ucast (ucast b0 OR push_bit 8 (ucast b1) :: u16) = (b0 :: byte)"
  "ucast (drop_bit 8 (ucast b0 OR push_bit 8 (ucast b1) :: u16)) = (b1 :: byte)"
  by (rule bit_word_eqI; auto simp: bit_simps dest: bit_imp_le_length)+

lemma PutUint16_Uint16: "length b = 2 \<Longrightarrow> PutUint16 (Uint16 b) = b"
  by (erule length2_exhaust)
    (simp only: Uint16_def PutUint16_def halves_of_u16 nth_Cons_0 One_nat_def nth_Cons_Suc)

lemma BigPutUint16_BigUint16: "length b = 2 \<Longrightarrow> BigPutUint16 (BigUint16 b) = b"
  by (erule length2_exhaust)
    (simp only: BigUint16_def BigPutUint16_def halves_of_u16 nth_Cons_0 One_nat_def nth_Cons_Suc)

interpretation le32: byte_order PutUint32 Uint32 4
  by unfold_locales
    (simp_all add: Uint32_PutUint32 PutUint32_Uint32, simp add: PutUint32_def)

interpretation le16: byte_order PutUint16 Uint16 2
  by unfold_locales
    (simp_all add: Uint16_PutUint16 PutUint16_Uint16, simp add: PutUint16_def)

interpretation be16: byte_order BigPutUint16 BigUint16 2
  by unfold_locales
    (simp_all add: BigUint16_BigPutUint16 BigPutUint16_BigUint16, simp add: BigPutUint16_def)

lemmas byte_order_simps [simp] =
  le32.length_put le32.get_put le16.length_put le16.get_put be16.length_put be16.get_put

end
