(* ===== verification/Checksums.thy ===== *)
theory Checksums
  imports Prelude
begin

text \<open>
  The two payload checks of the program: \<open>hash/crc32.ChecksumIEEE\<close>, which guards a
  transporter payload (\<open>shared/protocol\<close>), written out bit by bit over the reflected IEEE
  polynomial, and ADB's \<open>data_check\<close> (\<open>checksum\<close> in \<open>client/adb/adbMessage.go\<close>), which
  is the sum of the bytes modulo \<open>2 ^ 32\<close>.  The lemmas show that the CRC register update is
  a bijection, so a change confined to one byte never goes unnoticed.
\<close>

unbundle bit_operations_syntax

section \<open>CRC-32\<close>

definition crc_shift :: "u32 \<Rightarrow> u32" where
  "crc_shift c = (if bit c 0 then 0xEDB88320 XOR drop_bit 1 c else drop_bit 1 c)"

primrec crc_steps :: "nat \<Rightarrow> u32 \<Rightarrow> u32" where
  "crc_steps 0 c = c"
| "crc_steps (Suc n) c = crc_steps n (crc_shift c)"

definition crc_byte :: "u32 \<Rightarrow> byte \<Rightarrow> u32" where
  "crc_byte c b = crc_steps 8 (c XOR ucast b)"

definition ChecksumIEEE :: "bytes \<Rightarrow> u32" where
  "ChecksumIEEE bs = NOT (foldl crc_byte (NOT 0) bs)"

text \<open>For evaluation by the simplifier: eight shifts, and the shift on a closed register.\<close>

lemma crc_byte_unfold:
  "crc_byte c b = crc_steps (Suc (Suc (Suc (Suc (Suc (Suc (Suc (Suc 0)))))))) (c XOR ucast b)"
  by (simp add: crc_byte_def numeral_eq_Suc)

lemmas crc_eval = ChecksumIEEE_def crc_byte_unfold crc_shift_def

text \<open>
  The top bit of the polynomial is set and a logical shift clears it, so the top bit of
  the result tells which branch was taken: one shift is injective.
\<close>

lemma bit31_crc_shift: "bit (crc_shift c) 31 \<longleftrightarrow> bit c 0"
  by (auto simp: crc_shift_def bit_simps dest: bit_imp_le_length)

lemma crc_shift_inject: "crc_shift a = crc_shift b \<longleftrightarrow> a = b"
proof
  assume eq: "crc_shift a = crc_shift b"
  then have low: "bit a 0 \<longleftrightarrow> bit b 0"
    by (metis bit31_crc_shift)
  have rest: "drop_bit 1 a = drop_bit 1 b"
  proof (cases "bit a 0")
    case True
    with low eq have "0xEDB88320 XOR drop_bit 1 a = 0xEDB88320 XOR drop_bit 1 b"
      by (simp only: crc_shift_def if_True)
    then have "0xEDB88320 XOR (0xEDB88320 XOR drop_bit 1 a)
        = 0xEDB88320 XOR (0xEDB88320 XOR drop_bit 1 b)"
      by (rule arg_cong)
    then show ?thesis by (simp only: xor.assoc [symmetric] xor_self_eq xor.left_neutral)
  next
    case False
    with low eq show ?thesis by (simp only: crc_shift_def if_False)
  qed
  show "a = b"
  proof (rule bit_word_eqI)
    fix n
    show "bit a n \<longleftrightarrow> bit b n"
    proof (cases n)
      case 0
      with low show ?thesis by simp
    next
      case (Suc m)
      from rest have "bit (drop_bit 1 a) m \<longleftrightarrow> bit (drop_bit 1 b) m" by simp
      with Suc show ?thesis by (simp add: bit_simps)
    qed
  qed
qed simp

lemma crc_steps_inject: "crc_steps n a = crc_steps n b \<longleftrightarrow> a = b"
  by (induction n arbitrary: a b) (simp_all add: crc_shift_inject)

lemma xor_right_inject: "(c :: 'a::len word) XOR a = c XOR b \<longleftrightarrow> a = b"
  by (metis xor.assoc xor.left_neutral xor_self_eq)

lemma xor_left_inject: "(a :: 'a::len word) XOR c = b XOR c \<longleftrightarrow> a = b"
  by (metis xor.commute xor_right_inject)

lemma crc_byte_inject_reg: "crc_byte a x = crc_byte b x \<longleftrightarrow> a = b"
  by (simp add: crc_byte_def crc_steps_inject xor_left_inject)

lemma ucast_byte_inject: "(ucast (x :: byte) :: u32) = ucast y \<longleftrightarrow> x = y"
proof
  assume "(ucast x :: u32) = ucast y"
  then have "bit (ucast x :: u32) n \<longleftrightarrow> bit (ucast y :: u32) n" for n by simp
  then show "x = y"
    by (intro bit_word_eqI) (force simp: bit_simps)
qed simp

lemma crc_byte_inject_byte: "crc_byte c x = crc_byte c y \<longleftrightarrow> x = y"
  by (simp add: crc_byte_def crc_steps_inject xor_right_inject ucast_byte_inject)

lemma foldl_crc_inject: "foldl crc_byte a bs = foldl crc_byte b bs \<longleftrightarrow> a = b"
  by (induction bs arbitrary: a b) (simp_all add: crc_byte_inject_reg)

lemma not_word_inject: "(NOT (a :: 'a::len word) = NOT b) \<longleftrightarrow> a = b"
  by (metis bit.double_compl)

text \<open>Two payloads that differ in exactly one byte have different checksums.\<close>

lemma ChecksumIEEE_single_byte:
  "ChecksumIEEE (pre @ x # post) = ChecksumIEEE (pre @ y # post) \<longleftrightarrow> x = y"
  by (simp add: ChecksumIEEE_def not_word_inject foldl_crc_inject crc_byte_inject_byte)

section \<open>ADB's data check\<close>

definition checksum :: "bytes \<Rightarrow> u32" where
  "checksum data = foldl (\<lambda>sum b. sum + ucast b) 0 data"

lemma foldl_sum_word:
  "foldl (\<lambda>s b. s + ucast b) (a :: u32) data = a + (\<Sum>b\<leftarrow>data. ucast (b :: byte))"
  by (induction data arbitrary: a) (simp_all add: add.assoc)

lemma checksum_sum_list: "checksum data = (\<Sum>b\<leftarrow>data. ucast b)"
  by (simp add: checksum_def foldl_sum_word)

lemma checksum_append: "checksum (xs @ ys) = checksum xs + checksum ys"
  by (simp add: checksum_sum_list)

end
