(* ===== verification/Go_IO.thy ===== *)
theory Go_IO
  imports Prelude
begin

text \<open>
  The byte streams the program reads and writes: \<open>net.Conn\<close> as a record, with
  \<open>io.ReadFull\<close>, \<open>Write\<close> and \<open>Close\<close>.  A connection holds the bytes its peer will still
  deliver and the error a read meets after them, the bytes written so far, how many more
  it takes before writes fail (\<open>None\<close>: no limit) and with which error.
  \<open>io.ReadFull\<close> loops until the buffer is full, so how the stream is cut into segments
  does not matter.
\<close>

record net_conn =
  inbound :: bytes
  in_end :: error
  outbound :: bytes
  out_room :: "nat option"
  out_error :: error
  conn_closed :: bool

definition fresh_conn :: "bytes \<Rightarrow> net_conn" where
  "fresh_conn bs =
     \<lparr>inbound = bs, in_end = ErrEOF, outbound = [], out_room = None,
      out_error = ErrBrokenPipe, conn_closed = False\<rparr>"

text \<open>
  \<open>ReadFull c n\<close> fills a buffer of \<open>n\<close> bytes: the connection after it, the bytes that were
  read (fewer than \<open>n\<close> exactly when it fails) and the error.  As in Go, a stream that ends
  before the first byte is \<open>io.EOF\<close>, one that ends later \<open>io.ErrUnexpectedEOF\<close>.
\<close>

definition stream_error :: "error \<Rightarrow> bytes \<Rightarrow> error" where
  "stream_error end_error got =
     (if end_error = ErrEOF \<and> got \<noteq> [] then ErrUnexpectedEOF else end_error)"

definition ReadFull :: "net_conn \<Rightarrow> nat \<Rightarrow> net_conn \<times> bytes \<times> error option" where
  "ReadFull c n =
     (if n = 0 then (c, [], None)
      else if conn_closed c then (c, [], Some ErrNetClosed)
      else if n \<le> length (inbound c)
        then (c\<lparr>inbound := drop n (inbound c)\<rparr>, take n (inbound c), None)
      else (c\<lparr>inbound := []\<rparr>, inbound c,
            Some (stream_error (in_end c) (inbound c))))"

text \<open>
  A single \<open>Read\<close> into a buffer of \<open>room\<close> bytes returns at least one byte if there is one; how many
  (\<open>seg\<close>), and whether the end is reported together with the last bytes (\<open>eager\<close>), is up to the
  network.
\<close>

definition conn_Read :: "nat \<Rightarrow> nat \<Rightarrow> bool \<Rightarrow> net_conn \<Rightarrow> net_conn \<times> bytes \<times> error option" where
  "conn_Read room seg eager c =
     (if conn_closed c then (c, [], Some ErrNetClosed)
      else if inbound c = [] then (c, [], Some (in_end c))
      else let n = min room (max 1 seg); rest = drop n (inbound c) in
        (c\<lparr>inbound := rest\<rparr>, take n (inbound c),
         if eager \<and> rest = [] then Some (in_end c) else None))"

text \<open>\<open>Write\<close> returns how many bytes it took; it takes fewer than all only with an error.\<close>

definition conn_Write :: "net_conn \<Rightarrow> bytes \<Rightarrow> net_conn \<times> nat \<times> error option" where
  "conn_Write c bs =
     (if conn_closed c then (c, 0, Some ErrNetClosed)
      else (case out_room c of
        None \<Rightarrow> (c\<lparr>outbound := outbound c @ bs\<rparr>, length bs, None)
      | Some k \<Rightarrow>
          (if length bs \<le> k
           then (c\<lparr>outbound := outbound c @ bs, out_room := Some (k - length bs)\<rparr>, length bs, None)
           else (c\<lparr>outbound := outbound c @ take k bs, out_room := Some 0\<rparr>, k,
                 Some (out_error c)))))"

definition conn_Close :: "net_conn \<Rightarrow> net_conn \<times> error option" where
  "conn_Close c =
     (if conn_closed c then (c, Some ErrNetClosed) else (c\<lparr>conn_closed := True\<rparr>, None))"

text \<open>A connection that accepts every write.\<close>

definition writable :: "net_conn \<Rightarrow> bool" where
  "writable c \<longleftrightarrow> \<not> conn_closed c \<and> out_room c = None"

lemma writable_fresh_conn [simp]: "writable (fresh_conn bs)"
  by (simp add: writable_def fresh_conn_def)

lemma conn_Write_writable:
  "writable c \<Longrightarrow> conn_Write c bs = (c\<lparr>outbound := outbound c @ bs\<rparr>, length bs, None)"
  by (simp add: conn_Write_def writable_def)

lemma writable_outbound [simp]: "writable (c\<lparr>outbound := bs\<rparr>) = writable c"
  by (simp add: writable_def)

lemma conn_Write_count:
  "conn_Write c bs = (c', n, None) \<Longrightarrow> n = length bs"
  by (auto simp: conn_Write_def split: if_splits option.splits)

lemma conn_Write_prefix:
  "conn_Write c bs = (c', n, e) \<Longrightarrow>
   n \<le> length bs \<and> outbound c' = outbound c @ take n bs \<and>
   inbound c' = inbound c \<and> conn_closed c' = conn_closed c"
  by (auto simp: conn_Write_def split: if_splits option.splits)

lemma ReadFull_ok:
  "\<not> conn_closed c \<Longrightarrow> inbound c = bs @ rest \<Longrightarrow> length bs = n \<Longrightarrow>
   ReadFull c n = (c\<lparr>inbound := rest\<rparr>, bs, None)"
  by (cases "n = 0") (auto simp: ReadFull_def)

lemma ReadFull_short:
  "\<not> conn_closed c \<Longrightarrow> length (inbound c) < n \<Longrightarrow>
   ReadFull c n = (c\<lparr>inbound := []\<rparr>, inbound c, Some (stream_error (in_end c) (inbound c)))"
  by (simp add: ReadFull_def)

lemma ReadFull_length:
  "ReadFull c n = (c', bs, None) \<Longrightarrow> length bs = n"
  by (auto simp: ReadFull_def split: if_splits)

lemma ReadFull_le: "ReadFull c n = (c', bs, e) \<Longrightarrow> length bs \<le> n"
  by (auto simp: ReadFull_def split: if_splits)

lemma ReadFull_outbound:
  "ReadFull c n = (c', bs, e) \<Longrightarrow>
   outbound c' = outbound c \<and> conn_closed c' = conn_closed c \<and> out_room c' = out_room c"
  by (auto simp: ReadFull_def split: if_splits)

lemma ReadFull_inbound:
  "ReadFull c n = (c', bs, e) \<Longrightarrow> inbound c = bs @ inbound c'"
  by (auto simp: ReadFull_def split: if_splits)

lemma conn_Read_inbound:
  "conn_Read room seg eager c = (c', bs, e) \<Longrightarrow>
   inbound c = bs @ inbound c' \<and> length bs \<le> room \<and> outbound c' = outbound c \<and> conn_closed c' = conn_closed c"
  by (auto simp: conn_Read_def Let_def split: if_splits)

end
