(* ===== verification/Transporter_Message.thy ===== *)
theory Transporter_Message
  imports Byte_Order Checksums Go_IO
begin

text \<open>
  \<open>shared/protocol\<close>: the constants of \<open>constants.go\<close>, the frame of
  \<open>message.definition.go\<close> with its reads and writes, and the checks of \<open>utils.go\<close> and
  \<open>validation.go\<close>.  The Go struct holds six slices that alias one array; here the array is
  the record's only field and the slices are the functions that cut it, so a write through
  one of them is seen through all.
\<close>

unbundle bit_operations_syntax

section \<open>Constants (constants.go)\<close>

definition ProtocolVersion :: u32 where "ProtocolVersion = 0x0001"
definition MaxPayloadSize :: u32 where "MaxPayloadSize = 0xF000"
definition HeaderSize :: u32 where "HeaderSize = 0x000C"

definition CommandConnect :: u32 where "CommandConnect = 0x0001"
definition CommandReconnect :: u32 where "CommandReconnect = 0x0002"
definition CommandCreateRoom :: u32 where "CommandCreateRoom = 0x0003"
definition CommandJoinRoom :: u32 where "CommandJoinRoom = 0x0004"
definition CommandAdbTransport :: u32 where "CommandAdbTransport = 0x0006"
definition CommandGuestLeft :: u32 where "CommandGuestLeft = 0x0007"

definition CommandResponseMask :: u32 where "CommandResponseMask = 0x1000"
definition CommandErrorResponseMask :: u32 where "CommandErrorResponseMask = 0x2000"

definition ErrorUnknown :: int where "ErrorUnknown = 0x0001"
definition ErrorProtocolNotSupported :: int where "ErrorProtocolNotSupported = 0x0001"
definition ErrorAlreadyInRoom :: int where "ErrorAlreadyInRoom = 0x0002"
definition ErrorRoomNotFound :: int where "ErrorRoomNotFound = 0x0003"
definition ErrorFull :: int where "ErrorFull = 0x0004"
definition ErrorNoParticipant :: int where "ErrorNoParticipant = 0x0005"
definition ErrorInvalidPayload :: int where "ErrorInvalidPayload = 0x0006"

lemmas size_defs = MaxPayloadSize_def HeaderSize_def

lemmas command_defs =
  CommandConnect_def CommandReconnect_def CommandCreateRoom_def CommandJoinRoom_def
  CommandAdbTransport_def CommandGuestLeft_def
  CommandResponseMask_def CommandErrorResponseMask_def

section \<open>The message and its views (message.definition.go)\<close>

record TransporterMessage =
  messageBuffer :: bytes

definition CreateTransporterMessage :: TransporterMessage where
  "CreateTransporterMessage =
     \<lparr>messageBuffer = replicate (unat (MaxPayloadSize + 4 * 3)) 0\<rparr>"

definition commandBuffer :: "TransporterMessage \<Rightarrow> bytes" where
  "commandBuffer m = slice 0 4 (messageBuffer m)"

definition payloadLengthBuffer :: "TransporterMessage \<Rightarrow> bytes" where
  "payloadLengthBuffer m = slice 4 8 (messageBuffer m)"

definition payloadCrc32Buffer :: "TransporterMessage \<Rightarrow> bytes" where
  "payloadCrc32Buffer m = slice 8 12 (messageBuffer m)"

definition payloadBuffer :: "TransporterMessage \<Rightarrow> bytes" where
  "payloadBuffer m = drop 12 (messageBuffer m)"

definition headerBuffer :: "TransporterMessage \<Rightarrow> bytes" where
  "headerBuffer m = slice 0 12 (messageBuffer m)"

definition write_at :: "nat \<Rightarrow> bytes \<Rightarrow> TransporterMessage \<Rightarrow> TransporterMessage" where
  "write_at i bs m = m\<lparr>messageBuffer := put_at i bs (messageBuffer m)\<rparr>"

definition Command :: "TransporterMessage \<Rightarrow> u32" where
  "Command m = Uint32 (commandBuffer m)"

definition PayloadLength :: "TransporterMessage \<Rightarrow> u32" where
  "PayloadLength m = Uint32 (payloadLengthBuffer m)"

definition PayloadCRC32 :: "TransporterMessage \<Rightarrow> u32" where
  "PayloadCRC32 m = Uint32 (payloadCrc32Buffer m)"

definition WireSize :: "TransporterMessage \<Rightarrow> u32" where
  "WireSize m = HeaderSize + PayloadLength m"

definition Bytes :: "TransporterMessage \<Rightarrow> bytes outcome" where
  "Bytes m = go_slice 0 (unat (HeaderSize + PayloadLength m)) (messageBuffer m)"

definition Payload :: "TransporterMessage \<Rightarrow> bytes outcome" where
  "Payload m = go_slice 0 (unat (PayloadLength m)) (payloadBuffer m)"

definition SetDirectCommand :: "u32 \<Rightarrow> TransporterMessage \<Rightarrow> TransporterMessage" where
  "SetDirectCommand command m = write_at 0 (PutUint32 command) m"

definition SetResponseCommand :: "u32 \<Rightarrow> TransporterMessage \<Rightarrow> TransporterMessage" where
  "SetResponseCommand command m = SetDirectCommand (command OR CommandResponseMask) m"

definition SetErrorResponseCommand :: "u32 \<Rightarrow> TransporterMessage \<Rightarrow> TransporterMessage" where
  "SetErrorResponseCommand command m = SetDirectCommand (command OR CommandErrorResponseMask) m"

definition SetHeader :: "u32 \<Rightarrow> u32 \<Rightarrow> u32 \<Rightarrow> TransporterMessage \<Rightarrow> TransporterMessage" where
  "SetHeader command payloadLength payloadCrc32 m =
     write_at 8 (PutUint32 payloadCrc32)
       (write_at 4 (PutUint32 payloadLength)
         (write_at 0 (PutUint32 command) m))"

section \<open>Checks (utils.go, validation.go)\<close>

definition EnsureLength :: "int \<Rightarrow> int \<Rightarrow> error option" where
  "EnsureLength expected actual =
     (if expected \<noteq> actual then Some (ErrEnsureLength expected actual) else None)"

definition EnsureIntLength :: "int \<Rightarrow> error option" where
  "EnsureIntLength actual = EnsureLength 4 actual"

definition IsError :: "TransporterMessage \<Rightarrow> bool" where
  "IsError m \<longleftrightarrow> Command m AND CommandErrorResponseMask \<noteq> 0"

definition ExpectCommand :: "TransporterMessage \<Rightarrow> u32 \<Rightarrow> error option" where
  "ExpectCommand m expectedCommand =
     (if Command m \<noteq> expectedCommand
      then Some (ErrUnexpectedCommand (Command m) expectedCommand) else None)"

definition validatePayloadCRC32 :: "bytes \<Rightarrow> u32 \<Rightarrow> error option" where
  "validatePayloadCRC32 payload expectedCrc32 =
     (if ChecksumIEEE payload \<noteq> expectedCrc32
      then Some (ErrInvalidCRC32 expectedCrc32 (ChecksumIEEE payload)) else None)"

section \<open>Reading a message off a connection\<close>

text \<open>
  \<open>Read\<close> fills the header, then the payload the header announces, in place: what was read
  stays in the buffer also when it returns an error.
\<close>

definition Read ::
  "TransporterMessage \<Rightarrow> net_conn \<Rightarrow> (TransporterMessage \<times> net_conn \<times> error option) outcome" where
  "Read m reader =
     (case ReadFull reader (length (headerBuffer m)) of (reader1, header, err) \<Rightarrow>
      let m1 = write_at 0 header m in
      (case err of Some e \<Rightarrow> Ret (m1, reader1, Some e) | None \<Rightarrow>
      (case EnsureLength (int (length (headerBuffer m))) (int (length header)) of
         Some e \<Rightarrow> Ret (m1, reader1, Some e) | None \<Rightarrow>
       let payloadLength = PayloadLength m1 in
       if payloadLength > MaxPayloadSize then Ret (m1, reader1, Some ErrPayloadTooLarge)
       else if payloadLength > 0 then
         andThen (go_slice 0 (unat payloadLength) (payloadBuffer m1)) (\<lambda>target.
         (case ReadFull reader1 (length target) of (reader2, body, err2) \<Rightarrow>
          let m2 = write_at 12 body m1 in
          (case err2 of Some e \<Rightarrow> Ret (m2, reader2, Some e) | None \<Rightarrow>
          (case EnsureLength (int (unat payloadLength)) (int (length body)) of
             Some e \<Rightarrow> Ret (m2, reader2, Some e) | None \<Rightarrow>
           andThen (go_slice 0 (unat payloadLength) (payloadBuffer m2)) (\<lambda>payload.
           Ret (m2, reader2, validatePayloadCRC32 payload (PayloadCRC32 m2)))))))
       else Ret (m1, reader1, None))))"

section \<open>Writing a message to a connection\<close>

definition Write :: "TransporterMessage \<Rightarrow> net_conn \<Rightarrow> (net_conn \<times> error option) outcome" where
  "Write m writer =
     (case conn_Write writer (headerBuffer m) of (writer1, n, err) \<Rightarrow>
      (case err of Some e \<Rightarrow> Ret (writer1, Some e) | None \<Rightarrow>
      (case EnsureLength (int (length (headerBuffer m))) (int n) of
         Some e \<Rightarrow> Ret (writer1, Some e) | None \<Rightarrow>
       let payloadLength = PayloadLength m in
       if payloadLength > 0 then
         andThen (go_slice 0 (unat payloadLength) (payloadBuffer m)) (\<lambda>payload.
         (case conn_Write writer1 payload of (writer2, n2, err2) \<Rightarrow>
          (case err2 of Some e \<Rightarrow> Ret (writer2, Some e) | None \<Rightarrow>
           Ret (writer2, EnsureLength (int (unat payloadLength)) (int n2)))))
       else Ret (writer1, None))))"

section \<open>Well-formed messages\<close>

text \<open>
  \<open>wf_message\<close>: the array has the size \<open>CreateTransporterMessage\<close> gave it; no operation
  changes that.  \<open>payload_fits\<close>: the length field does not exceed the payload buffer; this
  one can fail, since \<open>Read\<close> stores the length field before it checks it.
  \<open>payload_bytes\<close> is the payload as the length field delimits it.
\<close>

definition wf_message :: "TransporterMessage \<Rightarrow> bool" where
  "wf_message m \<longleftrightarrow> length (messageBuffer m) = 0xF00C"

definition payload_fits :: "TransporterMessage \<Rightarrow> bool" where
  "payload_fits m \<longleftrightarrow> PayloadLength m \<le> MaxPayloadSize"

definition payload_bytes :: "TransporterMessage \<Rightarrow> bytes" where
  "payload_bytes m = take (unat (PayloadLength m)) (payloadBuffer m)"

lemma payload_fits_nat: "payload_fits m \<longleftrightarrow> unat (PayloadLength m) \<le> 0xF000"
  by (simp add: payload_fits_def MaxPayloadSize_def word_le_nat_alt)

lemma wf_CreateTransporterMessage [simp]: "wf_message CreateTransporterMessage"
  by (simp add: wf_message_def CreateTransporterMessage_def MaxPayloadSize_def)

lemma wf_write_at [simp]:
  "i + length bs \<le> 0xF00C \<Longrightarrow> wf_message m \<Longrightarrow> wf_message (write_at i bs m)"
  by (simp add: wf_message_def write_at_def)

lemma wf_SetCommand [simp]:
  "wf_message m \<Longrightarrow> wf_message (SetDirectCommand c m)"
  "wf_message m \<Longrightarrow> wf_message (SetResponseCommand c m)"
  "wf_message m \<Longrightarrow> wf_message (SetErrorResponseCommand c m)"
  by (simp_all add: SetDirectCommand_def SetResponseCommand_def SetErrorResponseCommand_def)

lemma length_headerBuffer [simp]: "wf_message m \<Longrightarrow> length (headerBuffer m) = 12"
  by (simp add: headerBuffer_def wf_message_def)

lemma length_payloadBuffer [simp]: "wf_message m \<Longrightarrow> length (payloadBuffer m) = 0xF000"
  by (simp add: payloadBuffer_def wf_message_def)

text \<open>What each view sees after a write at a given place.\<close>

lemma Command_write_at [simp]:
  "wf_message m \<Longrightarrow> 4 \<le> i \<Longrightarrow> i + length bs \<le> 0xF00C \<Longrightarrow> Command (write_at i bs m) = Command m"
  by (simp add: Command_def commandBuffer_def write_at_def wf_message_def slice_put_at_before)

lemma PayloadLength_write_at [simp]:
  "wf_message m \<Longrightarrow> i + length bs \<le> 0xF00C \<Longrightarrow> i + length bs \<le> 4 \<or> 8 \<le> i \<Longrightarrow>
   PayloadLength (write_at i bs m) = PayloadLength m"
  by (auto simp: PayloadLength_def payloadLengthBuffer_def write_at_def wf_message_def
      slice_put_at_before slice_put_at_after)

lemma PayloadCRC32_write_at [simp]:
  "wf_message m \<Longrightarrow> i + length bs \<le> 0xF00C \<Longrightarrow> i + length bs \<le> 8 \<or> 12 \<le> i \<Longrightarrow>
   PayloadCRC32 (write_at i bs m) = PayloadCRC32 m"
  by (auto simp: PayloadCRC32_def payloadCrc32Buffer_def write_at_def wf_message_def
      slice_put_at_before slice_put_at_after)

lemma payloadBuffer_write_at [simp]:
  "wf_message m \<Longrightarrow> i + length bs \<le> 12 \<Longrightarrow> payloadBuffer (write_at i bs m) = payloadBuffer m"
  by (simp add: payloadBuffer_def write_at_def wf_message_def drop_put_at_before)

lemma payloadBuffer_write_at_payload:
  "wf_message m \<Longrightarrow> 12 \<le> i \<Longrightarrow> i + length bs \<le> 0xF00C \<Longrightarrow>
   payloadBuffer (write_at i bs m) = put_at (i - 12) bs (payloadBuffer m)"
  by (simp add: payloadBuffer_def write_at_def wf_message_def drop_put_at)

lemma Command_set [simp]:
  "wf_message m \<Longrightarrow> Command (write_at 0 (PutUint32 c) m) = c"
  by (simp add: Command_def commandBuffer_def write_at_def wf_message_def slice_put_at_same)

lemma PayloadLength_set [simp]:
  "wf_message m \<Longrightarrow> PayloadLength (write_at 4 (PutUint32 n) m) = n"
  by (simp add: PayloadLength_def payloadLengthBuffer_def write_at_def wf_message_def
      slice_put_at_same)

lemma PayloadCRC32_set [simp]:
  "wf_message m \<Longrightarrow> PayloadCRC32 (write_at 8 (PutUint32 n) m) = n"
  by (simp add: PayloadCRC32_def payloadCrc32Buffer_def write_at_def wf_message_def
      slice_put_at_same)

lemma Command_SetCommand [simp]:
  "wf_message m \<Longrightarrow> Command (SetDirectCommand c m) = c"
  "wf_message m \<Longrightarrow> Command (SetResponseCommand c m) = c OR CommandResponseMask"
  "wf_message m \<Longrightarrow> Command (SetErrorResponseCommand c m) = c OR CommandErrorResponseMask"
  by (simp_all add: SetDirectCommand_def SetResponseCommand_def SetErrorResponseCommand_def)

text \<open>
  Setting the command leaves length, checksum and payload as they were: the old payload
  stays attached to the new command unless a payload setter follows.
\<close>

lemma SetCommand_frame [simp]:
  "wf_message m \<Longrightarrow> PayloadLength (SetDirectCommand c m) = PayloadLength m"
  "wf_message m \<Longrightarrow> PayloadCRC32 (SetDirectCommand c m) = PayloadCRC32 m"
  "wf_message m \<Longrightarrow> payloadBuffer (SetDirectCommand c m) = payloadBuffer m"
  by (simp_all add: SetDirectCommand_def)

lemma payload_bytes_SetCommand [simp]:
  "wf_message m \<Longrightarrow> payload_bytes (SetDirectCommand c m) = payload_bytes m"
  by (simp add: payload_bytes_def)

lemma length_payload_bytes [simp]:
  "wf_message m \<Longrightarrow> payload_fits m \<Longrightarrow> length (payload_bytes m) = unat (PayloadLength m)"
  by (simp add: payload_bytes_def payload_fits_nat)

lemma Payload_ok:
  "wf_message m \<Longrightarrow> payload_fits m \<Longrightarrow> Payload m = Ret (payload_bytes m)"
  by (simp add: Payload_def payload_fits_nat payload_bytes_def slice_0)

lemma Payload_panics: "wf_message m \<Longrightarrow> \<not> payload_fits m \<Longrightarrow> Payload m = Panic"
  by (simp add: Payload_def payload_fits_nat go_slice_def)

lemma header_fields:
  "wf_message m \<Longrightarrow>
   headerBuffer m = PutUint32 (Command m) @ PutUint32 (PayloadLength m) @ PutUint32 (PayloadCRC32 m)"
proof -
  assume wf: "wf_message m"
  let ?b = "messageBuffer m"
  have "slice 0 12 ?b = slice 0 4 ?b @ slice 4 8 ?b @ slice 8 12 ?b"
  proof -
    have "take 12 ?b = take 4 ?b @ take 4 (drop 4 ?b) @ take 4 (drop 8 ?b)"
      using take_add [of 4 8 ?b] take_add [of 4 4 "drop 4 ?b"] by simp
    then show ?thesis by (simp add: slice_def)
  qed
  with wf show ?thesis
    by (simp add: headerBuffer_def Command_def commandBuffer_def PayloadLength_def
        payloadLengthBuffer_def PayloadCRC32_def payloadCrc32Buffer_def wf_message_def
        le32.put_get)
qed

end
