(* ===== verification/Frame.thy ===== *)
theory Frame
  imports Transporter_Message
begin

text \<open>
  The wire format as an abstract specification, and the refinement of \<open>Read\<close> and \<open>Write\<close>
  to it.  A frame is a command and a payload; \<open>encode_frame\<close> lays it out, \<open>decode_frame\<close>
  says of any byte stream which frame it starts with or why it starts with none.  The
  lemmas show that \<open>Write\<close> sends exactly the header and the announced payload and that
  \<open>Read\<close>, on every stream, agrees with \<open>decode_frame\<close> and never panics.
\<close>

section \<open>What \<open>Write\<close> puts on the wire\<close>

definition wire_bytes :: "TransporterMessage \<Rightarrow> bytes" where
  "wire_bytes m = headerBuffer m @ payload_bytes m"

definition sealed :: "TransporterMessage \<Rightarrow> bool" where
  "sealed m \<longleftrightarrow> PayloadCRC32 m = ChecksumIEEE (payload_bytes m)"

definition encode_frame :: "u32 \<Rightarrow> bytes \<Rightarrow> bytes" where
  "encode_frame command payload =
     PutUint32 command @ PutUint32 (word_of_nat (length payload)) @
     PutUint32 (ChecksumIEEE payload) @ payload"

lemma payload_bytes_empty: "PayloadLength m = 0 \<Longrightarrow> payload_bytes m = []"
  by (simp add: payload_bytes_def)

lemma u32_gt_0_unat: "(0 :: u32) < w \<longleftrightarrow> 0 < unat w"
  by (simp add: word_less_nat_alt)

lemma Bytes_wire:
  assumes "wf_message m" "payload_fits m"
  shows "Bytes m = Ret (wire_bytes m)"
proof -
  let ?n = "unat (PayloadLength m)"
  have n: "?n \<le> 0xF000" using assms(2) by (simp add: payload_fits_nat)
  then have "unat (HeaderSize + PayloadLength m) = 12 + ?n"
    by (simp add: HeaderSize_def unat_add_no_wrap)
  moreover have "take (12 + ?n) (messageBuffer m) = wire_bytes m"
    by (simp add: wire_bytes_def headerBuffer_def payload_bytes_def payloadBuffer_def slice_def
        take_add)
  ultimately show ?thesis
    using assms(1) n by (simp add: Bytes_def wf_message_def slice_0)
qed

lemma wire_bytes_fields:
  "wf_message m \<Longrightarrow>
   wire_bytes m =
     PutUint32 (Command m) @ PutUint32 (PayloadLength m) @ PutUint32 (PayloadCRC32 m) @ payload_bytes m"
  by (simp add: wire_bytes_def header_fields)

lemma wire_bytes_encode:
  "wf_message m \<Longrightarrow> payload_fits m \<Longrightarrow> sealed m \<Longrightarrow>
   wire_bytes m = encode_frame (Command m) (payload_bytes m)"
  by (simp add: wire_bytes_fields encode_frame_def sealed_def)

lemma length_wire_bytes:
  "wf_message m \<Longrightarrow> payload_fits m \<Longrightarrow> length (wire_bytes m) = 12 + unat (PayloadLength m)"
  by (simp add: wire_bytes_def)

lemma WireSize_wire_bytes:
  "wf_message m \<Longrightarrow> payload_fits m \<Longrightarrow> unat (WireSize m) = length (wire_bytes m)"
  by (simp add: WireSize_def HeaderSize_def length_wire_bytes unat_add_no_wrap payload_fits_nat)

lemma Write_writable:
  assumes "wf_message m" "payload_fits m" "writable c"
  shows "Write m c = Ret (c\<lparr>outbound := outbound c @ wire_bytes m\<rparr>, None)"
proof (cases "PayloadLength m > 0")
  case True
  with assms show ?thesis
    by (simp add: Write_def conn_Write_writable EnsureLength_def payload_fits_nat wire_bytes_def
        payload_bytes_def slice_0 min_def)
next
  case False
  then have "PayloadLength m = 0" by (simp add: word_gt_0)
  with assms show ?thesis
    by (simp add: Write_def conn_Write_writable EnsureLength_def wire_bytes_def
        payload_bytes_empty)
qed

text \<open>
  On any connection: a message whose length field fits is never the cause of a panic, and
  what reaches the peer is a prefix of the frame, all of it when \<open>Write\<close> reports no error.
\<close>

lemma conn_Write_cases:
  obtains c' n e where "conn_Write c bs = (c', n, e)" "n \<le> length bs"
    "outbound c' = outbound c @ take n bs" "inbound c' = inbound c"
    "conn_closed c' = conn_closed c" "e = None \<Longrightarrow> n = length bs"
proof -
  obtain c' n e where w: "conn_Write c bs = (c', n, e)" by (metis prod_cases3)
  with that [OF w] show thesis
    using conn_Write_prefix [OF w] conn_Write_count [of c bs c' n] by auto
qed

lemma Write_any:
  assumes "wf_message m" "payload_fits m"
  shows "returns (\<lambda>(c', e). inbound c' = inbound c \<and> conn_closed c' = conn_closed c \<and>
     (\<exists>k \<le> length (wire_bytes m). outbound c' = outbound c @ take k (wire_bytes m) \<and>
        (e = None \<longrightarrow> k = length (wire_bytes m)))) (Write m c)"
proof -
  have len: "length (headerBuffer m) = 12" "unat (PayloadLength m) \<le> 0xF000"
    "length (payload_bytes m) = unat (PayloadLength m)"
    using assms by (simp_all add: payload_fits_nat)
  obtain c1 n1 e1 where w1: "conn_Write c (headerBuffer m) = (c1, n1, e1)" "n1 \<le> 12"
    "outbound c1 = outbound c @ take n1 (headerBuffer m)" "inbound c1 = inbound c"
    "conn_closed c1 = conn_closed c" "e1 = None \<Longrightarrow> n1 = 12"
    using len(1) by (metis conn_Write_cases)
  obtain c2 n2 e2 where w2: "conn_Write c1 (payload_bytes m) = (c2, n2, e2)"
    "n2 \<le> unat (PayloadLength m)"
    "outbound c2 = outbound c1 @ take n2 (payload_bytes m)" "inbound c2 = inbound c1"
    "conn_closed c2 = conn_closed c1" "e2 = None \<Longrightarrow> n2 = unat (PayloadLength m)"
    using len(3) by (metis conn_Write_cases)
  have slice_eq: "slice 0 (unat (PayloadLength m)) (payloadBuffer m) = payload_bytes m"
    by (simp add: slice_0 payload_bytes_def)
  show ?thesis
  proof (cases e1)
    case (Some e)
    with w1 len show ?thesis
      by (auto simp: Write_def wire_bytes_def intro!: exI [of _ n1])
  next
    case None
    then have n1: "n1 = 12" by (rule w1)
    show ?thesis
    proof (cases "PayloadLength m > 0")
      case True
      with None n1 w1 w2 len assms show ?thesis
        by (cases e2) (auto simp: Write_def EnsureLength_def slice_eq wire_bytes_def Let_def
            intro!: exI [of _ "12 + n2"])
    next
      case False
      then have "PayloadLength m = 0" by (simp add: word_gt_0)
      with None n1 w1 len show ?thesis
        by (auto simp: Write_def EnsureLength_def wire_bytes_def payload_bytes_empty)
    qed
  qed
qed

text \<open>A message whose length field exceeds the buffer makes \<open>Write\<close> panic after the header.\<close>

lemma Write_panics:
  assumes "wf_message m" "\<not> payload_fits m" "writable c"
  shows "Write m c = Panic"
proof -
  from assms(2) have "0xF000 < unat (PayloadLength m)"
    by (simp add: payload_fits_nat)
  then have "PayloadLength m > 0" by (simp add: u32_gt_0_unat)
  with assms show ?thesis
    by (simp add: Write_def conn_Write_writable EnsureLength_def go_slice_def payload_fits_nat)
qed

section \<open>What \<open>Read\<close> takes off the wire\<close>

text \<open>
  The specification of the decoder, on the bytes a connection will deliver and the error
  that follows them.  \<open>Inr (command, payload, rest)\<close> is a frame and what is left.
\<close>

definition decode_frame :: "error \<Rightarrow> bytes \<Rightarrow> error + u32 \<times> bytes \<times> bytes" where
  "decode_frame end_error s =
     (if length s < 12 then Inl (stream_error end_error s)
      else let command = Uint32 (slice 0 4 s); len = Uint32 (slice 4 8 s);
               crc = Uint32 (slice 8 12 s); rest = drop 12 s;
               payload = take (unat len) rest in
      if len > MaxPayloadSize then Inl ErrPayloadTooLarge
      else if length rest < unat len then Inl (stream_error end_error rest)
      else if len > 0 \<and> ChecksumIEEE payload \<noteq> crc
        then Inl (ErrInvalidCRC32 crc (ChecksumIEEE payload))
      else Inr (command, payload, drop (unat len) rest))"

text \<open>The message that \<open>Read\<close> leaves behind when the header \<open>h\<close> and the bytes \<open>b\<close> came in.\<close>

definition after_read :: "TransporterMessage \<Rightarrow> bytes \<Rightarrow> bytes \<Rightarrow> TransporterMessage" where
  "after_read m h b = write_at 12 b (write_at 0 h m)"

lemma wf_after_read [simp]:
  "wf_message m \<Longrightarrow> length h \<le> 12 \<Longrightarrow> length b \<le> 0xF000 \<Longrightarrow> wf_message (after_read m h b)"
  by (simp add: after_read_def)

lemma write_at_Nil [simp]: "write_at i [] m = m"
  by (simp add: write_at_def)

lemma header_write_at:
  assumes "wf_message m" "length h = 12"
  shows "Command (write_at 0 h m) = Uint32 (slice 0 4 h)"
    "PayloadLength (write_at 0 h m) = Uint32 (slice 4 8 h)"
    "PayloadCRC32 (write_at 0 h m) = Uint32 (slice 8 12 h)"
  using assms
  by (simp_all add: Command_def commandBuffer_def PayloadLength_def payloadLengthBuffer_def
      PayloadCRC32_def payloadCrc32Buffer_def write_at_def put_at_def slice_append_left)

lemma after_read_fields:
  assumes "wf_message m" "length h = 12" "length b \<le> 0xF000"
  shows "Command (after_read m h b) = Uint32 (slice 0 4 h)"
    "PayloadLength (after_read m h b) = Uint32 (slice 4 8 h)"
    "PayloadCRC32 (after_read m h b) = Uint32 (slice 8 12 h)"
    "take (length b) (payloadBuffer (after_read m h b)) = b"
  using assms
  by (simp_all add: after_read_def header_write_at payloadBuffer_write_at_payload put_at_def)

text \<open>
  \<open>Read\<close> on an open connection, branch by branch; together these equations determine it.
\<close>

lemma Read_short_header:
  assumes "wf_message m" "\<not> conn_closed c" "length (inbound c) < 12"
  shows "Read m c = Ret (write_at 0 (inbound c) m, c\<lparr>inbound := []\<rparr>,
     Some (stream_error (in_end c) (inbound c)))"
  using assms by (simp add: Read_def ReadFull_short)

lemma Read_closed:
  assumes "wf_message m" "conn_closed c"
  shows "Read m c = Ret (m, c, Some ErrNetClosed)"
  using assms by (simp add: Read_def ReadFull_def)

text \<open>Past the header: the rest of \<open>Read\<close>, once \<open>h\<close> is stored.\<close>

lemma Read_after_header:
  assumes "wf_message m" "\<not> conn_closed c" "inbound c = h @ rest" "length h = 12"
  shows "Read m c =
     (let m1 = write_at 0 h m; c1 = c\<lparr>inbound := rest\<rparr>; len = Uint32 (slice 4 8 h) in
      if len > MaxPayloadSize then Ret (m1, c1, Some ErrPayloadTooLarge)
      else if len > 0 then
        (case ReadFull c1 (unat len) of (c2, body, err2) \<Rightarrow>
         (case err2 of Some e \<Rightarrow> Ret (after_read m h body, c2, Some e) | None \<Rightarrow>
          Ret (after_read m h body, c2,
            validatePayloadCRC32 (take (unat len) (payloadBuffer (after_read m h body)))
              (PayloadCRC32 (after_read m h body)))))
      else Ret (m1, c1, None))"
proof -
  have hdr: "ReadFull c 12 = (c\<lparr>inbound := rest\<rparr>, h, None)"
    using assms by (simp add: ReadFull_ok)
  let ?len = "Uint32 (slice 4 8 h)" and ?m1 = "write_at 0 h m"
  have m1: "wf_message ?m1" "PayloadLength ?m1 = ?len"
    using assms by (simp_all add: header_write_at)
  consider (large) "?len > MaxPayloadSize" | (zero) "\<not> ?len > MaxPayloadSize" "\<not> ?len > 0"
    | (body) "\<not> ?len > MaxPayloadSize" "?len > 0" by blast
  then show ?thesis
  proof cases
    case body
    obtain c2 bs e where rf: "ReadFull (c\<lparr>inbound := rest\<rparr>) (unat ?len) = (c2, bs, e)"
      by (metis prod_cases3)
    have le: "unat ?len \<le> 0xF000"
      using body by (simp add: MaxPayloadSize_def word_le_nat_alt not_less)
    have bs: "length bs \<le> unat ?len" "e = None \<Longrightarrow> length bs = unat ?len"
      using rf ReadFull_le ReadFull_length by blast+
    then have m2: "wf_message (after_read m h bs)" using assms le by simp
    show ?thesis
      using assms(1,4) body m1 m2 le bs rf
      by (cases e) (simp_all add: Read_def hdr EnsureLength_def Let_def slice_0 min_def
          after_read_def)
  qed (use assms m1 hdr in \<open>simp_all add: Read_def EnsureLength_def Let_def\<close>)
qed

lemma Read_too_large:
  assumes "wf_message m" "\<not> conn_closed c" "inbound c = h @ rest" "length h = 12"
    and "Uint32 (slice 4 8 h) > MaxPayloadSize"
  shows "Read m c = Ret (write_at 0 h m, c\<lparr>inbound := rest\<rparr>, Some ErrPayloadTooLarge)"
  using assms by (simp add: Read_after_header Let_def)

lemma Read_short_payload:
  assumes "wf_message m" "\<not> conn_closed c" "inbound c = h @ rest" "length h = 12"
    and "Uint32 (slice 4 8 h) \<le> MaxPayloadSize" "length rest < unat (Uint32 (slice 4 8 h))"
  shows "Read m c = Ret (after_read m h rest, c\<lparr>inbound := []\<rparr>,
     Some (stream_error (in_end c) rest))"
proof -
  have "0 < Uint32 (slice 4 8 h)" using assms(6) by (simp add: u32_gt_0_unat)
  with assms show ?thesis
    by (simp add: Read_after_header ReadFull_short leD Let_def)
qed

lemma Read_empty_payload:
  assumes "wf_message m" "\<not> conn_closed c" "inbound c = h @ rest" "length h = 12"
    and "Uint32 (slice 4 8 h) = 0"
  shows "Read m c = Ret (after_read m h [], c\<lparr>inbound := rest\<rparr>, None)"
  using assms by (simp add: Read_after_header after_read_def Let_def)

lemma Read_full:
  assumes "wf_message m" "\<not> conn_closed c" "inbound c = h @ b @ rest" "length h = 12"
    and "Uint32 (slice 4 8 h) \<le> MaxPayloadSize" "length b = unat (Uint32 (slice 4 8 h))"
    and "b \<noteq> []"
  shows "Read m c = Ret (after_read m h b, c\<lparr>inbound := rest\<rparr>,
     validatePayloadCRC32 b (Uint32 (slice 8 12 h)))"
proof -
  have le: "length b \<le> 0xF000"
    using assms(5,6) by (simp add: MaxPayloadSize_def word_le_nat_alt)
  have pos: "0 < Uint32 (slice 4 8 h)"
    using assms(6,7) by (simp add: u32_gt_0_unat flip: assms(6))
  have body: "ReadFull (c\<lparr>inbound := b @ rest\<rparr>) (length b)
      = (c\<lparr>inbound := rest\<rparr>, b, None)"
    using assms by (simp add: ReadFull_ok)
  show ?thesis
    using assms(5) pos after_read_fields(3,4) [OF assms(1,4) le]
    by (simp add: Read_after_header [OF assms(1,2,3,4)] body Let_def leD flip: assms(6))
qed

section \<open>\<open>Read\<close> implements \<open>decode_frame\<close>\<close>

text \<open>The message holds the frame: command, payload and, for a non-empty payload, its checksum.\<close>

definition holds_frame :: "TransporterMessage \<Rightarrow> u32 \<Rightarrow> bytes \<Rightarrow> bool" where
  "holds_frame m command payload \<longleftrightarrow>
     wf_message m \<and> payload_fits m \<and> Command m = command \<and> payload_bytes m = payload \<and>
     (payload \<noteq> [] \<longrightarrow> sealed m)"

lemma payload_fits_after_read:
  assumes "wf_message m" "length h = 12" "Uint32 (slice 4 8 h) \<le> MaxPayloadSize"
    and "length b \<le> 0xF000"
  shows "payload_fits (after_read m h b)"
  using assms by (simp add: payload_fits_def after_read_fields)

lemma holds_after_read:
  assumes "wf_message m" "length h = 12" "Uint32 (slice 4 8 h) \<le> MaxPayloadSize"
    and "length b = unat (Uint32 (slice 4 8 h))"
    and "b \<noteq> [] \<Longrightarrow> ChecksumIEEE b = Uint32 (slice 8 12 h)"
  shows "holds_frame (after_read m h b) (Uint32 (slice 0 4 h)) b"
proof -
  have le: "length b \<le> 0xF000"
    using assms(3,4) by (simp add: MaxPayloadSize_def word_le_nat_alt)
  note fields = after_read_fields [OF assms(1,2) le]
  have pb: "payload_bytes (after_read m h b) = b"
    unfolding payload_bytes_def fields(2) assms(4) [symmetric] by (rule fields(4))
  have "wf_message (after_read m h b)" using assms(1,2) le by simp
  moreover have "b \<noteq> [] \<longrightarrow> sealed (after_read m h b)"
    using assms(5) by (simp only: sealed_def fields(3) pb) simp
  ultimately show ?thesis
    using payload_fits_after_read [OF assms(1-3) le]
    by (simp only: holds_frame_def fields(1) pb)
qed

text \<open>The decoder, once the twelve header bytes are known.\<close>

lemma decode_frame_header:
  assumes "length h = 12"
  shows "decode_frame end_error (h @ rest) =
     (let len = Uint32 (slice 4 8 h); crc = Uint32 (slice 8 12 h);
          payload = take (unat len) rest in
      if len > MaxPayloadSize then Inl ErrPayloadTooLarge
      else if length rest < unat len then Inl (stream_error end_error rest)
      else if len > 0 \<and> ChecksumIEEE payload \<noteq> crc
        then Inl (ErrInvalidCRC32 crc (ChecksumIEEE payload))
      else Inr (Uint32 (slice 0 4 h), payload, drop (unat len) rest))"
  using assms by (simp add: decode_frame_def slice_append_left)

lemma header_slices:
  "slice 0 4 (PutUint32 a @ PutUint32 b @ PutUint32 c) = PutUint32 a"
  "slice 4 8 (PutUint32 a @ PutUint32 b @ PutUint32 c) = PutUint32 b"
  "slice 8 12 (PutUint32 a @ PutUint32 b @ PutUint32 c) = PutUint32 c"
  by (simp_all add: slice_def)

lemma decode_frame_fields:
  "decode_frame end_error (PutUint32 command @ PutUint32 len @ PutUint32 crc @ rest) =
     (if len > MaxPayloadSize then Inl ErrPayloadTooLarge
      else if length rest < unat len then Inl (stream_error end_error rest)
      else if len > 0 \<and> ChecksumIEEE (take (unat len) rest) \<noteq> crc
        then Inl (ErrInvalidCRC32 crc (ChecksumIEEE (take (unat len) rest)))
      else Inr (command, take (unat len) rest, drop (unat len) rest))"
  using decode_frame_header [of "PutUint32 command @ PutUint32 len @ PutUint32 crc" end_error rest]
  by (simp add: header_slices Let_def)

text \<open>A stream in the three shapes that the decoder tells apart.\<close>

lemma stream_header:
  assumes "12 \<le> length s"
  obtains h rest where "s = h @ rest" "length h = 12" "h = take 12 s" "rest = drop 12 s"
  using assms by (metis append_take_drop_id length_take min.absorb2)

theorem Read_implements_decode_frame:
  assumes wf: "wf_message m" and "open": "\<not> conn_closed c"
  shows "case decode_frame (in_end c) (inbound c) of
      Inl e \<Rightarrow> \<exists>m' c'. Read m c = Ret (m', c', Some e) \<and> wf_message m'
    | Inr (command, payload, rest) \<Rightarrow>
        \<exists>m'. Read m c = Ret (m', c\<lparr>inbound := rest\<rparr>, None) \<and> holds_frame m' command payload"
proof (cases "length (inbound c) < 12")
  case True
  then show ?thesis
    using Read_short_header [OF wf "open" True] wf by (simp add: decode_frame_def)
next
  case False
  then have "12 \<le> length (inbound c)" by simp
  then obtain h rest where s: "inbound c = h @ rest" "length h = 12"
    by (rule stream_header)
  define len where "len = Uint32 (slice 4 8 h)"
  note dec = decode_frame_header [OF s(2), of "in_end c" rest, folded len_def s(1)]
  show ?thesis
  proof (cases "len > MaxPayloadSize")
    case True
    then show ?thesis
      using Read_too_large [OF wf "open" s] wf s(2) by (simp add: dec len_def)
  next
    case small: False
    then have max: "len \<le> MaxPayloadSize" by simp
    then have le: "unat len \<le> 0xF000"
      by (simp add: MaxPayloadSize_def word_le_nat_alt)
    show ?thesis
    proof (cases "length rest < unat len")
      case True
      with small le show ?thesis
        using Read_short_payload [OF wf "open" s max [unfolded len_def]] wf s(2)
        by (simp add: dec len_def)
    next
      case False
      define b where "b = take (unat len) rest"
      have b: "inbound c = h @ b @ drop (unat len) rest" "length b = unat len"
        using False s by (simp_all add: b_def)
      note holds = holds_after_read [OF wf s(2), folded len_def, OF max b(2)]
      show ?thesis
      proof (cases "b = []")
        case True
        with b have "len = 0" by (simp add: unat_eq_zero)
        with True show ?thesis
          using Read_empty_payload [OF wf "open" s] holds
          by (simp add: dec len_def)
      next
        case ne: False
        then have pos: "len > 0" using b(2) by (simp add: u32_gt_0_unat flip: b(2))
        note read = Read_full [OF wf "open" b(1) s(2), folded len_def, OF max b(2) ne]
        show ?thesis
          using read holds small False pos wf s(2) le b(2)
          by (simp add: dec Let_def b_def [symmetric] validatePayloadCRC32_def)
      qed
    qed
  qed
qed

text \<open>On every stream \<open>Read\<close> returns; when it reports no error the length field fits.\<close>

lemma Read_returns:
  assumes "wf_message m"
  shows "returns (\<lambda>(m', c', e). wf_message m' \<and> (e = None \<longrightarrow> payload_fits m')) (Read m c)"
proof (cases "conn_closed c")
  case True
  with assms show ?thesis by (simp add: Read_closed)
next
  case False
  show ?thesis
    using Read_implements_decode_frame [OF assms False]
    by (auto simp: holds_frame_def split: sum.splits)
qed

section \<open>The wire format is a prefix code\<close>

lemma length_u32:
  assumes "n \<le> 0xF000"
  shows "unat (word_of_nat n :: u32) = n" "\<not> (word_of_nat n :: u32) > MaxPayloadSize"
  using assms by (simp_all add: MaxPayloadSize_def word_less_nat_alt)

lemma decode_encode_frame:
  assumes "length payload \<le> 0xF000"
  shows "decode_frame end_error (encode_frame command payload @ rest) =
     Inr (command, payload, rest)"
  by (simp add: encode_frame_def decode_frame_fields length_u32 [OF assms])

lemma encode_frame_inject:
  assumes "length p \<le> 0xF000" "length q \<le> 0xF000"
    and "encode_frame a p @ r = encode_frame b q @ s"
  shows "a = b \<and> p = q \<and> r = s"
proof -
  have "Inr (a, p, r) = decode_frame ErrEOF (encode_frame a p @ r)"
    by (simp only: decode_encode_frame [OF assms(1)])
  also have "\<dots> = Inr (b, q, s)"
    by (simp only: assms(3) decode_encode_frame [OF assms(2)])
  finally show ?thesis by simp
qed

text \<open>A frame in which one payload byte was changed on the way is refused.\<close>

lemma decode_corrupted:
  assumes "length (pre @ x # post) \<le> 0xF000" "x \<noteq> y"
  shows "decode_frame end_error
     (PutUint32 command @ PutUint32 (word_of_nat (length (pre @ x # post))) @
      PutUint32 (ChecksumIEEE (pre @ x # post)) @ (pre @ y # post) @ rest) =
     Inl (ErrInvalidCRC32 (ChecksumIEEE (pre @ x # post)) (ChecksumIEEE (pre @ y # post)))"
proof -
  define n where "n = length (pre @ x # post)"
  have n: "n \<le> 0xF000" "0 < n" "length ((pre @ y # post) @ rest) \<ge> n"
    "take n ((pre @ y # post) @ rest) = pre @ y # post"
    using assms(1) by (simp_all add: n_def)
  have pos: "(word_of_nat n :: u32) > 0"
    using n by (simp add: u32_gt_0_unat)
  have crc: "ChecksumIEEE (pre @ y # post) \<noteq> ChecksumIEEE (pre @ x # post)"
    using assms(2) by (simp add: ChecksumIEEE_single_byte)
  show ?thesis
    unfolding n_def [symmetric] decode_frame_fields length_u32 [OF n(1)] n(4)
    using pos crc n(3) length_u32(2) [OF n(1)] by simp
qed

end
