(* ===== verification/Payload.thy ===== *)
theory Payload
  imports Frame
begin

text \<open>
  \<open>shared/protocol/payload.definition.go\<close>: the primitive accessors \<open>writeInt\<close>,
  \<open>writeString\<close>, \<open>readInt\<close>, \<open>readString\<close> with their bounds checks on \<open>uint32\<close> offsets,
  \<open>updatePayloadMetadata\<close>, and the six typed payloads with their setters and getters.
  Offsets are 32-bit words, so an addition that would wrap in Go wraps here.
  Go's \<open>int\<close> is \<open>int\<close>; \<open>uint32(value)\<close> keeps its low 32 bits (\<open>word_of_int\<close>).
\<close>

section \<open>Primitive writers\<close>

definition write_payload :: "u32 \<Rightarrow> bytes \<Rightarrow> TransporterMessage \<Rightarrow> TransporterMessage" where
  "write_payload offset bs m = write_at (12 + unat offset) bs m"

definition writeInt ::
  "u32 \<Rightarrow> int \<Rightarrow> TransporterMessage \<Rightarrow> (TransporterMessage \<times> (error + u32)) outcome" where
  "writeInt offset value m =
     (let newOffset = offset + 4 in
      if word_of_nat (length (payloadBuffer m)) < newOffset
      then Ret (m, Inl (ErrNoSpace (length (payloadBuffer m)) newOffset))
      else andThen (go_slice (unat offset) (unat newOffset) (payloadBuffer m)) (\<lambda>target.
        Ret (write_payload offset (PutUint32 (word_of_int value)) m, Inr newOffset)))"

definition writeString ::
  "u32 \<Rightarrow> string \<Rightarrow> TransporterMessage \<Rightarrow> (TransporterMessage \<times> (error + u32)) outcome" where
  "writeString offset value m =
     (let valueBytes = bytes_of_string value;
          dataOffset = offset + 4;
          newOffset = dataOffset + word_of_nat (length valueBytes) in
      if word_of_nat (length (payloadBuffer m)) < newOffset
      then Ret (m, Inl (ErrNoSpace (length (payloadBuffer m)) newOffset))
      else andThen (go_slice (unat offset) (unat dataOffset) (payloadBuffer m)) (\<lambda>lengthTarget.
        let m1 = write_payload offset (PutUint32 (word_of_nat (length valueBytes))) m in
        andThen (go_slice (unat dataOffset) (unat newOffset) (payloadBuffer m1)) (\<lambda>target.
        Ret (write_payload dataOffset (take (length target) valueBytes) m1, Inr newOffset))))"

definition updatePayloadMetadata :: "u32 \<Rightarrow> TransporterMessage \<Rightarrow> TransporterMessage outcome" where
  "updatePayloadMetadata payloadLength m =
     andThen (go_slice 0 (unat payloadLength) (payloadBuffer m)) (\<lambda>targetBuffer.
     Ret (write_at 8 (PutUint32 (ChecksumIEEE targetBuffer))
            (write_at 4 (PutUint32 payloadLength) m)))"

section \<open>Primitive readers\<close>

definition readInt :: "u32 \<Rightarrow> TransporterMessage \<Rightarrow> (error + u32 \<times> int) outcome" where
  "readInt offset m =
     (let newOffset = offset + 4 in
      if PayloadLength m < newOffset then Ret (Inl (ErrNoData (PayloadLength m) newOffset))
      else andThen (go_slice (unat offset) (unat newOffset) (payloadBuffer m)) (\<lambda>source.
        Ret (Inr (newOffset, uint (Uint32 source)))))"

definition readString :: "u32 \<Rightarrow> TransporterMessage \<Rightarrow> (error + u32 \<times> string) outcome" where
  "readString offset m =
     (let dataOffset = offset + 4 in
      if PayloadLength m < dataOffset then Ret (Inl (ErrNoData (PayloadLength m) dataOffset))
      else andThen (go_slice (unat offset) (unat dataOffset) (payloadBuffer m)) (\<lambda>source.
        let len = Uint32 source; remaining = PayloadLength m - dataOffset in
        if len > remaining then Ret (Inl (ErrStringTooLong len remaining))
        else let newOffset = dataOffset + len in
          andThen (go_slice (unat dataOffset) (unat newOffset) (payloadBuffer m)) (\<lambda>value.
          Ret (Inr (newOffset, string_of_bytes value)))))"

section \<open>The shapes \<open>if err != nil { return err }\<close> takes here\<close>

definition writeThen ::
  "(TransporterMessage \<times> (error + u32)) outcome \<Rightarrow>
   (u32 \<Rightarrow> TransporterMessage \<Rightarrow> (TransporterMessage \<times> (error + u32)) outcome) \<Rightarrow>
   (TransporterMessage \<times> (error + u32)) outcome" where
  "writeThen r k = andThen r (\<lambda>(m, res).
     case res of Inl e \<Rightarrow> Ret (m, Inl e) | Inr offset \<Rightarrow> k offset m)"

definition sealThen ::
  "(TransporterMessage \<times> (error + u32)) outcome \<Rightarrow> (TransporterMessage \<times> error option) outcome" where
  "sealThen r = andThen r (\<lambda>(m, res).
     case res of Inl e \<Rightarrow> Ret (m, Some e)
     | Inr payloadLength \<Rightarrow>
         andThen (updatePayloadMetadata payloadLength m) (\<lambda>m'. Ret (m', None)))"

definition readThen ::
  "(error + u32 \<times> 'a) outcome \<Rightarrow> (u32 \<Rightarrow> 'a \<Rightarrow> (error + 'b) outcome) \<Rightarrow> (error + 'b) outcome" where
  "readThen r k = andThen r (\<lambda>res.
     case res of Inl e \<Rightarrow> Ret (Inl e) | Inr (offset, v) \<Rightarrow> k offset v)"

section \<open>Error payload\<close>

record TransporterMessagePayloadError =
  ErrorCode :: int
  ErrorMessage :: string

definition GetErrorPayload ::
  "TransporterMessage \<Rightarrow> (error + TransporterMessagePayloadError) outcome" where
  "GetErrorPayload m =
     readThen (readInt 0 m) (\<lambda>offset errorCode.
     readThen (readString offset m) (\<lambda>_ errorMessage.
     Ret (Inr \<lparr>ErrorCode = errorCode, ErrorMessage = errorMessage\<rparr>)))"

definition SetErrorPayload ::
  "TransporterMessagePayloadError \<Rightarrow> TransporterMessage \<Rightarrow> (TransporterMessage \<times> error option) outcome" where
  "SetErrorPayload data m =
     sealThen (writeThen (writeInt 0 (ErrorCode data) m) (\<lambda>offset m.
       writeString offset (ErrorMessage data) m))"

section \<open>Connect payload and response\<close>

record TransporterMessagePayloadConnect =
  ClientProtocolVersion :: u32

definition GetPayloadConnect ::
  "TransporterMessage \<Rightarrow> (error + TransporterMessagePayloadConnect) outcome" where
  "GetPayloadConnect m =
     readThen (readInt 0 m) (\<lambda>_ protocolVersion.
     Ret (Inr \<lparr>ClientProtocolVersion = word_of_int protocolVersion\<rparr>))"

definition SetPayloadConnect ::
  "TransporterMessagePayloadConnect \<Rightarrow> TransporterMessage \<Rightarrow> (TransporterMessage \<times> error option) outcome" where
  "SetPayloadConnect data m =
     sealThen (writeInt 0 (uint (ClientProtocolVersion data)) m)"

record TransporterMessagePayloadConnectResponse =
  ClientId :: string

definition GetPayloadConnectResponse ::
  "TransporterMessage \<Rightarrow> (error + TransporterMessagePayloadConnectResponse) outcome" where
  "GetPayloadConnectResponse m =
     readThen (readString 0 m) (\<lambda>_ clientId. Ret (Inr \<lparr>ClientId = clientId\<rparr>))"

definition SetPayloadConnectResponse ::
  "TransporterMessagePayloadConnectResponse \<Rightarrow> TransporterMessage \<Rightarrow>
   (TransporterMessage \<times> error option) outcome" where
  "SetPayloadConnectResponse data m = sealThen (writeString 0 (ClientId data) m)"

section \<open>Create room response\<close>

record TransporterMessagePayloadCreateRoomResponse =
  CreatedRoomId :: string

definition GetPayloadCreateRoomResponse ::
  "TransporterMessage \<Rightarrow> (error + TransporterMessagePayloadCreateRoomResponse) outcome" where
  "GetPayloadCreateRoomResponse m =
     readThen (readString 0 m) (\<lambda>_ roomId. Ret (Inr \<lparr>CreatedRoomId = roomId\<rparr>))"

definition SetPayloadCreateRoomResponse ::
  "TransporterMessagePayloadCreateRoomResponse \<Rightarrow> TransporterMessage \<Rightarrow>
   (TransporterMessage \<times> error option) outcome" where
  "SetPayloadCreateRoomResponse data m = sealThen (writeString 0 (CreatedRoomId data) m)"

section \<open>Join room request and its answer\<close>

record TransporterMessagePayloadConnectRoom =
  RoomId :: string
  JoinClientId :: string
  JoinPublicKey :: bytes

definition GetPayloadConnectRoom ::
  "TransporterMessage \<Rightarrow> (error + TransporterMessagePayloadConnectRoom) outcome" where
  "GetPayloadConnectRoom m =
     readThen (readString 0 m) (\<lambda>offset roomId.
     readThen (readString offset m) (\<lambda>offset clientId.
     readThen (readString offset m) (\<lambda>_ publicKey.
     Ret (Inr \<lparr>RoomId = roomId, JoinClientId = clientId,
               JoinPublicKey = bytes_of_string publicKey\<rparr>))))"

definition SetPayloadConnectRoom ::
  "TransporterMessagePayloadConnectRoom \<Rightarrow> TransporterMessage \<Rightarrow>
   (TransporterMessage \<times> error option) outcome" where
  "SetPayloadConnectRoom data m =
     sealThen (writeThen (writeString 0 (RoomId data) m) (\<lambda>offset m.
       writeThen (writeString offset (JoinClientId data) m) (\<lambda>offset m.
       writeString offset (string_of_bytes (JoinPublicKey data)) m)))"

record TransporterMessagePayloadConnectRoomResult =
  Accepted :: int
  OwnerClientId :: string
  OwnerPublicKey :: bytes

definition GetPayloadConnectRoomResponse ::
  "TransporterMessage \<Rightarrow> (error + TransporterMessagePayloadConnectRoomResult) outcome" where
  "GetPayloadConnectRoomResponse m =
     readThen (readInt 0 m) (\<lambda>offset accepted.
     readThen (readString offset m) (\<lambda>offset clientId.
     readThen (readString offset m) (\<lambda>_ publicKey.
     Ret (Inr \<lparr>Accepted = accepted, OwnerClientId = clientId,
               OwnerPublicKey = bytes_of_string publicKey\<rparr>))))"

definition SetPayloadConnectRoomResult ::
  "TransporterMessagePayloadConnectRoomResult \<Rightarrow> TransporterMessage \<Rightarrow>
   (TransporterMessage \<times> error option) outcome" where
  "SetPayloadConnectRoomResult data m =
     sealThen (writeThen (writeInt 0 (Accepted data) m) (\<lambda>offset m.
       writeThen (writeString offset (OwnerClientId data) m) (\<lambda>offset m.
       writeString offset (string_of_bytes (OwnerPublicKey data)) m)))"

section \<open>Raw payload\<close>

definition SetRawPayload ::
  "bytes \<Rightarrow> TransporterMessage \<Rightarrow> (TransporterMessage \<times> error option) outcome" where
  "SetRawPayload data m =
     (if (word_of_nat (length data) :: u32) > word_of_nat (length (payloadBuffer m))
      then Ret (m, Some (ErrNoSpaceRaw (length (payloadBuffer m)) (length data)))
      else andThen
        (updatePayloadMetadata (word_of_nat (length data))
          (write_payload 0 (take (length (payloadBuffer m)) data) m))
        (\<lambda>m'. Ret (m', None)))"

end
