(* ===== verification/Payload_Codec.thy ===== *)
theory Payload_Codec
  imports Payload
begin

text \<open>
  Correctness of the typed payloads.  A payload is a sequence of fields (32-bit integers
  and length-prefixed strings); \<open>enc_fields\<close> is its layout and \<open>parse_fields\<close> its parser on
  plain byte lists.  Every setter is shown to store \<open>enc_fields\<close> of its data, every getter to
  be \<open>parse_fields\<close> of the bytes the length field delimits (so it sees nothing beyond them).
  \<open>Typed_Payloads\<close> turns this into the contract the rest of the program relies on.
\<close>

section \<open>Fields and their layout\<close>

datatype field = FInt int | FStr string
datatype kind = KInt | KStr

fun kind_of :: "field \<Rightarrow> kind" where
  "kind_of (FInt _) = KInt"
| "kind_of (FStr _) = KStr"

fun enc_field :: "field \<Rightarrow> bytes" where
  "enc_field (FInt v) = PutUint32 (word_of_int v)"
| "enc_field (FStr s) = PutUint32 (word_of_nat (length s)) @ bytes_of_string s"

definition enc_fields :: "field list \<Rightarrow> bytes" where
  "enc_fields fs = concat (map enc_field fs)"

lemma enc_fields_simps [simp]:
  "enc_fields [] = []"
  "enc_fields (f # fs) = enc_field f @ enc_fields fs"
  by (simp_all add: enc_fields_def)

text \<open>An integer field holds its value, and a string's length fits its prefix.\<close>

fun exact_field :: "field \<Rightarrow> bool" where
  "exact_field (FInt v) \<longleftrightarrow> 0 \<le> v \<and> v < 2 ^ 32"
| "exact_field (FStr s) \<longleftrightarrow> True"

fun write_fields ::
  "field list \<Rightarrow> u32 \<Rightarrow> TransporterMessage \<Rightarrow> (TransporterMessage \<times> (error + u32)) outcome" where
  "write_fields [] offset m = Ret (m, Inr offset)"
| "write_fields (FInt v # fs) offset m = writeThen (writeInt offset v m) (write_fields fs)"
| "write_fields (FStr s # fs) offset m = writeThen (writeString offset s m) (write_fields fs)"

lemma writeThen_Ret [simp]: "writeThen r (\<lambda>offset m. Ret (m, Inr offset)) = r"
  by (cases r) (auto simp: writeThen_def split: sum.splits)

lemma writeThen_simps [simp]:
  "writeThen (Ret (m, Inl e)) k = Ret (m, Inl e)"
  "writeThen (Ret (m, Inr offset)) k = k offset m"
  by (simp_all add: writeThen_def)

section \<open>Writing\<close>

text \<open>The payload buffer starts with \<open>bs\<close>.\<close>

definition prefix :: "TransporterMessage \<Rightarrow> bytes \<Rightarrow> bool" where
  "prefix m bs \<longleftrightarrow> wf_message m \<and> length bs \<le> 0xF000 \<and> take (length bs) (payloadBuffer m) = bs"

lemma prefix_Nil [simp]: "prefix m [] = wf_message m"
  by (simp add: prefix_def)

lemma prefix_write_payload:
  assumes "prefix m bs" "unat offset = length bs" "length bs + length ys \<le> 0xF000"
  shows "prefix (write_payload offset ys m) (bs @ ys)"
  using assms
  by (simp add: prefix_def write_payload_def payloadBuffer_write_at_payload take_put_at_extend)

lemma headerBuffer_write_payload:
  assumes "wf_message m" "unat offset + length ys \<le> 0xF000"
  shows "headerBuffer (write_payload offset ys m) = headerBuffer m"
  using assms
  by (simp add: headerBuffer_def write_payload_def write_at_def wf_message_def slice_put_at_before)

lemma wf_write_payload:
  "wf_message m \<Longrightarrow> unat offset + length ys \<le> 0xF000 \<Longrightarrow> wf_message (write_payload offset ys m)"
  by (simp add: write_payload_def)

lemma writeInt_ok:
  assumes "wf_message m" "unat offset + 4 \<le> 0xF000"
  shows "writeInt offset v m = Ret (write_payload offset (enc_field (FInt v)) m, Inr (offset + 4))"
proof -
  have "unat (offset + 4) = unat offset + 4"
    using assms(2) by (simp add: unat_add_no_wrap)
  then show ?thesis
    using assms by (simp add: writeInt_def Let_def word_less_nat_alt)
qed

lemma writeInt_no_space:
  assumes "wf_message m" "unat offset \<le> 0xF000" "unat offset + 4 > 0xF000"
  shows "writeInt offset v m = Ret (m, Inl (ErrNoSpace 0xF000 (offset + 4)))"
proof -
  have "unat (offset + 4) = unat offset + 4"
    using assms(2) by (simp add: unat_add_no_wrap)
  then show ?thesis
    using assms by (simp add: writeInt_def Let_def word_less_nat_alt)
qed

lemma string_offsets:
  assumes "unat (offset :: u32) \<le> 0xF000" "n < 0xFFFF0000"
  shows "unat (offset + 4) = unat offset + 4"
    "unat (offset + 4 + word_of_nat n) = unat offset + 4 + n"
proof -
  show 4: "unat (offset + 4) = unat offset + 4"
    using assms by (simp add: unat_add_no_wrap)
  show "unat (offset + 4 + word_of_nat n) = unat offset + 4 + n"
    using assms 4 unat_add_no_wrap [of "offset + 4" "word_of_nat n"] by simp
qed

lemma write_payload_twice:
  assumes "wf_message m" "unat offset + 4 + length ys \<le> 0xF000" "length xs = 4"
  shows "write_payload (offset + 4) ys (write_payload offset xs m) = write_payload offset (xs @ ys) m"
proof -
  have "unat (offset + 4) = unat offset + 4"
    using assms(2) by (intro string_offsets(1) [of _ 0]) simp_all
  with assms show ?thesis
    by (simp add: write_payload_def write_at_def wf_message_def put_at_def ac_simps)
qed

lemma writeString_ok:
  assumes "wf_message m" "unat offset + 4 + length s \<le> 0xF000"
  shows "writeString offset s m =
     Ret (write_payload offset (enc_field (FStr s)) m, Inr (offset + 4 + word_of_nat (length s)))"
proof -
  note offs = string_offsets [of offset "length s"]
  have "unat (offset + 4) = unat offset + 4"
    "unat (offset + 4 + word_of_nat (length s)) = unat offset + 4 + length s"
    using assms(2) by (simp_all add: offs)
  moreover have "wf_message (write_payload offset (PutUint32 (word_of_nat (length s))) m)"
    using assms by (simp add: wf_write_payload)
  ultimately show ?thesis
    using assms
    by (simp add: writeString_def Let_def word_less_nat_alt write_payload_twice)
qed

lemma writeString_no_space:
  assumes "wf_message m" "unat offset \<le> 0xF000" "unat offset + 4 + length s > 0xF000"
    and "length s < 0xFFFF0000"
  shows "writeString offset s m =
     Ret (m, Inl (ErrNoSpace 0xF000 (offset + 4 + word_of_nat (length s))))"
proof -
  note offs = string_offsets [of offset "length s"]
  have "unat (offset + 4 + word_of_nat (length s)) = unat offset + 4 + length s"
    using assms by (simp add: offs)
  then show ?thesis
    using assms by (simp add: writeString_def Let_def word_less_nat_alt)
qed

text \<open>
  The setters end in \<open>updatePayloadMetadata\<close>, which seals the payload: length and checksum
  describe what was written.
\<close>

lemma updatePayloadMetadata_ok:
  assumes "prefix m bs" "unat n = length bs"
  shows "\<exists>m'. updatePayloadMetadata n m = Ret m' \<and> holds_frame m' (Command m) bs \<and> sealed m'"
proof -
  let ?m1 = "write_at 4 (PutUint32 n) m"
  let ?m2 = "write_at 8 (PutUint32 (ChecksumIEEE bs)) ?m1"
  have wf: "wf_message m" "wf_message ?m1" "wf_message ?m2"
    using assms by (simp_all add: prefix_def)
  have tk: "take (unat n) (payloadBuffer m) = bs" using assms by (simp add: prefix_def)
  have upd: "updatePayloadMetadata n m = Ret ?m2"
    using assms wf tk by (simp add: updatePayloadMetadata_def prefix_def slice_0)
  have pb: "payload_bytes ?m2 = bs" using wf tk by (simp add: payload_bytes_def)
  have len: "unat n \<le> 0xF000" using assms by (simp add: prefix_def)
  have "holds_frame ?m2 (Command m) bs \<and> sealed ?m2"
    using wf pb len by (simp add: holds_frame_def sealed_def payload_fits_nat)
  with upd show ?thesis by blast
qed

lemma length_enc_field [simp]:
  "length (enc_field (FInt v)) = 4"
  "length (enc_field (FStr s)) = 4 + length s"
  by simp_all

declare enc_field.simps [simp del]

lemma Command_header: "headerBuffer m' = headerBuffer m \<Longrightarrow> wf_message m \<Longrightarrow> wf_message m' \<Longrightarrow>
   Command m' = Command m \<and> PayloadLength m' = PayloadLength m \<and> PayloadCRC32 m' = PayloadCRC32 m"
  by (simp add: header_fields le32.put_inject)

lemma write_fields_ok:
  assumes "prefix m bs" "unat offset = length bs" "length bs + length (enc_fields fs) \<le> 0xF000"
  shows "\<exists>m' n. write_fields fs offset m = Ret (m', Inr n) \<and> prefix m' (bs @ enc_fields fs) \<and>
     unat n = length bs + length (enc_fields fs) \<and> headerBuffer m' = headerBuffer m"
  using assms
proof (induction fs arbitrary: m bs offset)
  case Nil
  then show ?case by simp
next
  case (Cons f fs)
  let ?m1 = "write_payload offset (enc_field f) m"
  have wf: "wf_message m" using Cons.prems(1) by (simp add: prefix_def)
  have fits: "length bs + length (enc_field f) \<le> 0xF000" using Cons.prems(3) by simp
  have m1: "prefix ?m1 (bs @ enc_field f)" "headerBuffer ?m1 = headerBuffer m"
    using Cons.prems wf by (simp_all add: prefix_write_payload headerBuffer_write_payload)
  obtain n where n: "write_fields (f # fs) offset m = write_fields fs n ?m1"
    "unat n = length (bs @ enc_field f)"
  proof (cases f)
    case (FInt v)
    with fits Cons.prems(2) wf show thesis
      by (intro that [of "offset + 4"]) (simp_all add: writeInt_ok unat_add_no_wrap)
  next
    case (FStr s)
    with fits Cons.prems(2) wf show thesis
      by (intro that [of "offset + 4 + word_of_nat (length s)"])
        (simp_all add: writeString_ok string_offsets)
  qed
  have "length (bs @ enc_field f) + length (enc_fields fs) \<le> 0xF000"
    using Cons.prems(3) by simp
  from Cons.IH [OF m1(1) n(2) this] m1(2) show ?case
    by (simp add: n(1) add.assoc)
qed

text \<open>When the fields do not fit, the setter reports it and leaves header and payload length alone.\<close>

fun short_field :: "field \<Rightarrow> bool" where
  "short_field (FInt _) = True"
| "short_field (FStr s) = (length s < 0xFFFF0000)"

lemma write_fields_too_long:
  assumes "wf_message m" "unat offset \<le> 0xF000" "unat offset + length (enc_fields fs) > 0xF000"
    and "list_all short_field fs"
  shows "\<exists>m' n. write_fields fs offset m = Ret (m', Inl (ErrNoSpace 0xF000 n)) \<and> wf_message m' \<and>
     headerBuffer m' = headerBuffer m"
  using assms
proof (induction fs arbitrary: m offset)
  case Nil
  then show ?case by simp
next
  case (Cons f fs)
  let ?m1 = "write_payload offset (enc_field f) m"
  show ?case
  proof (cases "unat offset + length (enc_field f) \<le> 0xF000")
    case True
    have m1: "wf_message ?m1" "headerBuffer ?m1 = headerBuffer m"
      using Cons.prems(1) True by (simp_all add: wf_write_payload headerBuffer_write_payload)
    obtain n where n: "write_fields (f # fs) offset m = write_fields fs n ?m1"
      "unat n = unat offset + length (enc_field f)"
    proof (cases f)
      case (FInt v)
      with True Cons.prems(1) show thesis
        by (intro that [of "offset + 4"]) (simp_all add: writeInt_ok unat_add_no_wrap)
    next
      case (FStr s)
      with True Cons.prems(1) show thesis
        by (intro that [of "offset + 4 + word_of_nat (length s)"])
          (simp_all add: writeString_ok string_offsets)
    qed
    have "unat n + length (enc_fields fs) > 0xF000" using Cons.prems(3) n(2) by simp
    from Cons.IH [OF m1(1) _ this] True n Cons.prems(4) m1(2) show ?thesis by simp
  next
    case False
    then show ?thesis
      using Cons.prems
      by (cases f) (simp_all add: writeInt_no_space writeString_no_space)
  qed
qed

definition set_fields :: "field list \<Rightarrow> TransporterMessage \<Rightarrow> (TransporterMessage \<times> error option) outcome" where
  "set_fields fs m = sealThen (write_fields fs 0 m)"

lemma set_fields_ok:
  assumes "wf_message m" "length (enc_fields fs) \<le> 0xF000"
  shows "\<exists>m'. set_fields fs m = Ret (m', None) \<and> holds_frame m' (Command m) (enc_fields fs) \<and> sealed m'"
proof -
  from write_fields_ok [of m "[]" 0 fs] assms
  obtain m1 n where m1: "write_fields fs 0 m = Ret (m1, Inr n)" "prefix m1 (enc_fields fs)"
    "unat n = length (enc_fields fs)" "headerBuffer m1 = headerBuffer m"
    by auto
  have "Command m1 = Command m"
    using Command_header [OF m1(4) assms(1)] m1(2) by (simp add: prefix_def)
  with updatePayloadMetadata_ok [OF m1(2,3)] m1(1) show ?thesis
    by (auto simp: set_fields_def sealThen_def)
qed

lemma set_fields_too_long:
  assumes "wf_message m" "length (enc_fields fs) > 0xF000" "list_all short_field fs"
  shows "\<exists>m' n. set_fields fs m = Ret (m', Some (ErrNoSpace 0xF000 n)) \<and> wf_message m' \<and>
     headerBuffer m' = headerBuffer m"
  using write_fields_too_long [of m 0 fs] assms by (auto simp: set_fields_def sealThen_def)

section \<open>Reading\<close>

text \<open>The parser on plain bytes, with the errors of \<open>readInt\<close> and \<open>readString\<close>.\<close>

fun parse_fields :: "kind list \<Rightarrow> nat \<Rightarrow> bytes \<Rightarrow> error + field list" where
  "parse_fields [] i bs = Inr []"
| "parse_fields (KInt # ks) i bs =
     (if length bs < i + 4
      then Inl (ErrNoData (word_of_nat (length bs)) (word_of_nat (i + 4)))
      else map_sum id ((#) (FInt (uint (Uint32 (slice i (i + 4) bs)))))
             (parse_fields ks (i + 4) bs))"
| "parse_fields (KStr # ks) i bs =
     (if length bs < i + 4
      then Inl (ErrNoData (word_of_nat (length bs)) (word_of_nat (i + 4)))
      else let n = Uint32 (slice i (i + 4) bs); remaining = word_of_nat (length bs - (i + 4)) in
      if n > remaining then Inl (ErrStringTooLong n remaining)
      else map_sum id ((#) (FStr (string_of_bytes (slice (i + 4) (i + 4 + unat n) bs))))
             (parse_fields ks (i + 4 + unat n) bs))"

fun read_fields :: "kind list \<Rightarrow> u32 \<Rightarrow> TransporterMessage \<Rightarrow> (error + field list) outcome" where
  "read_fields [] offset m = Ret (Inr [])"
| "read_fields (KInt # ks) offset m =
     readThen (readInt offset m) (\<lambda>offset v.
     andThen (read_fields ks offset m) (\<lambda>res. Ret (map_sum id ((#) (FInt v)) res)))"
| "read_fields (KStr # ks) offset m =
     readThen (readString offset m) (\<lambda>offset s.
     andThen (read_fields ks offset m) (\<lambda>res. Ret (map_sum id ((#) (FStr s)) res)))"

lemma readThen_simps [simp]:
  "readThen (Ret (Inl e)) k = Ret (Inl e)"
  "readThen (Ret (Inr (offset, v))) k = k offset v"
  by (simp_all add: readThen_def)

lemma slice_payload_bytes:
  "j \<le> unat (PayloadLength m) \<Longrightarrow> slice i j (payload_bytes m) = slice i j (payloadBuffer m)"
  by (auto simp: slice_def payload_bytes_def drop_take min_def)

lemma readInt_short:
  assumes "wf_message m" "payload_fits m" "unat offset \<le> 0xF000"
    and "unat (PayloadLength m) < unat offset + 4"
  shows "readInt offset m = Ret (Inl (ErrNoData (PayloadLength m) (offset + 4)))"
  using assms string_offsets(1) [of offset 0]
  by (simp add: readInt_def word_less_nat_alt)

lemma readInt_in:
  assumes "wf_message m" "payload_fits m" "unat offset + 4 \<le> unat (PayloadLength m)"
  shows "readInt offset m =
     Ret (Inr (offset + 4, uint (Uint32 (slice (unat offset) (unat offset + 4) (payload_bytes m)))))"
  using assms string_offsets(1) [of offset 0]
  by (simp add: readInt_def Let_def word_less_nat_alt payload_fits_nat slice_payload_bytes)

lemma readString_short:
  assumes "wf_message m" "payload_fits m" "unat offset \<le> 0xF000"
    and "unat (PayloadLength m) < unat offset + 4"
  shows "readString offset m = Ret (Inl (ErrNoData (PayloadLength m) (offset + 4)))"
  using assms string_offsets(1) [of offset 0]
  by (simp add: readString_def word_less_nat_alt)

lemma readString_in:
  assumes "wf_message m" "payload_fits m" "unat offset + 4 \<le> unat (PayloadLength m)"
  shows "readString offset m =
     (let n = Uint32 (slice (unat offset) (unat offset + 4) (payload_bytes m));
          remaining = PayloadLength m - (offset + 4) in
      if n > remaining then Ret (Inl (ErrStringTooLong n remaining))
      else Ret (Inr (offset + 4 + n,
        string_of_bytes (slice (unat offset + 4) (unat offset + 4 + unat n) (payload_bytes m)))))"
proof -
  define n where "n = Uint32 (slice (unat offset) (unat offset + 4) (payload_bytes m))"
  have len: "unat (PayloadLength m) \<le> 0xF000" using assms(2) by (simp add: payload_fits_nat)
  have 4: "unat (offset + 4) = unat offset + 4"
    using assms(3) len string_offsets(1) [of offset 0] by simp
  have src: "Uint32 (slice (unat offset) (unat offset + 4) (payloadBuffer m)) = n"
    using assms(3) by (simp add: n_def slice_payload_bytes)
  have rem: "unat (PayloadLength m - (offset + 4)) = unat (PayloadLength m) - (unat offset + 4)"
    using assms(3) 4 by (simp add: unat_u32_diff word_le_nat_alt)
  show ?thesis
  proof (cases "n > PayloadLength m - (offset + 4)")
    case True
    then show ?thesis
      using assms 4 len src
      by (simp add: readString_def Let_def word_less_nat_alt n_def [symmetric])
  next
    case False
    then have n: "unat offset + 4 + unat n \<le> unat (PayloadLength m)"
      using rem assms(3) by (simp add: word_less_nat_alt)
    then have "unat (offset + 4 + n) = unat offset + 4 + unat n"
      using len 4 by (simp add: unat_add_no_wrap)
    with False n show ?thesis
      using assms 4 len src
      by (simp add: readString_def Let_def word_less_nat_alt n_def [symmetric]
          slice_payload_bytes)
  qed
qed

text \<open>
  The readers are the parser, on the bytes the length field delimits: they do not panic
  and nothing beyond \<open>PayloadLength\<close> reaches their result.
\<close>

lemma read_fields_parse:
  assumes "wf_message m" "payload_fits m" "unat offset \<le> unat (PayloadLength m)"
  shows "read_fields ks offset m = Ret (parse_fields ks (unat offset) (payload_bytes m))"
  using assms(3)
proof (induction ks arbitrary: offset)
  case Nil
  then show ?case by simp
next
  case (Cons k ks)
  define len where "len = unat (PayloadLength m)"
  have len: "len \<le> 0xF000" "length (payload_bytes m) = len" "unat offset \<le> len"
    using assms(1,2) Cons.prems by (simp_all add: payload_fits_nat len_def)
  have off: "unat (offset + 4) = unat offset + 4"
    using len by (simp add: string_offsets(1) [of offset 0])
  have words: "(word_of_nat len :: u32) = PayloadLength m"
    "(word_of_nat (unat offset + 4) :: u32) = offset + 4"
    by (simp_all add: len_def flip: off)
  show ?case
  proof (cases "len < unat offset + 4")
    case True
    then show ?thesis
      using len assms(1,2) words
      by (cases k) (simp_all add: readInt_short readString_short len_def)
  next
    case False
    then have in4: "unat offset + 4 \<le> unat (PayloadLength m)" by (simp add: len_def)
    show ?thesis
    proof (cases k)
      case KInt
      with Cons.IH [of "offset + 4"] in4 off len show ?thesis
        by (simp add: readInt_in [OF assms(1,2) in4] len_def)
    next
      case KStr
      define n where "n = Uint32 (slice (unat offset) (unat offset + 4) (payload_bytes m))"
      have le4: "offset + 4 \<le> PayloadLength m" using in4 off by (simp add: word_le_nat_alt)
      have rem: "word_of_nat (len - (unat offset + 4)) = PayloadLength m - (offset + 4)"
        by (simp only: len_def off [symmetric] unat_u32_diff [OF le4, symmetric] u32_of_nat_unat)
      show ?thesis
      proof (cases "n > PayloadLength m - (offset + 4)")
        case True
        with KStr len in4 rem show ?thesis
          by (simp add: readString_in [OF assms(1,2) in4] n_def [symmetric] Let_def len_def)
      next
        case False
        then have "unat n \<le> len - (unat offset + 4)"
          using unat_u32_diff [OF le4] off by (simp add: word_less_nat_alt len_def)
        then have n: "unat offset + 4 + unat n \<le> len" using False in4 by (simp add: len_def)
        then have "unat (offset + 4 + n) = unat offset + 4 + unat n"
          using len off by (simp add: unat_add_no_wrap)
        with Cons.IH [of "offset + 4 + n"] n KStr False len in4 rem show ?thesis
          by (simp add: readString_in [OF assms(1,2) in4] n_def [symmetric] Let_def len_def)
      qed
    qed
  qed
qed

lemma not_less_u32: "a \<le> b \<Longrightarrow> b \<le> 0xF000 \<Longrightarrow> \<not> (word_of_nat b :: u32) < word_of_nat a"
  by (simp add: word_less_nat_alt)

lemma parse_enc_fields:
  assumes "length (pre @ enc_fields fs @ post) \<le> 0xF000" "list_all exact_field fs"
  shows "parse_fields (map kind_of fs) (length pre) (pre @ enc_fields fs @ post) = Inr fs"
  using assms
proof (induction fs arbitrary: pre)
  case Nil
  then show ?case by simp
next
  case (Cons f fs)
  let ?bs = "pre @ enc_fields (f # fs) @ post"
  have IH: "parse_fields (map kind_of fs) (length (pre @ enc_field f)) ?bs = Inr fs"
    using Cons.IH [of "pre @ enc_field f"] Cons.prems by simp
  show ?case
  proof (cases f)
    case (FInt v)
    have "slice (length pre) (length pre + 4) ?bs = PutUint32 (word_of_int v)"
      using FInt by (simp add: slice_def enc_field.simps)
    moreover have "uint (word_of_int v :: u32) = v"
      using Cons.prems(2) FInt by (simp add: uint_word_of_int)
    ultimately show ?thesis
      using IH FInt by simp
  next
    case (FStr s)
    have len: "length s \<le> 0xF000" using Cons.prems(1) FStr by simp
    have "slice (length pre) (length pre + 4) ?bs = PutUint32 (word_of_nat (length s))"
      using FStr by (simp add: slice_def enc_field.simps)
    moreover have "slice (length pre + 4) (length pre + 4 + length s) ?bs = bytes_of_string s"
      using FStr by (simp add: slice_def enc_field.simps)
    moreover have "\<not> word_of_nat (length s) > (word_of_nat (length ?bs - (length pre + 4)) :: u32)"
      using Cons.prems(1) FStr by (intro not_less_u32) simp_all
    ultimately show ?thesis
      using IH FStr len by (simp add: Let_def add.assoc)
  qed
qed

end
