(* ===== verification/Typed_Payloads.thy ===== *)
theory Typed_Payloads
  imports Payload_Codec
begin

text \<open>
  The contract of a typed payload (locale \<open>payload_codec\<close>), its derivation for every payload
  that is a sequence of fields (locale \<open>field_codec\<close>, a \<open>sublocale\<close> of the former), and the
  interpretations: one per payload of \<open>payload.definition.go\<close>.  The properties at the end of
  the theory state what the interpretations give for the program's messages.
\<close>

section \<open>The contract\<close>

text \<open>
  \<open>layout\<close> is the payload's byte layout, \<open>exact d\<close> says that the wire format can represent
  \<open>d\<close> (an integer field is 32 bits wide), \<open>short d\<close> that its strings are below 4 GiB.
\<close>

locale payload_codec =
  fixes set_payload :: "'d \<Rightarrow> TransporterMessage \<Rightarrow> (TransporterMessage \<times> error option) outcome"
    and get_payload :: "TransporterMessage \<Rightarrow> (error + 'd) outcome"
    and layout :: "'d \<Rightarrow> bytes"
    and exact :: "'d \<Rightarrow> bool"
    and short :: "'d \<Rightarrow> bool"
  assumes set_fits: "wf_message m \<Longrightarrow> length (layout d) \<le> 0xF000 \<Longrightarrow>
      \<exists>m'. set_payload d m = Ret (m', None) \<and> holds_frame m' (Command m) (layout d) \<and> sealed m'"
    and set_too_long: "wf_message m \<Longrightarrow> length (layout d) > 0xF000 \<Longrightarrow> short d \<Longrightarrow>
      \<exists>m' n. set_payload d m = Ret (m', Some (ErrNoSpace 0xF000 n)) \<and> wf_message m' \<and>
        headerBuffer m' = headerBuffer m"
    and get_layout: "wf_message m \<Longrightarrow> payload_fits m \<Longrightarrow> payload_bytes m = layout d @ junk \<Longrightarrow>
      exact d \<Longrightarrow> get_payload m = Ret (Inr d)"
    and get_total: "wf_message m \<Longrightarrow> payload_fits m \<Longrightarrow> \<exists>r. get_payload m = Ret r"
    and get_local: "wf_message m \<Longrightarrow> payload_fits m \<Longrightarrow> wf_message m' \<Longrightarrow> payload_fits m' \<Longrightarrow>
      payload_bytes m = payload_bytes m' \<Longrightarrow> get_payload m = get_payload m'"
begin

lemma set_get:
  assumes "wf_message m" "length (layout d) \<le> 0xF000" "exact d"
  obtains m' where "set_payload d m = Ret (m', None)" "holds_frame m' (Command m) (layout d)"
    "get_payload m' = Ret (Inr d)"
proof -
  from set_fits [OF assms(1,2)] obtain m' where m': "set_payload d m = Ret (m', None)"
    "holds_frame m' (Command m) (layout d)" by blast
  then have "get_payload m' = Ret (Inr d)"
    using assms(3) by (intro get_layout [of _ _ "[]"]) (simp_all add: holds_frame_def)
  with m' show thesis by (rule that)
qed

text \<open>Two different values never share a frame.\<close>

lemma layout_inject:
  assumes "exact d" "exact e" "length (layout d) \<le> 0xF000"
    and "layout d = layout e"
  shows "d = e"
proof -
  obtain m where "holds_frame m 0 (layout d)"
    using set_fits [of "SetDirectCommand 0 CreateTransporterMessage" d] assms(3) by auto
  then have m: "wf_message m" "payload_fits m" "payload_bytes m = layout d"
    by (simp_all add: holds_frame_def)
  have "get_payload m = Ret (Inr d)" using m assms(1) by (intro get_layout [of _ _ "[]"]) simp_all
  moreover have "get_payload m = Ret (Inr e)"
    using m assms(2,4) by (intro get_layout [of _ _ "[]"]) simp_all
  ultimately show ?thesis by simp
qed

text \<open>What one side sets and writes, the other side reads and gets, whatever its buffer held.\<close>

lemma over_the_wire:
  assumes "wf_message m" "length (layout d) \<le> 0xF000" "exact d" "writable c"
  shows "\<exists>m'. set_payload d m = Ret (m', None) \<and>
     Write m' c = Ret (c\<lparr>outbound := outbound c @ encode_frame (Command m) (layout d)\<rparr>, None) \<and>
     (\<forall>r p rest. wf_message r \<longrightarrow> \<not> conn_closed p \<longrightarrow>
        inbound p = encode_frame (Command m) (layout d) @ rest \<longrightarrow>
        (\<exists>r'. Read r p = Ret (r', p\<lparr>inbound := rest\<rparr>, None) \<and> Command r' = Command m \<and>
           get_payload r' = Ret (Inr d)))"
proof -
  from set_fits [OF assms(1,2)] obtain m' where m': "set_payload d m = Ret (m', None)"
    "holds_frame m' (Command m) (layout d)" "sealed m'" by blast
  then have wf: "wf_message m'" "payload_fits m'" "Command m' = Command m"
    "payload_bytes m' = layout d"
    by (simp_all add: holds_frame_def)
  have "wire_bytes m' = encode_frame (Command m) (layout d)"
    using wire_bytes_encode [OF wf(1,2) m'(3)] wf by simp
  with Write_writable [OF wf(1,2) assms(4)]
  have sent: "Write m' c = Ret (c\<lparr>outbound := outbound c @ encode_frame (Command m) (layout d)\<rparr>, None)"
    by simp
  have "\<exists>r'. Read r p = Ret (r', p\<lparr>inbound := rest\<rparr>, None) \<and> Command r' = Command m \<and>
           get_payload r' = Ret (Inr d)"
    if r: "wf_message r" "\<not> conn_closed p" and i: "inbound p = encode_frame (Command m) (layout d) @ rest"
    for r p rest
  proof -
    have "decode_frame (in_end p) (inbound p) = Inr (Command m, layout d, rest)"
      unfolding i by (rule decode_encode_frame [OF assms(2)])
    with Read_implements_decode_frame [OF r] obtain r' where
      "Read r p = Ret (r', p\<lparr>inbound := rest\<rparr>, None)" "holds_frame r' (Command m) (layout d)"
      by auto
    moreover from this have "get_payload r' = Ret (Inr d)"
      using assms(3) by (intro get_layout [of _ _ "[]"]) (simp_all add: holds_frame_def)
    ultimately show ?thesis by (auto simp: holds_frame_def)
  qed
  with m'(1) sent show ?thesis by blast
qed

end

section \<open>Payloads that are sequences of fields\<close>

locale field_codec =
  fixes set_payload :: "'d \<Rightarrow> TransporterMessage \<Rightarrow> (TransporterMessage \<times> error option) outcome"
    and get_payload :: "TransporterMessage \<Rightarrow> (error + 'd) outcome"
    and to_fields :: "'d \<Rightarrow> field list"
    and of_fields :: "field list \<Rightarrow> 'd"
    and kinds :: "kind list"
  assumes set_eq: "set_payload d m = set_fields (to_fields d) m"
    and get_eq: "get_payload m =
      andThen (read_fields kinds 0 m) (\<lambda>res. Ret (map_sum id of_fields res))"
    and kinds: "map kind_of (to_fields d) = kinds"
    and of_to: "of_fields (to_fields d) = d"
begin

lemma get_parse:
  "wf_message m \<Longrightarrow> payload_fits m \<Longrightarrow>
   get_payload m = Ret (map_sum id of_fields (parse_fields kinds 0 (payload_bytes m)))"
  by (simp add: get_eq read_fields_parse)

end

sublocale field_codec \<subseteq> payload_codec
  set_payload get_payload "\<lambda>d. enc_fields (to_fields d)"
  "\<lambda>d. list_all exact_field (to_fields d)" "\<lambda>d. list_all short_field (to_fields d)"
proof
  fix m d junk
  assume m: "wf_message m" "payload_fits m" "payload_bytes m = enc_fields (to_fields d) @ junk"
    and exact: "list_all exact_field (to_fields d)"
  have "length (payload_bytes m) \<le> 0xF000" using m(1,2) by (simp add: payload_fits_nat)
  then have "parse_fields kinds 0 (payload_bytes m) = Inr (to_fields d)"
    using parse_enc_fields [of "[]" "to_fields d" junk] exact m(3) by (simp add: kinds)
  then show "get_payload m = Ret (Inr d)"
    using m by (simp add: get_parse of_to)
next
  fix m d
  assume "wf_message m" "length (enc_fields (to_fields d)) > 0xF000"
    "list_all short_field (to_fields d)"
  then show "\<exists>m' n. set_payload d m = Ret (m', Some (ErrNoSpace 0xF000 n)) \<and> wf_message m' \<and>
      headerBuffer m' = headerBuffer m"
    unfolding set_eq by (rule set_fields_too_long)
qed (simp_all add: set_eq set_fields_ok get_parse)

section \<open>The six payloads keep the contract\<close>

fun field_int :: "field \<Rightarrow> int" where
  "field_int (FInt v) = v"
| "field_int (FStr s) = 0"

fun field_str :: "field \<Rightarrow> string" where
  "field_str (FInt v) = []"
| "field_str (FStr s) = s"

lemmas set_payload_defs =
  SetErrorPayload_def SetPayloadConnect_def SetPayloadConnectResponse_def
  SetPayloadCreateRoomResponse_def SetPayloadConnectRoom_def SetPayloadConnectRoomResult_def

lemmas get_payload_defs =
  GetErrorPayload_def GetPayloadConnect_def GetPayloadConnectResponse_def
  GetPayloadCreateRoomResponse_def GetPayloadConnectRoom_def GetPayloadConnectRoomResponse_def

lemma write_fields_eta:
  "write_fields [] = (\<lambda>offset m. Ret (m, Inr offset))"
  "write_fields (FInt v # fs) = (\<lambda>offset m. writeThen (writeInt offset v m) (write_fields fs))"
  "write_fields (FStr s # fs) = (\<lambda>offset m. writeThen (writeString offset s m) (write_fields fs))"
  by (simp_all add: fun_eq_iff)

lemma map_sum_readThen:
  "andThen (readThen r k) (\<lambda>res. Ret (map_sum id f res)) =
   readThen r (\<lambda>offset v. andThen (k offset v) (\<lambda>res. Ret (map_sum id f res)))"
  by (cases r) (auto simp: readThen_def split: sum.splits)

lemma map_sum_andThen:
  "andThen (andThen r (\<lambda>res. Ret (map_sum id f res))) (\<lambda>res. Ret (map_sum id g res)) =
   andThen r (\<lambda>res. Ret (map_sum id (\<lambda>x. g (f x)) res))"
  by (cases r) (auto simp: sum.map_comp comp_def id_def)

lemmas get_eq_simps = get_payload_defs map_sum_readThen map_sum_andThen

interpretation error_payload: field_codec SetErrorPayload GetErrorPayload
  "\<lambda>d. [FInt (ErrorCode d), FStr (ErrorMessage d)]"
  "\<lambda>fs. \<lparr>ErrorCode = field_int (fs ! 0), ErrorMessage = field_str (fs ! 1)\<rparr>" "[KInt, KStr]"
  by unfold_locales (simp_all add: set_payload_defs set_fields_def write_fields_eta get_eq_simps)

interpretation connect_payload: field_codec SetPayloadConnect GetPayloadConnect
  "\<lambda>d. [FInt (uint (ClientProtocolVersion d))]"
  "\<lambda>fs. \<lparr>ClientProtocolVersion = word_of_int (field_int (fs ! 0))\<rparr>" "[KInt]"
  by unfold_locales (simp_all add: set_payload_defs set_fields_def write_fields_eta get_eq_simps)

interpretation connect_response: field_codec SetPayloadConnectResponse GetPayloadConnectResponse
  "\<lambda>d. [FStr (ClientId d)]" "\<lambda>fs. \<lparr>ClientId = field_str (fs ! 0)\<rparr>" "[KStr]"
  by unfold_locales (simp_all add: set_payload_defs set_fields_def write_fields_eta get_eq_simps)

interpretation create_room_response: field_codec
  SetPayloadCreateRoomResponse GetPayloadCreateRoomResponse
  "\<lambda>d. [FStr (CreatedRoomId d)]" "\<lambda>fs. \<lparr>CreatedRoomId = field_str (fs ! 0)\<rparr>" "[KStr]"
  by unfold_locales (simp_all add: set_payload_defs set_fields_def write_fields_eta get_eq_simps)

interpretation connect_room: field_codec SetPayloadConnectRoom GetPayloadConnectRoom
  "\<lambda>d. [FStr (RoomId d), FStr (JoinClientId d), FStr (string_of_bytes (JoinPublicKey d))]"
  "\<lambda>fs. \<lparr>RoomId = field_str (fs ! 0), JoinClientId = field_str (fs ! 1),
          JoinPublicKey = bytes_of_string (field_str (fs ! 2))\<rparr>" "[KStr, KStr, KStr]"
  by unfold_locales (simp_all add: set_payload_defs set_fields_def write_fields_eta get_eq_simps)

interpretation connect_room_result: field_codec
  SetPayloadConnectRoomResult GetPayloadConnectRoomResponse
  "\<lambda>d. [FInt (Accepted d), FStr (OwnerClientId d), FStr (string_of_bytes (OwnerPublicKey d))]"
  "\<lambda>fs. \<lparr>Accepted = field_int (fs ! 0), OwnerClientId = field_str (fs ! 1),
          OwnerPublicKey = bytes_of_string (field_str (fs ! 2))\<rparr>" "[KInt, KStr, KStr]"
  by unfold_locales (simp_all add: set_payload_defs set_fields_def write_fields_eta get_eq_simps)

end
