(* ===== verification/Random_Id.thy ===== *)
theory Random_Id
  imports Prelude
begin

text \<open>
  \<open>transporter/utils/randomUtils.go\<close>: the random client and room ids.  The operating
  system's entropy is a list of bytes that the generator consumes; \<open>rand_Int\<close> is
  \<open>crypto/rand.Int\<close> for a bound of at most 256: it takes a byte, keeps as many of its low
  bits as the bound needs and starts over when the result is not below the bound.  Entropy that
  runs out is the error on which \<open>randomIntn\<close> panics.
\<close>

section \<open>The generator\<close>

definition characterSegmentSize :: nat where "characterSegmentSize = 4"
definition numericSegmentSize :: nat where "numericSegmentSize = 4"

fun bit_len :: "nat \<Rightarrow> nat" where
  "bit_len n = (if n = 0 then 0 else Suc (bit_len (n div 2)))"

declare bit_len.simps [simp del]

definition rand_value :: "nat \<Rightarrow> byte \<Rightarrow> nat" where
  "rand_value n b = unat b mod 2 ^ bit_len (n - 1)"

fun rand_Int :: "nat \<Rightarrow> bytes \<Rightarrow> (nat \<times> bytes) option" where
  "rand_Int n [] = None"
| "rand_Int n (b # entropy) =
     (if rand_value n b < n then Some (rand_value n b, entropy) else rand_Int n entropy)"

definition randomIntn :: "nat \<Rightarrow> bytes \<Rightarrow> (nat \<times> bytes) outcome" where
  "randomIntn n entropy = (case rand_Int n entropy of None \<Rightarrow> Panic | Some r \<Rightarrow> Ret r)"

fun random_segment :: "nat \<Rightarrow> nat \<Rightarrow> nat \<Rightarrow> bytes \<Rightarrow> (string \<times> bytes) outcome" where
  "random_segment 0 n base entropy = Ret ([], entropy)"
| "random_segment (Suc k) n base entropy =
     andThen (randomIntn n entropy) (\<lambda>(v, entropy).
     andThen (random_segment k n base entropy) (\<lambda>(s, entropy).
     Ret (char_of (v + base) # s, entropy)))"

definition GenerateClientId :: "bytes \<Rightarrow> (string \<times> bytes) outcome" where
  "GenerateClientId entropy =
     andThen (random_segment characterSegmentSize 26 65 entropy) (\<lambda>(letters, entropy).
     andThen (random_segment numericSegmentSize 10 48 entropy) (\<lambda>(digits, entropy).
     Ret (letters @ digits, entropy)))"

section \<open>What it produces\<close>

definition well_formed_id :: "string \<Rightarrow> bool" where
  "well_formed_id s \<longleftrightarrow> length s = 8 \<and>
     list_all (\<lambda>c. 65 \<le> (of_char c :: nat) \<and> (of_char c :: nat) < 91) (take 4 s) \<and>
     list_all (\<lambda>c. 48 \<le> (of_char c :: nat) \<and> (of_char c :: nat) < 58) (drop 4 s)"

lemma rand_Int_bound: "rand_Int n entropy = Some (v, rest) \<Longrightarrow> v < n"
  by (induction entropy) (auto split: if_splits)

lemma rand_Int_shorter:
  "rand_Int n entropy = Some (v, rest) \<Longrightarrow> length rest < length entropy"
  by (induction entropy) (auto split: if_splits)

lemma random_segment_chars:
  assumes "n + base \<le> 256"
  shows "on_ret (\<lambda>(s, rest). length s = k \<and>
     list_all (\<lambda>c. base \<le> (of_char c :: nat) \<and> (of_char c :: nat) < base + n) s)
     (random_segment k n base entropy)"
proof (induction k arbitrary: entropy)
  case (Suc k)
  show ?case
  proof (cases "rand_Int n entropy")
    case (Some r)
    then obtain v rest where r: "rand_Int n entropy = Some (v, rest)" by (cases r) auto
    have "v + base < 256" "v < n" using rand_Int_bound [OF r] assms by simp_all
    with Suc.IH [of rest] r show ?thesis
      by (cases "random_segment k n base rest") (auto simp: randomIntn_def)
  qed (simp add: randomIntn_def)
qed simp

lemma GenerateClientId_well_formed:
  assumes "GenerateClientId entropy = Ret (s, rest)"
  shows "well_formed_id s"
proof -
  from assms obtain a e1 b where r: "random_segment 4 26 65 entropy = Ret (a, e1)"
    "random_segment 4 10 48 e1 = Ret (b, rest)" "s = a @ b"
    by (auto simp: GenerateClientId_def characterSegmentSize_def numericSegmentSize_def andThen_eq_Ret)
  then show ?thesis
    using random_segment_chars [of 26 65 4 entropy] random_segment_chars [of 10 48 4 e1]
    by (simp add: well_formed_id_def)
qed

lemma rand_Int_first: "v < n \<Longrightarrow> n \<le> 2 ^ bit_len (n - 1) \<Longrightarrow> n \<le> 256 \<Longrightarrow>
  rand_Int n (word_of_nat v # rest) = Some (v, rest)"
  by (simp add: rand_value_def unat_of_nat)

lemma random_segment_of:
  assumes "n \<le> 2 ^ bit_len (n - 1)" "n + base \<le> 256"
    and "list_all (\<lambda>c. base \<le> (of_char c :: nat) \<and> (of_char c :: nat) < base + n) s"
  shows "random_segment (length s) n base
     (map (\<lambda>c. word_of_nat ((of_char c :: nat) - base)) s @ rest) = Ret (s, rest)"
  using assms(3)
proof (induction s)
  case (Cons c s)
  then have "rand_Int n (word_of_nat ((of_char c :: nat) - base) # map (\<lambda>c. word_of_nat ((of_char c :: nat) - base)) s @ rest)
      = Some ((of_char c :: nat) - base, map (\<lambda>c. word_of_nat ((of_char c :: nat) - base)) s @ rest)"
    using assms(1,2) by (intro rand_Int_first) auto
  with Cons show ?case by (simp add: randomIntn_def del: rand_Int.simps)
qed simp

lemma bit_len_26: "bit_len (26 - 1) = 5" "bit_len (10 - 1) = 4"
  by (simp_all add: bit_len.simps)

lemma rand_Int_accepts:
  "rand_Int n (b # rest) = Some (v, rest) \<longleftrightarrow> rand_value n b = v \<and> v < n"
  using rand_Int_shorter [of n rest v rest] by auto

lemma card_residue:
  assumes "v < m"
  shows "card {i :: nat. i < m * k \<and> i mod m = v} = k"
proof -
  have "bij_betw (\<lambda>j. m * j + v) {..<k} {i. i < m * k \<and> i mod m = v}"
  proof (rule bij_betw_byWitness [where f' = "\<lambda>i. i div m"])
    show "(\<lambda>i. i div m) ` {i. i < m * k \<and> i mod m = v} \<subseteq> {..<k}"
      by (auto simp: less_mult_imp_div_less mult.commute)
    have "m * j + v < m * k" if "j < k" for j
    proof -
      have "m * j + v < m * Suc j" using assms by simp
      also have "\<dots> \<le> m * k" using that by (intro mult_le_mono2) simp
      finally show ?thesis .
    qed
    then show "(\<lambda>j. m * j + v) ` {..<k} \<subseteq> {i. i < m * k \<and> i mod m = v}"
      using assms by auto
  qed (use assms in auto)
  then show ?thesis using bij_betw_same_card by fastforce
qed

lemma card_byte_residue:
  assumes "v < m" "m * k = 256"
  shows "card {b :: byte. unat b mod m = v} = k"
proof -
  have lt: "unat b < 256" for b :: byte using unsigned_less [of b] by simp
  have "bij_betw unat {b :: byte. unat b mod m = v} {i. i < 256 \<and> i mod m = v}"
    by (rule bij_betw_byWitness [where f' = word_of_nat]) (auto simp: unat_of_nat lt)
  then show ?thesis using card_residue [OF assms(1), of k] assms(2) bij_betw_same_card by fastforce
qed

section \<open>Properties\<close>

text \<open>
  Every id the generator returns is four upper-case letters and four digits, and every
  such id is the result for some entropy.
\<close>

theorem GenerateClientId_range:
  "(\<exists>entropy rest. GenerateClientId entropy = Ret (s, rest)) \<longleftrightarrow> well_formed_id s"
proof
  assume "\<exists>entropy rest. GenerateClientId entropy = Ret (s, rest)"
  then show "well_formed_id s" by (auto intro: GenerateClientId_well_formed)
next
  assume wf: "well_formed_id s"
  define src where "src k base t = map (\<lambda>c. word_of_nat ((of_char c :: nat) - base) :: byte) t"
    for k base :: nat and t
  have len: "length (take 4 s) = 4" "length (drop 4 s) = 4" using wf by (simp_all add: well_formed_id_def)
  have "random_segment 4 26 65 (src 26 65 (take 4 s) @ src 10 48 (drop 4 s) @ []) =
      Ret (take 4 s, src 10 48 (drop 4 s) @ [])"
    using random_segment_of [of 26 65 "take 4 s"] wf len
    by (simp add: bit_len_26 [simplified] well_formed_id_def src_def)
  moreover have "random_segment 4 10 48 (src 10 48 (drop 4 s) @ []) = Ret (drop 4 s, [])"
    using random_segment_of [of 10 48 "drop 4 s" "[]"] wf len
    by (simp add: bit_len_26 [simplified] well_formed_id_def src_def)
  ultimately have "GenerateClientId (src 26 65 (take 4 s) @ src 10 48 (drop 4 s)) = Ret (s, [])"
    by (simp add: GenerateClientId_def characterSegmentSize_def numericSegmentSize_def)
  then show "\<exists>entropy rest. GenerateClientId entropy = Ret (s, rest)" by blast
qed

text \<open>
  The draw is unbiased: each of the 26 letters is accepted for exactly 8 of the 256 values
  of an entropy byte, and each of the 10 digits for exactly 16.
\<close>

theorem randomIntn_unbiased:
  "card {b. randomIntn 26 (b # rest) = Ret (v, rest)} = (if v < 26 then 8 else 0) \<and>
   card {b. randomIntn 10 (b # rest) = Ret (v, rest)} = (if v < 10 then 16 else 0)"
proof -
  have accepted: "{b. randomIntn n (b # rest) = Ret (v, rest)} =
      (if v < n then {b. unat b mod 2 ^ bit_len (n - 1) = v} else {})" for n
  proof -
    have "randomIntn n (b # rest) = Ret (v, rest) \<longleftrightarrow> rand_Int n (b # rest) = Some (v, rest)" for b
      by (simp add: randomIntn_def del: rand_Int.simps split: option.splits)
    then show ?thesis by (auto simp only: rand_Int_accepts rand_value_def split: if_splits)
  qed
  have "v < 26 \<Longrightarrow> card {b :: byte. unat b mod 2 ^ 5 = v} = 8"
    by (rule card_byte_residue) simp_all
  moreover have "v < 10 \<Longrightarrow> card {b :: byte. unat b mod 2 ^ 4 = v} = 16"
    by (rule card_byte_residue) simp_all
  ultimately show ?thesis
    unfolding accepted bit_len_26 by simp
qed

end
