(* ===== verification/Client_Connection.thy ===== *)
theory Client_Connection
  imports Typed_Payloads Pool_Contract Random_Id
begin

text \<open>
  \<open>transporter/manager/connectionManager\<close>: the connections of the transporter and their
  manager.  Go's \<open>*ClientConnection\<close> pointers are indices into \<open>clients\<close>, the store of every
  connection accepted so far; \<open>connections\<close> is the manager's list of registered ones, newest
  first.  The two channels are queues with the capacity the code gives them: sending to a full
  one is \<open>Blocked\<close>.  Each definition is one Go function; what a goroutine does between two
  points where it may wait is one step.
\<close>

section \<open>State\<close>

definition ConnectionPoolSize :: nat where "ConnectionPoolSize = 10"

record ClientConnection =
  connection :: net_conn
  clientId :: string
  closeOnce :: bool

record ClientMessageContainer =
  Sender :: nat
  Message :: nat

record ConnectionManager =
  transporterMessagePool :: "TransporterMessage ObjectPool"
  clients :: "ClientConnection list"
  server :: "bool option"
  connections :: "nat list"
  cancelled :: bool
  ClientDisconnectedChannel :: "nat list"
  ClientMessageChannel :: "ClientMessageContainer list"

text \<open>\<open>server\<close> is the listener, if there is one, and whether it is open.\<close>

definition CreateConnectionManager :: ConnectionManager where
  "CreateConnectionManager =
     \<lparr>transporterMessagePool = NewObjectPool CreateTransporterMessage, clients = [],
      server = None, connections = [], cancelled = False,
      ClientDisconnectedChannel = [], ClientMessageChannel = []\<rparr>"

text \<open>Reading and writing through a \<open>*ClientConnection\<close>.\<close>

definition conn_of :: "nat \<Rightarrow> ConnectionManager \<Rightarrow> net_conn" where
  "conn_of cc cm = connection (clients cm ! cc)"

definition upd_client :: "nat \<Rightarrow> (ClientConnection \<Rightarrow> ClientConnection) \<Rightarrow> ConnectionManager \<Rightarrow> ConnectionManager" where
  "upd_client cc f cm = cm\<lparr>clients := (clients cm)[cc := f (clients cm ! cc)]\<rparr>"

definition set_conn :: "nat \<Rightarrow> net_conn \<Rightarrow> ConnectionManager \<Rightarrow> ConnectionManager" where
  "set_conn cc c = upd_client cc (\<lambda>k. k\<lparr>connection := c\<rparr>)"

definition GetClientId :: "nat \<Rightarrow> ConnectionManager \<Rightarrow> string" where
  "GetClientId cc cm = clientId (clients cm ! cc)"

section \<open>Registering and closing (connectionManager.go)\<close>

text \<open>One turn of the accept loop: the new connection is registered at the front.\<close>

definition registerConnection :: "nat \<Rightarrow> ConnectionManager \<Rightarrow> ConnectionManager" where
  "registerConnection cc cm = cm\<lparr>connections := cc # connections cm\<rparr>"

definition accept_connection :: "net_conn \<Rightarrow> ConnectionManager \<Rightarrow> ConnectionManager" where
  "accept_connection c cm =
     registerConnection (length (clients cm))
       (cm\<lparr>clients := clients cm @ [\<lparr>connection = c, clientId = [], closeOnce = False\<rparr>]\<rparr>)"

definition send_disconnected :: "nat \<Rightarrow> ConnectionManager \<Rightarrow> ConnectionManager outcome" where
  "send_disconnected cc cm =
     (if length (ClientDisconnectedChannel cm) < ConnectionPoolSize
      then Ret (cm\<lparr>ClientDisconnectedChannel := ClientDisconnectedChannel cm @ [cc]\<rparr>)
      else Blocked)"

definition internalCloseClient :: "nat \<Rightarrow> ConnectionManager \<Rightarrow> ConnectionManager outcome" where
  "internalCloseClient cc cm =
     (let cm1 = set_conn cc (fst (conn_Close (conn_of cc cm))) cm in
      if cc \<in> set (connections cm1)
      then send_disconnected cc (cm1\<lparr>connections := remove1 cc (connections cm1)\<rparr>)
      else Ret cm1)"

definition internalClose :: "nat \<Rightarrow> ConnectionManager \<Rightarrow> ConnectionManager outcome" where
  "internalClose cc cm =
     (if closeOnce (clients cm ! cc) then Ret cm
      else internalCloseClient cc (upd_client cc (\<lambda>k. k\<lparr>closeOnce := True\<rparr>) cm))"

definition Close :: "nat \<Rightarrow> ConnectionManager \<Rightarrow> ConnectionManager outcome" where
  "Close cc cm = internalClose cc cm"

fun close_all :: "nat list \<Rightarrow> ConnectionManager \<Rightarrow> ConnectionManager outcome" where
  "close_all [] cm = Ret cm"
| "close_all (cc # ccs) cm = andThen (Close cc cm) (close_all ccs)"

definition stop_listener :: "ConnectionManager \<Rightarrow> ConnectionManager" where
  "stop_listener cm = cm\<lparr>cancelled := True, server := map_option (\<lambda>_. False) (server cm)\<rparr>"

definition Stop :: "ConnectionManager \<Rightarrow> ConnectionManager outcome" where
  "Stop cm = close_all (connections cm) (stop_listener cm)"

section \<open>Sending (clientConnection.go)\<close>

definition Send :: "nat \<Rightarrow> TransporterMessage \<Rightarrow> ConnectionManager \<Rightarrow> (ConnectionManager \<times> error option) outcome" where
  "Send cc message cm =
     andThen (Write message (conn_of cc cm)) (\<lambda>(c, err). Ret (set_conn cc c cm, err))"

text \<open>
  What every sender does: take a message from the pool, fill it, and write it unless filling it
  failed; the deferred \<open>Dispose\<close> returns it to the pool on every path.
\<close>

definition write_filled ::
  "(TransporterMessage \<times> error option) outcome \<Rightarrow> net_conn \<Rightarrow>
   (TransporterMessage \<times> net_conn \<times> error option) outcome" where
  "write_filled filled c =
     andThen filled (\<lambda>(m, err).
       case err of Some e \<Rightarrow> Ret (m, c, Some e)
       | None \<Rightarrow> andThen (Write m c) (\<lambda>(c', err). Ret (m, c', err)))"

definition sendPooled ::
  "nat \<Rightarrow> (TransporterMessage \<Rightarrow> (TransporterMessage \<times> error option) outcome) \<Rightarrow>
   ConnectionManager \<Rightarrow> (ConnectionManager \<times> error option) outcome" where
  "sendPooled cc fill cm =
     andThen (withPooled (transporterMessagePool cm) (\<lambda>e. (conn_of cc cm, Some e))
               (\<lambda>m. write_filled (fill m) (conn_of cc cm)))
       (\<lambda>(pool, c, err). Ret (set_conn cc c (cm\<lparr>transporterMessagePool := pool\<rparr>), err))"

definition fill_error :: "u32 \<times> int \<times> string \<Rightarrow> TransporterMessage \<Rightarrow> (TransporterMessage \<times> error option) outcome" where
  "fill_error = (\<lambda>(command, errorCode, errorMessage) m.
     SetErrorPayload \<lparr>ErrorCode = errorCode, ErrorMessage = errorMessage\<rparr> (SetErrorResponseCommand command m))"

definition fill_room_created :: "string \<Rightarrow> TransporterMessage \<Rightarrow> (TransporterMessage \<times> error option) outcome" where
  "fill_room_created roomId m =
     SetPayloadCreateRoomResponse \<lparr>CreatedRoomId = roomId\<rparr> (SetResponseCommand CommandCreateRoom m)"

definition fill_join_request :: "string \<times> string \<times> bytes \<Rightarrow> TransporterMessage \<Rightarrow> (TransporterMessage \<times> error option) outcome" where
  "fill_join_request = (\<lambda>(roomId, client, guestPublicKey) m.
     SetPayloadConnectRoom \<lparr>RoomId = roomId, JoinClientId = client, JoinPublicKey = guestPublicKey\<rparr>
       (SetDirectCommand CommandJoinRoom m))"

definition fill_join_answer :: "int \<times> string \<times> bytes \<Rightarrow> TransporterMessage \<Rightarrow> (TransporterMessage \<times> error option) outcome" where
  "fill_join_answer = (\<lambda>(isAccepted, ownerClientId, ownerPublicKey) m.
     SetPayloadConnectRoomResult
       \<lparr>Accepted = isAccepted, OwnerClientId = ownerClientId, OwnerPublicKey = ownerPublicKey\<rparr>
       (SetResponseCommand CommandJoinRoom m))"

definition fill_guest_left :: "TransporterMessage \<Rightarrow> (TransporterMessage \<times> error option) outcome" where
  "fill_guest_left m = Ret (SetDirectCommand CommandGuestLeft m, None)"

definition SendErrorResponse ::
  "nat \<Rightarrow> u32 \<Rightarrow> int \<Rightarrow> string \<Rightarrow> ConnectionManager \<Rightarrow> (ConnectionManager \<times> error option) outcome" where
  "SendErrorResponse cc command errorCode errorMessage =
     sendPooled cc (fill_error (command, errorCode, errorMessage))"

definition SendRoomCreateResponse ::
  "nat \<Rightarrow> string \<Rightarrow> ConnectionManager \<Rightarrow> (ConnectionManager \<times> error option) outcome" where
  "SendRoomCreateResponse cc roomId = sendPooled cc (fill_room_created roomId)"

definition SendJoinRoomRequest ::
  "nat \<Rightarrow> string \<Rightarrow> string \<Rightarrow> bytes \<Rightarrow> ConnectionManager \<Rightarrow> (ConnectionManager \<times> error option) outcome" where
  "SendJoinRoomRequest cc roomId client guestPublicKey =
     sendPooled cc (fill_join_request (roomId, client, guestPublicKey))"

definition SendJoinRoomResponse ::
  "nat \<Rightarrow> int \<Rightarrow> string \<Rightarrow> bytes \<Rightarrow> ConnectionManager \<Rightarrow> (ConnectionManager \<times> error option) outcome" where
  "SendJoinRoomResponse cc isAccepted ownerClientId ownerPublicKey =
     sendPooled cc (fill_join_answer (isAccepted, ownerClientId, ownerPublicKey))"

definition SendGuestLeft :: "nat \<Rightarrow> ConnectionManager \<Rightarrow> (ConnectionManager \<times> error option) outcome" where
  "SendGuestLeft cc = sendPooled cc fill_guest_left"

definition SendInvalidPayloadError :: "nat \<Rightarrow> u32 \<Rightarrow> ConnectionManager \<Rightarrow> (ConnectionManager \<times> error option) outcome" where
  "SendInvalidPayloadError cc command =
     sendPooled cc (fill_error (command, ErrorInvalidPayload, ''Invalid command payload''))"

section \<open>The connection's goroutine (clientConnection.go)\<close>

definition closing :: "nat \<Rightarrow> ConnectionManager \<Rightarrow> (ConnectionManager \<times> bool) outcome" where
  "closing cc cm = andThen (internalClose cc cm) (\<lambda>cm. Ret (cm, False))"

definition mismatch_text :: "u32 \<Rightarrow> string" where
  "mismatch_text v = ''Protocol version mismatch, transporter: '' @ decimal (unat ProtocolVersion) @
     '', client: '' @ decimal (unat v)"

text \<open>
  The mismatch path closes the connection through the manager and not through \<open>internalClose\<close>,
  so \<open>closeOnce\<close> stays unused.  A failed send is only logged.
\<close>

definition handleProtocolMismatchError :: "nat \<Rightarrow> u32 \<Rightarrow> ConnectionManager \<Rightarrow> ConnectionManager outcome" where
  "handleProtocolMismatchError cc clientProtocolVersion cm =
     andThen (sendPooled cc (fill_error (CommandConnect, ErrorProtocolNotSupported,
                mismatch_text clientProtocolVersion)) cm)
       (\<lambda>(cm, err). internalCloseClient cc cm)"

definition store_message :: "nat \<Rightarrow> TransporterMessage \<Rightarrow> ConnectionManager \<Rightarrow> ConnectionManager" where
  "store_message a m cm =
     cm\<lparr>transporterMessagePool := store_data a m (transporterMessagePool cm)\<rparr>"

definition dispose_message :: "nat \<Rightarrow> ConnectionManager \<Rightarrow> ConnectionManager" where
  "dispose_message a cm =
     cm\<lparr>transporterMessagePool := fst (Dispose a (transporterMessagePool cm))\<rparr>"

definition handleConnectHandshake ::
  "bytes \<Rightarrow> nat \<Rightarrow> nat \<Rightarrow> TransporterMessage \<Rightarrow> ConnectionManager \<Rightarrow> (ConnectionManager \<times> bool) outcome" where
  "handleConnectHandshake entropy cc a message cm =
     andThen (GetPayloadConnect message) (\<lambda>res.
     (case res of
        Inl e \<Rightarrow> closing cc cm
      | Inr payload \<Rightarrow>
        if ClientProtocolVersion payload \<noteq> ProtocolVersion
        then andThen (handleProtocolMismatchError cc (ClientProtocolVersion payload) cm)
               (\<lambda>cm. Ret (cm, False))
        else andThen (GenerateClientId entropy) (\<lambda>(newId, _).
          let cm1 = upd_client cc (\<lambda>k. k\<lparr>clientId := newId\<rparr>) cm in
          andThen (SetPayloadConnectResponse \<lparr>ClientId = newId\<rparr>
                     (SetResponseCommand CommandConnect message)) (\<lambda>(m1, err).
          let cm2 = store_message a m1 cm1 in
          (case err of
             Some e \<Rightarrow> closing cc cm2
           | None \<Rightarrow> andThen (Send cc m1 cm2) (\<lambda>(cm3, err).
               case err of Some e \<Rightarrow> closing cc cm3 | None \<Rightarrow> Ret (cm3, True)))))))"

definition performHandshake :: "bytes \<Rightarrow> nat \<Rightarrow> ConnectionManager \<Rightarrow> (ConnectionManager \<times> bool) outcome" where
  "performHandshake entropy cc cm =
     andThen (Obtain (transporterMessagePool cm)) (\<lambda>(pool, a).
     let cm1 = cm\<lparr>transporterMessagePool := pool\<rparr> in
     andThen
       (case Data a pool of
          Inl e \<Rightarrow> closing cc cm1
        | Inr m \<Rightarrow> andThen (Read m (conn_of cc cm1)) (\<lambda>(m1, c1, err).
            let cm2 = store_message a m1 (set_conn cc c1 cm1) in
            if err \<noteq> None then closing cc cm2
            else if Command m1 = CommandConnect then handleConnectHandshake entropy cc a m1 cm2
            else closing cc cm2))
       (\<lambda>(cm3, ok). Ret (dispose_message a cm3, ok)))"

definition readNextMessage :: "nat \<Rightarrow> ConnectionManager \<Rightarrow> (ConnectionManager \<times> bool) outcome" where
  "readNextMessage cc cm =
     andThen (Obtain (transporterMessagePool cm)) (\<lambda>(pool, a).
     let cm1 = cm\<lparr>transporterMessagePool := pool\<rparr> in
     (case Data a pool of
        Inl e \<Rightarrow> closing cc (dispose_message a cm1)
      | Inr m \<Rightarrow> andThen (Read m (conn_of cc cm1)) (\<lambda>(m1, c1, err).
          let cm2 = store_message a m1 (set_conn cc c1 cm1) in
          if err \<noteq> None then closing cc (dispose_message a cm2)
          else if length (ClientMessageChannel cm2) < ConnectionPoolSize
          then Ret (cm2\<lparr>ClientMessageChannel := ClientMessageChannel cm2 @ [\<lparr>Sender = cc, Message = a\<rparr>]\<rparr>, True)
          else Blocked)))"

end
