(* ===== verification/Connection_Invariant.thy ===== *)
theory Connection_Invariant
  imports Client_Connection
begin

text \<open>
  The invariant of the connection manager (\<open>cm_ok\<close>), the relation \<open>cm_evolves\<close> between the
  states before and after an operation, and the proof that sending and closing respect both.
  The locale \<open>frame_sender\<close> is what a sender promises: on success exactly one frame with its
  command and payload reaches the connection.  It is interpreted on each sender of
  \<open>clientConnection.go\<close> that seals its message; \<open>SendGuestLeft\<close> does not, and is treated in
  \<open>Guest_Left\<close>.
\<close>

section \<open>The invariant\<close>

text \<open>
  The invariant is stated for a class \<open>P\<close> of messages that the pool may hold: \<open>wf_message\<close>,
  which every operation keeps, and \<open>clean_message\<close>, which \<open>Read\<close> can destroy by storing an
  oversized length.
\<close>

definition clean_message :: "TransporterMessage \<Rightarrow> bool" where
  "clean_message m \<longleftrightarrow> wf_message m \<and> payload_fits m"

definition message_class :: "(TransporterMessage \<Rightarrow> bool) \<Rightarrow> bool" where
  "message_class P \<longleftrightarrow> P = wf_message \<or> P = clean_message"

lemma message_classes [simp]: "message_class wf_message" "message_class clean_message"
  by (simp_all add: message_class_def)

lemma message_class_wf: "message_class P \<Longrightarrow> P m \<Longrightarrow> wf_message m"
  by (auto simp: message_class_def clean_message_def)

lemma message_class_clean: "message_class P \<Longrightarrow> clean_message m \<Longrightarrow> P m"
  by (auto simp: message_class_def clean_message_def)

lemma message_class_same_length:
  "message_class P \<Longrightarrow> P m \<Longrightarrow> wf_message m' \<Longrightarrow> PayloadLength m' = PayloadLength m \<Longrightarrow> P m'"
  by (auto simp: message_class_def clean_message_def payload_fits_def)

definition pending_ok :: "ConnectionManager \<Rightarrow> ClientMessageContainer \<Rightarrow> bool" where
  "pending_ok cm mc \<longleftrightarrow> Sender mc < length (clients cm) \<and>
     uses (transporterMessagePool cm) (Message mc) = 1 \<and>
     (\<exists>m. Data (Message mc) (transporterMessagePool cm) = Inr m \<and> clean_message m)"

definition registered_ok :: "ConnectionManager \<Rightarrow> bool" where
  "registered_ok cm \<longleftrightarrow>
     distinct (ClientDisconnectedChannel cm @ connections cm) \<and>
     (\<forall>i \<in> set (ClientDisconnectedChannel cm @ connections cm). i < length (clients cm)) \<and>
     (\<forall>i < length (clients cm). i \<in> set (connections cm) \<longleftrightarrow> \<not> conn_closed (conn_of i cm))"

definition cm_ok :: "(TransporterMessage \<Rightarrow> bool) \<Rightarrow> ConnectionManager \<Rightarrow> bool" where
  "cm_ok P cm \<longleftrightarrow>
     good_pool P (transporterMessagePool cm) \<and> registered_ok cm \<and>
     (\<forall>i < length (clients cm). length (GetClientId i cm) \<le> 8) \<and>
     (\<forall>mc \<in> set (ClientMessageChannel cm). pending_ok cm mc) \<and>
     distinct (map Message (ClientMessageChannel cm))"

text \<open>
  \<open>cm_evolves P W cm cm'\<close>: from \<open>cm\<close> to \<open>cm'\<close> the invariant was kept, buffers others hold are
  unchanged, no message left or entered the queue, no connection was registered, the listener is
  as it was, and bytes were appended at most to the connections in \<open>W\<close>.
\<close>

definition listener :: "ConnectionManager \<Rightarrow> bool option \<times> bool" where
  "listener cm = (server cm, cancelled cm)"

definition cm_evolves :: "(TransporterMessage \<Rightarrow> bool) \<Rightarrow> nat set \<Rightarrow> ConnectionManager \<Rightarrow> ConnectionManager \<Rightarrow> bool" where
  "cm_evolves P W cm cm' \<longleftrightarrow> cm_ok P cm' \<and>
     same_leases (transporterMessagePool cm) (transporterMessagePool cm') \<and>
     ClientMessageChannel cm' = ClientMessageChannel cm \<and>
     length (clients cm') = length (clients cm) \<and>
     set (connections cm') \<subseteq> set (connections cm) \<and>
     listener cm' = listener cm \<and>
     (\<forall>b < length (clients cm). GetClientId b cm' = GetClientId b cm \<and>
        (\<exists>sent. outbound (conn_of b cm') = outbound (conn_of b cm) @ sent) \<and>
        (b \<notin> W \<longrightarrow> outbound (conn_of b cm') = outbound (conn_of b cm)))"

lemma listener_simps [simp]:
  "listener (cm\<lparr>transporterMessagePool := p\<rparr>) = listener cm"
  "listener (cm\<lparr>connections := cs\<rparr>) = listener cm"
  "listener (cm\<lparr>ClientDisconnectedChannel := q\<rparr>) = listener cm"
  "listener (cm\<lparr>ClientMessageChannel := ms\<rparr>) = listener cm"
  "listener (upd_client cc f cm) = listener cm"
  "listener (set_conn cc c cm) = listener cm"
  "listener (store_message a m cm) = listener cm"
  "listener (dispose_message a cm) = listener cm"
  by (simp_all add: listener_def upd_client_def set_conn_def store_message_def dispose_message_def)

lemma cm_evolves_refl [simp]: "cm_evolves P W cm cm \<longleftrightarrow> cm_ok P cm"
  by (auto simp: cm_evolves_def)

lemma cm_evolves_trans:
  "cm_evolves P V cm cm1 \<Longrightarrow> cm_evolves P W cm1 cm2 \<Longrightarrow> V \<subseteq> U \<Longrightarrow> W \<subseteq> U \<Longrightarrow> cm_evolves P U cm cm2"
  by (fastforce simp: cm_evolves_def intro: same_leases_trans)

lemma cm_evolves_mono: "cm_evolves P V cm cm' \<Longrightarrow> V \<subseteq> W \<Longrightarrow> cm_evolves P W cm cm'"
  by (auto simp: cm_evolves_def)

lemma cm_evolves_ok: "cm_evolves P W cm cm' \<Longrightarrow> cm_ok P cm'"
  by (simp add: cm_evolves_def)

lemma cm_evolves_clients: "cm_evolves P W cm cm' \<Longrightarrow> length (clients cm') = length (clients cm)"
  by (simp add: cm_evolves_def)

lemma cm_ok_New: "P CreateTransporterMessage \<Longrightarrow> cm_ok P CreateConnectionManager"
  by (simp add: cm_ok_def CreateConnectionManager_def good_pool_New registered_ok_def)

lemma wf_clean_New [simp]: "clean_message CreateTransporterMessage"
proof -
  have "Uint32 (replicate 4 0) = 0" by code_simp
  then have "PayloadLength CreateTransporterMessage = 0"
    by (simp add: PayloadLength_def payloadLengthBuffer_def slice_def CreateTransporterMessage_def
        MaxPayloadSize_def)
  then show ?thesis by (simp add: clean_message_def payload_fits_def)
qed

section \<open>Changing one connection\<close>

lemma upd_client_simps [simp]:
  "transporterMessagePool (upd_client cc f cm) = transporterMessagePool cm"
  "length (clients (upd_client cc f cm)) = length (clients cm)"
  "connections (upd_client cc f cm) = connections cm"
  "ClientDisconnectedChannel (upd_client cc f cm) = ClientDisconnectedChannel cm"
  "ClientMessageChannel (upd_client cc f cm) = ClientMessageChannel cm"
  by (simp_all add: upd_client_def)

lemma set_conn_simps [simp]:
  "transporterMessagePool (set_conn cc c cm) = transporterMessagePool cm"
  "length (clients (set_conn cc c cm)) = length (clients cm)"
  "connections (set_conn cc c cm) = connections cm"
  "ClientDisconnectedChannel (set_conn cc c cm) = ClientDisconnectedChannel cm"
  "ClientMessageChannel (set_conn cc c cm) = ClientMessageChannel cm"
  by (simp_all add: set_conn_def)

lemma clients_set_conn:
  "cc < length (clients cm) \<Longrightarrow>
   conn_of b (set_conn cc c cm) = (if b = cc then c else conn_of b cm)"
  "cc < length (clients cm) \<Longrightarrow> GetClientId b (set_conn cc c cm) = GetClientId b cm"
  "cc < length (clients cm) \<Longrightarrow>
   closeOnce (clients (set_conn cc c cm) ! b) = closeOnce (clients cm ! b)"
  by (cases "b = cc"; simp add: conn_of_def GetClientId_def set_conn_def upd_client_def)+

lemma conn_of_pool [simp]:
  "conn_of b (cm\<lparr>transporterMessagePool := p\<rparr>) = conn_of b cm"
  "GetClientId b (cm\<lparr>transporterMessagePool := p\<rparr>) = GetClientId b cm"
  by (simp_all add: conn_of_def GetClientId_def)

lemma pending_ok_pool:
  assumes "same_leases (transporterMessagePool cm) p" "pending_ok cm mc"
  shows "pending_ok (cm\<lparr>transporterMessagePool := p\<rparr>) mc"
  using assms by (simp add: pending_ok_def same_leases_def)

lemma cm_evolves_pool:
  assumes "cm_ok P cm" "good_pool P p" "same_leases (transporterMessagePool cm) p"
  shows "cm_evolves P {} cm (cm\<lparr>transporterMessagePool := p\<rparr>)"
proof -
  have "registered_ok (cm\<lparr>transporterMessagePool := p\<rparr>) = registered_ok cm"
    by (simp add: registered_ok_def)
  then show ?thesis
    using assms pending_ok_pool [OF assms(3)] by (auto simp: cm_evolves_def cm_ok_def)
qed

lemma cm_ok_set_conn:
  assumes "cm_ok P cm" "cc < length (clients cm)" "conn_closed c = conn_closed (conn_of cc cm)"
  shows "cm_ok P (set_conn cc c cm)"
proof -
  have "pending_ok (set_conn cc c cm) mc = pending_ok cm mc" for mc
    by (simp add: pending_ok_def)
  moreover have "registered_ok (set_conn cc c cm) = registered_ok cm"
    using assms(2,3) by (auto simp: registered_ok_def clients_set_conn)
  ultimately show ?thesis using assms(1,2) by (simp add: cm_ok_def clients_set_conn)
qed

lemma cm_evolves_set_conn:
  assumes "cm_ok P cm" "cc < length (clients cm)" "conn_closed c = conn_closed (conn_of cc cm)"
    and "outbound c = outbound (conn_of cc cm) @ sent"
  shows "cm_evolves P {cc} cm (set_conn cc c cm)"
  using cm_ok_set_conn [OF assms(1-3)] assms(2,4) by (auto simp: cm_evolves_def clients_set_conn)

section \<open>Closing\<close>

lemma internalCloseClient_cases:
  assumes "cm_ok P cm" "cc < length (clients cm)"
  shows "internalCloseClient cc cm =
     (if cc \<in> set (connections cm)
      then send_disconnected cc
        ((set_conn cc ((conn_of cc cm)\<lparr>conn_closed := True\<rparr>) cm)
          \<lparr>connections := remove1 cc (connections cm)\<rparr>)
      else Ret (set_conn cc (conn_of cc cm) cm))"
proof -
  have "cc \<in> set (connections cm) \<longleftrightarrow> \<not> conn_closed (conn_of cc cm)"
    using assms by (simp add: cm_ok_def registered_ok_def)
  then show ?thesis by (simp add: internalCloseClient_def Let_def conn_Close_def)
qed

lemma set_conn_same: "cc < length (clients cm) \<Longrightarrow> set_conn cc (conn_of cc cm) cm = cm"
  by (simp add: set_conn_def upd_client_def conn_of_def)

text \<open>
  A registered connection is closed, unregistered and announced, once; closing any other
  changes nothing.  The only way not to return is to wait on the full channel.
\<close>

lemma internalCloseClient_evolves:
  assumes "cm_ok P cm" "cc < length (clients cm)"
  shows "safe (\<lambda>cm'. cm_evolves P {} cm cm' \<and> cc \<notin> set (connections cm')) (internalCloseClient cc cm)"
proof (cases "cc \<in> set (connections cm)")
  case False
  then show ?thesis
    using assms by (simp add: internalCloseClient_cases set_conn_same)
next
  case True
  let ?cm1 = "(set_conn cc ((conn_of cc cm)\<lparr>conn_closed := True\<rparr>) cm)
      \<lparr>connections := remove1 cc (connections cm)\<rparr>"
  let ?cm2 = "?cm1\<lparr>ClientDisconnectedChannel := ClientDisconnectedChannel cm @ [cc]\<rparr>"
  have reg: "distinct (ClientDisconnectedChannel cm @ connections cm)"
    "\<forall>i \<in> set (ClientDisconnectedChannel cm @ connections cm). i < length (clients cm)"
    "\<forall>i < length (clients cm). i \<in> set (connections cm) \<longleftrightarrow> \<not> conn_closed (conn_of i cm)"
    using assms(1) by (simp_all add: cm_ok_def registered_ok_def)
  have conn: "conn_of b ?cm2 = (if b = cc then (conn_of cc cm)\<lparr>conn_closed := True\<rparr> else conn_of b cm)"
    and id: "GetClientId b ?cm2 = GetClientId b cm" for b
    using assms(2) clients_set_conn(1,2) [of cc cm] by (simp_all add: conn_of_def GetClientId_def)
  have "registered_ok ?cm2"
    using reg True by (auto simp: registered_ok_def conn set_remove1_eq)
  moreover have "pending_ok ?cm2 mc = pending_ok cm mc" for mc
    by (simp add: pending_ok_def)
  ultimately have "cm_ok P ?cm2"
    using assms(1) by (simp add: cm_ok_def id)
  moreover have "cc \<notin> set (remove1 cc (connections cm))" using reg(1) by simp
  ultimately have "cm_evolves P {} cm ?cm2 \<and> cc \<notin> set (connections ?cm2)"
    using set_remove1_subset [of cc "connections cm"] by (auto simp: cm_evolves_def conn id)
  then show ?thesis
    using assms True by (simp add: internalCloseClient_cases send_disconnected_def)
qed

lemma upd_closeOnce:
  assumes "cm_ok P cm" "cc < length (clients cm)"
  shows "cm_evolves P {} cm (upd_client cc (\<lambda>k. k\<lparr>closeOnce := True\<rparr>) cm)"
proof -
  let ?cm = "upd_client cc (\<lambda>k. k\<lparr>closeOnce := True\<rparr>) cm"
  have same: "conn_of b ?cm = conn_of b cm" "GetClientId b ?cm = GetClientId b cm" for b
    using assms(2) by (cases "b = cc"; simp add: conn_of_def GetClientId_def upd_client_def)+
  have "pending_ok ?cm mc = pending_ok cm mc" for mc by (simp add: pending_ok_def)
  moreover have "registered_ok ?cm = registered_ok cm" by (simp add: registered_ok_def same)
  ultimately show ?thesis using assms(1) by (simp add: cm_evolves_def cm_ok_def same)
qed

lemma internalClose_evolves:
  assumes "cm_ok P cm" "cc < length (clients cm)"
  shows "safe (cm_evolves P {} cm) (internalClose cc cm)"
proof -
  note u = upd_closeOnce [OF assms]
  have "safe (\<lambda>cm'. cm_evolves P {} cm cm')
      (internalCloseClient cc (upd_client cc (\<lambda>k. k\<lparr>closeOnce := True\<rparr>) cm))"
    using internalCloseClient_evolves [OF cm_evolves_ok [OF u], of cc] assms(2) cm_evolves_trans [OF u]
    by (auto elim!: safe_mono)
  then show ?thesis using assms(1) by (simp add: internalClose_def)
qed

lemma Close_evolves:
  "cm_ok P cm \<Longrightarrow> cc < length (clients cm) \<Longrightarrow> safe (cm_evolves P {} cm) (Close cc cm)"
  by (simp add: Close_def internalClose_evolves)

lemma close_all_evolves:
  "cm_ok P cm \<Longrightarrow> \<forall>cc \<in> set ccs. cc < length (clients cm) \<Longrightarrow> safe (cm_evolves P {} cm) (close_all ccs cm)"
proof (induction ccs arbitrary: cm)
  case (Cons cc ccs)
  have "safe (cm_evolves P {} cm) (Close cc cm)" using Cons.prems by (intro Close_evolves) simp_all
  then have "safe (\<lambda>cm1. safe (cm_evolves P {} cm) (close_all ccs cm1)) (Close cc cm)"
  proof (rule safe_mono)
    fix cm1 assume e: "cm_evolves P {} cm cm1"
    have "safe (cm_evolves P {} cm1) (close_all ccs cm1)"
      using Cons.prems(2) cm_evolves_clients [OF e] by (intro Cons.IH [OF cm_evolves_ok [OF e]]) simp
    then show "safe (cm_evolves P {} cm) (close_all ccs cm1)"
      by (rule safe_mono) (rule cm_evolves_trans [OF e], simp_all)
  qed
  then show ?case by (simp add: outcome_simps)
qed simp

section \<open>Sending\<close>

lemma write_filled_returns:
  assumes "returns (\<lambda>(m', e). P m' \<and> (e = None \<longrightarrow> clean_message m')) r"
  shows "returns (\<lambda>(m', c', e). P m' \<and> conn_closed c' = conn_closed c \<and>
     (\<exists>sent. outbound c' = outbound c @ sent)) (write_filled r c)"
proof -
  obtain m e where r: "r = Ret (m, e)" "P m" "e = None \<longrightarrow> clean_message m"
    using assms by (auto elim!: returnsE)
  show ?thesis
  proof (cases e)
    case None
    then have "wf_message m" "payload_fits m" using r by (simp_all add: clean_message_def)
    from Write_any [OF this, of c] show ?thesis
      using r(2) None by (auto simp: write_filled_def r(1) outcome_simps elim!: returns_mono)
  qed (use r in \<open>simp add: write_filled_def\<close>)
qed

lemma sendPooled_evolves:
  assumes ok: "cm_ok P cm" "cc < length (clients cm)"
    and fill: "\<And>m. P m \<Longrightarrow> returns (\<lambda>(m', e). P m' \<and> (e = None \<longrightarrow> clean_message m')) (fill m)"
  shows "returns (\<lambda>(cm', e). cm_evolves P {cc} cm cm') (sendPooled cc fill cm)"
proof -
  let ?c = "conn_of cc cm"
  let ?Q = "\<lambda>(c', e :: error option). conn_closed c' = conn_closed ?c \<and>
      (\<exists>sent. outbound c' = outbound ?c @ sent)"
  have body: "returns (\<lambda>(m', r). P m' \<and> ?Q r) (write_filled (fill m) ?c)" if "P m" for m
    using write_filled_returns [OF fill [OF that], of ?c] by (auto elim!: returns_mono)
  have "returns (\<lambda>(p', r). good_pool P p' \<and> same_leases (transporterMessagePool cm) p' \<and> ?Q r)
      (withPooled (transporterMessagePool cm) (\<lambda>e. (?c, Some e)) (\<lambda>m. write_filled (fill m) ?c))"
    by (rule withPooled_returns [OF _ body]) (use ok in \<open>simp add: cm_ok_def\<close>)
  moreover have "cm_evolves P {cc} cm (set_conn cc c' (cm\<lparr>transporterMessagePool := p'\<rparr>))"
    if "good_pool P p'" "same_leases (transporterMessagePool cm) p'"
      "conn_closed c' = conn_closed ?c" "outbound c' = outbound ?c @ sent" for p' c' sent
  proof (rule cm_evolves_trans)
    show e: "cm_evolves P {} cm (cm\<lparr>transporterMessagePool := p'\<rparr>)"
      by (rule cm_evolves_pool [OF ok(1) that(1,2)])
    show "cm_evolves P {cc} (cm\<lparr>transporterMessagePool := p'\<rparr>)
        (set_conn cc c' (cm\<lparr>transporterMessagePool := p'\<rparr>))"
      by (rule cm_evolves_set_conn [OF cm_evolves_ok [OF e]]) (use ok that in simp_all)
  qed simp_all
  ultimately show ?thesis
    by (fastforce simp: sendPooled_def outcome_simps elim!: returns_mono)
qed

locale frame_sender =
  fixes fill :: "'x \<Rightarrow> TransporterMessage \<Rightarrow> (TransporterMessage \<times> error option) outcome"
    and command :: "'x \<Rightarrow> u32"
    and payload :: "'x \<Rightarrow> bytes"
    and short :: "'x \<Rightarrow> bool"
  assumes fill_fits: "wf_message m \<Longrightarrow> length (payload x) \<le> 0xF000 \<Longrightarrow>
      \<exists>m'. fill x m = Ret (m', None) \<and> holds_frame m' (command x) (payload x) \<and> sealed m'"
    and fill_too_long: "wf_message m \<Longrightarrow> length (payload x) > 0xF000 \<Longrightarrow> short x \<Longrightarrow>
      \<exists>m' e. fill x m = Ret (m', Some e) \<and> wf_message m' \<and> PayloadLength m' = PayloadLength m"
begin

lemma fill_keeps:
  assumes "message_class P" "short x" "P m"
  shows "returns (\<lambda>(m', e). P m' \<and> (e = None \<longrightarrow> clean_message m')) (fill x m)"
proof -
  have wf: "wf_message m" using message_class_wf assms(1,3) .
  show ?thesis
  proof (cases "length (payload x) \<le> 0xF000")
    case True
    from fill_fits [OF wf this] obtain m' where "fill x m = Ret (m', None)" "clean_message m'"
      by (auto simp: holds_frame_def clean_message_def)
    then show ?thesis using message_class_clean [OF assms(1)] by simp
  next
    case False
    with fill_too_long [OF wf _ assms(2)] message_class_same_length [OF assms(1,3)] show ?thesis
      by fastforce
  qed
qed

text \<open>Sending never panics and touches no other connection and no buffer in use.\<close>

lemma evolves:
  assumes "message_class P" "cm_ok P cm" "cc < length (clients cm)" "short x"
  shows "returns (\<lambda>(cm', e). cm_evolves P {cc} cm cm') (sendPooled cc (fill x) cm)"
  by (rule sendPooled_evolves [OF assms(2,3) fill_keeps [OF assms(1,4)]])

text \<open>
  What reaches an open connection is exactly the frame, whatever the recycled message held
  before; a payload that does not fit reaches nobody and is an error.
\<close>

lemma delivers_next:
  assumes "cm_ok wf_message cm" "cc < length (clients cm)" "writable (conn_of cc cm)"
    and "length (payload x) \<le> 0xF000"
  shows "\<exists>p m'. sendPooled cc (fill x) cm =
     Ret (set_conn cc ((conn_of cc cm)\<lparr>outbound :=
        outbound (conn_of cc cm) @ encode_frame (command x) (payload x)\<rparr>)
        (cm\<lparr>transporterMessagePool := p\<rparr>), None) \<and>
     good_pool wf_message p \<and> same_leases (transporterMessagePool cm) p \<and>
     next_message p m' \<and> holds_frame m' (command x) (payload x) \<and> sealed m'"
proof -
  let ?c = "conn_of cc cm"
  let ?c' = "?c\<lparr>outbound := outbound ?c @ encode_frame (command x) (payload x)\<rparr>"
  have pool: "good_pool wf_message (transporterMessagePool cm)" using assms(1) by (simp add: cm_ok_def)
  from withPooled_unfold [OF pool] obtain m a p1 where m: "wf_message m"
    "Obtain (transporterMessagePool cm) = Ret (p1, a)"
    "withPooled (transporterMessagePool cm) (\<lambda>e. (?c, Some e)) (\<lambda>m. write_filled (fill x m) ?c) =
      andThen (write_filled (fill x m) ?c) (\<lambda>(m', r). Ret (fst (Dispose a (store_data a m' p1)), r))"
    "\<forall>m'. wf_message m' \<longrightarrow> good_pool wf_message (fst (Dispose a (store_data a m' p1))) \<and>
        same_leases (transporterMessagePool cm) (fst (Dispose a (store_data a m' p1)))"
    by blast
  from fill_fits [OF m(1) assms(4)] obtain m' where m': "fill x m = Ret (m', None)"
    "holds_frame m' (command x) (payload x)" "sealed m'" by blast
  then have wire: "wire_bytes m' = encode_frame (command x) (payload x)" "wf_message m'" "payload_fits m'"
    using wire_bytes_encode [of m'] by (simp_all add: holds_frame_def)
  have "write_filled (fill x m) ?c = Ret (m', ?c', None)"
    using Write_writable [OF wire(2,3) assms(3)] wire(1) by (simp add: write_filled_def m'(1))
  then have "sendPooled cc (fill x) cm = Ret (set_conn cc ?c'
      (cm\<lparr>transporterMessagePool := fst (Dispose a (store_data a m' p1))\<rparr>), None)"
    by (simp add: sendPooled_def m(3))
  moreover have "next_message (fst (Dispose a (store_data a m' p1))) m'"
    using pool m(2) by (intro next_after_use) (simp_all add: good_pool_def)
  ultimately show ?thesis using m(4) wire(2) m'(2,3) by blast
qed

lemma delivers:
  assumes "cm_ok wf_message cm" "cc < length (clients cm)" "writable (conn_of cc cm)"
    and "length (payload x) \<le> 0xF000"
  shows "\<exists>p. sendPooled cc (fill x) cm =
     Ret (set_conn cc ((conn_of cc cm)\<lparr>outbound :=
        outbound (conn_of cc cm) @ encode_frame (command x) (payload x)\<rparr>)
        (cm\<lparr>transporterMessagePool := p\<rparr>), None) \<and>
     good_pool wf_message p \<and> same_leases (transporterMessagePool cm) p"
  using delivers_next [OF assms] by blast

lemma refused:
  assumes "cm_ok wf_message cm" "length (payload x) > 0xF000" "short x"
  shows "\<exists>p e. sendPooled cc (fill x) cm =
     Ret (set_conn cc (conn_of cc cm) (cm\<lparr>transporterMessagePool := p\<rparr>), Some e)"
proof -
  let ?c = "conn_of cc cm"
  have pool: "good_pool wf_message (transporterMessagePool cm)" using assms(1) by (simp add: cm_ok_def)
  from withPooled_unfold [OF pool] obtain m a p1 where m: "wf_message m"
    "withPooled (transporterMessagePool cm) (\<lambda>e. (?c, Some e)) (\<lambda>m. write_filled (fill x m) ?c) =
      andThen (write_filled (fill x m) ?c) (\<lambda>(m', r). Ret (fst (Dispose a (store_data a m' p1)), r))"
    by blast
  from fill_too_long [OF m(1) assms(2,3)] obtain m' e where "fill x m = Ret (m', Some e)" by blast
  then have "write_filled (fill x m) ?c = Ret (m', ?c, Some e)" by (simp add: write_filled_def)
  then show ?thesis by (simp add: sendPooled_def m(2)) blast
qed

end

section \<open>The senders keep the contract\<close>

lemma SetDirectCommand_fields [simp]:
  assumes "wf_message m"
  shows "wf_message (SetDirectCommand c m)" "Command (SetDirectCommand c m) = c"
    "PayloadLength (SetDirectCommand c m) = PayloadLength m"
  using assms
  by (simp_all add: SetDirectCommand_def Command_def PayloadLength_def commandBuffer_def
      payloadLengthBuffer_def write_at_def wf_message_def slice_put_at_same slice_put_at_after)

lemma PayloadLength_headerBuffer:
  assumes "headerBuffer m' = headerBuffer m"
  shows "PayloadLength m' = PayloadLength m"
proof -
  have "payloadLengthBuffer m = slice 4 8 (headerBuffer m)" for m
    by (simp add: payloadLengthBuffer_def headerBuffer_def slice_slice)
  then show ?thesis using assms by (simp add: PayloadLength_def)
qed

context payload_codec
begin

lemma command_then_set_fits:
  assumes "wf_message m" "length (layout d) \<le> 0xF000"
  shows "\<exists>m'. set_payload d (SetDirectCommand c m) = Ret (m', None) \<and>
     holds_frame m' c (layout d) \<and> sealed m'"
  using set_fits [of "SetDirectCommand c m" d] assms by simp

lemma command_then_set_too_long:
  assumes "wf_message m" "length (layout d) > 0xF000" "short d"
  shows "\<exists>m' e. set_payload d (SetDirectCommand c m) = Ret (m', Some e) \<and> wf_message m' \<and>
     PayloadLength m' = PayloadLength m"
proof -
  from set_too_long [of "SetDirectCommand c m" d] assms obtain m' n where
    "set_payload d (SetDirectCommand c m) = Ret (m', Some (ErrNoSpace 0xF000 n))" "wf_message m'"
    "headerBuffer m' = headerBuffer (SetDirectCommand c m)" by auto
  with PayloadLength_headerBuffer [OF this(3)] assms(1) show ?thesis by auto
qed

end

lemmas command_setter_defs = SetResponseCommand_def SetErrorResponseCommand_def

interpretation error_sender: frame_sender fill_error
  "\<lambda>(c, code, msg). c OR CommandErrorResponseMask"
  "\<lambda>(c, code, msg). enc_fields [FInt code, FStr msg]"
  "\<lambda>(c, code, msg). length msg < 0xFFFF0000"
proof (unfold_locales, goal_cases)
  case (1 m x)
  obtain c code msg where x: "x = (c, code, msg)" by (cases x)
  show ?case
    using error_payload.command_then_set_fits [OF 1(1), of "\<lparr>ErrorCode = code, ErrorMessage = msg\<rparr>"] 1
    by (simp add: fill_error_def command_setter_defs x)
next
  case (2 m x)
  obtain c code msg where x: "x = (c, code, msg)" by (cases x)
  show ?case
    using error_payload.command_then_set_too_long [OF 2(1), of "\<lparr>ErrorCode = code, ErrorMessage = msg\<rparr>"] 2
    by (simp add: fill_error_def command_setter_defs x)
qed

interpretation room_created_sender: frame_sender fill_room_created
  "\<lambda>roomId. CommandCreateRoom OR CommandResponseMask"
  "\<lambda>roomId. enc_fields [FStr roomId]" "\<lambda>roomId. length roomId < 0xFFFF0000"
proof (unfold_locales, goal_cases)
  case (1 m x)
  then show ?case
    using create_room_response.command_then_set_fits [OF 1(1), of "\<lparr>CreatedRoomId = x\<rparr>"]
    by (simp add: fill_room_created_def command_setter_defs)
next
  case (2 m x)
  then show ?case
    using create_room_response.command_then_set_too_long [OF 2(1), of "\<lparr>CreatedRoomId = x\<rparr>"]
    by (simp add: fill_room_created_def command_setter_defs)
qed

interpretation join_request_sender: frame_sender fill_join_request
  "\<lambda>(roomId, client, key). CommandJoinRoom"
  "\<lambda>(roomId, client, key). enc_fields [FStr roomId, FStr client, FStr (string_of_bytes key)]"
  "\<lambda>(roomId, client, key). length roomId < 0xFFFF0000 \<and> length client < 0xFFFF0000 \<and>
     length key < 0xFFFF0000"
proof (unfold_locales, goal_cases)
  case (1 m x)
  obtain roomId client key where x: "x = (roomId, client, key)" by (cases x)
  show ?case
    using connect_room.command_then_set_fits [OF 1(1), of "\<lparr>RoomId = roomId, JoinClientId = client, JoinPublicKey = key\<rparr>"] 1
    by (simp add: fill_join_request_def x)
next
  case (2 m x)
  obtain roomId client key where x: "x = (roomId, client, key)" by (cases x)
  show ?case
    using connect_room.command_then_set_too_long [OF 2(1), of "\<lparr>RoomId = roomId, JoinClientId = client, JoinPublicKey = key\<rparr>"] 2
    by (simp add: fill_join_request_def x)
qed

interpretation join_answer_sender: frame_sender fill_join_answer
  "\<lambda>(accepted, client, key). CommandJoinRoom OR CommandResponseMask"
  "\<lambda>(accepted, client, key). enc_fields [FInt accepted, FStr client, FStr (string_of_bytes key)]"
  "\<lambda>(accepted, client, key). length client < 0xFFFF0000 \<and> length key < 0xFFFF0000"
proof (unfold_locales, goal_cases)
  case (1 m x)
  obtain accepted client key where x: "x = (accepted, client, key)" by (cases x)
  show ?case
    using connect_room_result.command_then_set_fits [OF 1(1), of "\<lparr>Accepted = accepted, OwnerClientId = client, OwnerPublicKey = key\<rparr>"] 1
    by (simp add: fill_join_answer_def command_setter_defs x)
next
  case (2 m x)
  obtain accepted client key where x: "x = (accepted, client, key)" by (cases x)
  show ?case
    using connect_room_result.command_then_set_too_long [OF 2(1), of "\<lparr>Accepted = accepted, OwnerClientId = client, OwnerPublicKey = key\<rparr>"] 2
    by (simp add: fill_join_answer_def command_setter_defs x)
qed

lemma Send_evolves:
  assumes "cm_ok P cm" "cc < length (clients cm)" "clean_message m"
  shows "returns (\<lambda>(cm', e). cm_evolves P {cc} cm cm') (Send cc m cm)"
proof -
  have m: "wf_message m" "payload_fits m" using assms(3) by (simp_all add: clean_message_def)
  show ?thesis
    using Write_any [OF m, of "conn_of cc cm"] cm_evolves_set_conn [OF assms(1,2)]
    by (fastforce simp: Send_def outcome_simps elim!: returns_mono)
qed

end
