(* ===== verification/Reader.thy ===== *)
theory Reader
  imports Connection_Invariant
begin

text \<open>
  The goroutine of a connection: the handshake and the reads that follow keep the manager's
  invariant, hold their buffer exclusively while they use it, and return it or hand it over
  to the message channel.
\<close>

section \<open>A buffer that the goroutine holds\<close>

text \<open>
  \<open>held a cm cm'\<close>: the container \<open>a\<close>, idle in \<open>cm\<close>, is held by this goroutine in \<open>cm'\<close>; all other
  leases, the data behind them and the queued messages are those of \<open>cm\<close>.
\<close>

definition held :: "nat \<Rightarrow> ConnectionManager \<Rightarrow> ConnectionManager \<Rightarrow> bool" where
  "held a cm cm' \<longleftrightarrow> cm_ok wf_message cm \<and> cm_ok wf_message cm' \<and>
     uses (transporterMessagePool cm) a = 0 \<and>
     uses (transporterMessagePool cm') = (uses (transporterMessagePool cm))(a := 1) \<and>
     (\<forall>b. 0 < uses (transporterMessagePool cm) b \<longrightarrow>
        Data b (transporterMessagePool cm') = Data b (transporterMessagePool cm)) \<and>
     ClientMessageChannel cm' = ClientMessageChannel cm \<and>
     length (clients cm') = length (clients cm) \<and> listener cm' = listener cm"

lemma held_ok: "held a cm cm' \<Longrightarrow> cm_ok wf_message cm'"
  by (simp add: held_def)

lemma held_clients: "held a cm cm' \<Longrightarrow> length (clients cm') = length (clients cm)"
  by (simp add: held_def)

lemma cm_ok_pool:
  assumes "cm_ok P cm" "good_pool P p"
    and "\<forall>b. 0 < uses (transporterMessagePool cm) b \<longrightarrow>
      uses p b = uses (transporterMessagePool cm) b \<and> Data b p = Data b (transporterMessagePool cm)"
  shows "cm_ok P (cm\<lparr>transporterMessagePool := p\<rparr>)"
proof -
  have "registered_ok (cm\<lparr>transporterMessagePool := p\<rparr>) = registered_ok cm"
    by (simp add: registered_ok_def)
  moreover have "pending_ok cm mc \<Longrightarrow> pending_ok (cm\<lparr>transporterMessagePool := p\<rparr>) mc" for mc
    using assms(3) by (auto simp: pending_ok_def)
  ultimately show ?thesis using assms(1,2) by (simp add: cm_ok_def)
qed

lemma held_obtain:
  assumes "cm_ok wf_message cm"
  obtains p a m where "Obtain (transporterMessagePool cm) = Ret (p, a)" "Data a p = Inr m" "wf_message m"
    "held a cm (cm\<lparr>transporterMessagePool := p\<rparr>)"
proof -
  let ?p0 = "transporterMessagePool cm"
  have g: "pool_inv ?p0" "pool_all wf_message ?p0" using assms by (simp_all add: cm_ok_def good_pool_def)
  from Obtain_exclusive [OF g(1)] g(2) obtain p a where o: "Obtain ?p0 = Ret (p, a)" "pool_inv p"
    "pool_all wf_message p" "live p a" by blast
  from pooled.acquire [OF g(1)] o(1) have u: "uses ?p0 a = 0" "uses p a = 1"
    "\<forall>b. b \<noteq> a \<longrightarrow> uses p b = uses ?p0 b \<and> (0 < uses ?p0 b \<longrightarrow> Data b p = Data b ?p0)" by auto
  have d: "Data a p = Inr (pdata (objects p ! a))" by (rule Data_live [OF o(4)])
  have wf: "wf_message (pdata (objects p ! a))" by (rule pool_all_nth [OF o(3) live_length [OF o(4)]])
  have "\<forall>b. 0 < uses ?p0 b \<longrightarrow> uses p b = uses ?p0 b \<and> Data b p = Data b ?p0"
    using u(1,3) by (metis less_nat_zero_code)
  with cm_ok_pool [OF assms, of p] o u have "held a cm (cm\<lparr>transporterMessagePool := p\<rparr>)"
    using assms by (auto simp: held_def good_pool_def fun_eq_iff)
  with o(1) d wf show thesis by (rule that)
qed

lemma held_evolves:
  assumes "held a cm cm1" "cm_evolves wf_message W cm1 cm2"
  shows "held a cm cm2"
  using assms by (fastforce simp: held_def cm_evolves_def same_leases_def)

lemma store_data_good:
  assumes "good_pool P p" "0 < uses p a" "P m"
  shows "good_pool P (store_data a m p)" "uses (store_data a m p) = uses p"
    "Data a (store_data a m p) = Inr m"
    "\<And>b. b \<noteq> a \<Longrightarrow> 0 < uses p b \<Longrightarrow> Data b (store_data a m p) = Data b p"
proof -
  have g: "pool_inv p" "pool_all P p" using assms(1) by (simp_all add: good_pool_def)
  note s = pooled.store [OF g(1) assms(2), of m]
  have "a < length (objects p)" using assms(2) by (simp add: uses_def split: if_splits)
  then have "pool_all P (store_data a m p)"
    unfolding store_data_def using g(2) assms(3) by (intro pool_all_upd_object) simp_all
  with s show "good_pool P (store_data a m p)" "uses (store_data a m p) = uses p"
    "Data a (store_data a m p) = Inr m"
    "\<And>b. b \<noteq> a \<Longrightarrow> 0 < uses p b \<Longrightarrow> Data b (store_data a m p) = Data b p"
    by (simp_all add: good_pool_def)
qed

lemma held_store:
  assumes "held a cm cm1" "wf_message m"
  shows "held a cm (store_message a m cm1)"
    "Data a (transporterMessagePool (store_message a m cm1)) = Inr m"
proof -
  let ?p = "transporterMessagePool cm1"
  have h: "cm_ok wf_message cm1" "uses ?p a = 1" using assms(1) by (simp_all add: held_def)
  have g: "good_pool wf_message ?p" "0 < uses ?p a" using h by (simp_all add: cm_ok_def)
  note s = store_data_good [OF g assms(2)]
  have others: "b \<noteq> a" if "0 < uses (transporterMessagePool cm) b" for b
    using that assms(1) by (auto simp: held_def)
  let ?cm2 = "store_message a m cm1"
  have same: "conn_of b ?cm2 = conn_of b cm1" "GetClientId b ?cm2 = GetClientId b cm1"
    "length (clients ?cm2) = length (clients cm1)" for b
    by (simp_all add: store_message_def conn_of_def GetClientId_def)
  have "registered_ok ?cm2 = registered_ok cm1"
    by (simp add: registered_ok_def conn_of_def store_message_def)
  moreover have "pending_ok ?cm2 mc" if mc: "mc \<in> set (ClientMessageChannel cm1)" for mc
  proof -
    have "pending_ok cm mc" using mc assms(1) by (simp add: held_def cm_ok_def)
    then have "Message mc \<noteq> a" using others by (simp add: pending_ok_def)
    moreover have "pending_ok cm1 mc" using mc h(1) by (simp add: cm_ok_def)
    ultimately show ?thesis
      using s(2,4) by (simp add: pending_ok_def store_message_def)
  qed
  ultimately have "cm_ok wf_message ?cm2"
    using h(1) s(1) by (simp add: cm_ok_def same) (simp add: store_message_def)
  then show "held a cm ?cm2"
    using assms(1) others s(2,4) by (auto simp: held_def store_message_def)
  show "Data a (transporterMessagePool ?cm2) = Inr m"
    using s(3) by (simp add: store_message_def)
qed

lemma held_set_conn:
  assumes "held a cm cm1" "cc < length (clients cm)" "conn_closed c = conn_closed (conn_of cc cm1)"
  shows "held a cm (set_conn cc c cm1)"
  using assms cm_ok_set_conn [OF held_ok [OF assms(1)], of cc c] by (simp add: held_def)

lemma held_client_id:
  assumes "held a cm cm1" "cc < length (clients cm)" "length newId \<le> 8"
  shows "held a cm (upd_client cc (\<lambda>k. k\<lparr>clientId := newId\<rparr>) cm1)"
proof -
  let ?cm = "upd_client cc (\<lambda>k. k\<lparr>clientId := newId\<rparr>) cm1"
  have same: "conn_of b ?cm = conn_of b cm1"
    "GetClientId b ?cm = (if b = cc then newId else GetClientId b cm1)" for b
    using assms(2) held_clients [OF assms(1)]
    by (cases "b = cc"; simp add: conn_of_def GetClientId_def upd_client_def)+
  have "pending_ok ?cm mc = pending_ok cm1 mc" for mc by (simp add: pending_ok_def)
  moreover have "registered_ok ?cm = registered_ok cm1" by (simp add: registered_ok_def same)
  ultimately show ?thesis using assms(1,3) by (simp add: held_def cm_ok_def same)
qed

text \<open>Returning the buffer gives the state back with exactly the leases it had.\<close>

lemma held_dispose:
  assumes "held a cm cm1"
  shows "cm_ok wf_message (dispose_message a cm1)"
    "same_leases (transporterMessagePool cm) (transporterMessagePool (dispose_message a cm1))"
    "ClientMessageChannel (dispose_message a cm1) = ClientMessageChannel cm"
    "length (clients (dispose_message a cm1)) = length (clients cm)"
    "listener (dispose_message a cm1) = listener cm"
proof -
  let ?p = "transporterMessagePool cm1" and ?q = "transporterMessagePool cm"
  have h: "cm_ok wf_message cm1" "uses ?q a = 0" "uses ?p = (uses ?q)(a := 1)"
    "\<forall>b. 0 < uses ?q b \<longrightarrow> Data b ?p = Data b ?q" "ClientMessageChannel cm1 = ClientMessageChannel cm"
    using assms by (simp_all add: held_def)
  have h6: "\<forall>mc \<in> set (ClientMessageChannel cm). uses ?q (Message mc) = 1"
    using assms by (simp add: held_def cm_ok_def pending_ok_def)
  have inv: "pool_inv ?p" "pool_all wf_message ?p" "0 < uses ?p a"
    using h(1,3) by (simp_all add: cm_ok_def good_pool_def)
  note d = pooled.give_back [OF inv(1,3)]
  have all: "pool_all wf_message (fst (Dispose a ?p))"
    using Dispose_live(6) [OF inv(1) _ inv(2)] inv(3) by (simp add: uses_live)
  have others: "b \<noteq> a" if "0 < uses ?q b" for b using that h(2) by auto
  have uses: "uses (fst (Dispose a ?p)) = uses ?q"
    using d h(2,3) by (auto simp: fun_eq_iff)
  have data: "Data b (fst (Dispose a ?p)) = Data b ?q" if "0 < uses ?q b" for b
    using d h(3,4) that others [OF that] by auto
  have "registered_ok (dispose_message a cm1) = registered_ok cm1"
    by (simp add: registered_ok_def conn_of_def dispose_message_def)
  moreover have "pending_ok (dispose_message a cm1) mc" if mc: "mc \<in> set (ClientMessageChannel cm)" for mc
  proof -
    have "pending_ok cm1 mc" using mc h(1,5) by (simp add: cm_ok_def)
    moreover have "uses ?q (Message mc) = 1" using h6 mc by blast
    ultimately show ?thesis
      using uses data [of "Message mc"] h(4) by (simp add: pending_ok_def dispose_message_def)
  qed
  ultimately show "cm_ok wf_message (dispose_message a cm1)"
    using h(1,5) d all
    by (auto simp: cm_ok_def good_pool_def GetClientId_def dispose_message_def)
  show "same_leases ?q (transporterMessagePool (dispose_message a cm1))"
    using uses data by (simp add: same_leases_def dispose_message_def)
  show "ClientMessageChannel (dispose_message a cm1) = ClientMessageChannel cm"
    "length (clients (dispose_message a cm1)) = length (clients cm)"
    "listener (dispose_message a cm1) = listener cm"
    using assms by (simp_all add: held_def dispose_message_def)
qed

section \<open>The handshake\<close>

lemma Read_conn:
  "on_ret (\<lambda>(m', c', e). conn_closed c' = conn_closed c \<and> outbound c' = outbound c) (Read m c)"
  by (auto simp: Read_def Let_def outcome_simps split: prod.splits option.splits
      dest!: ReadFull_outbound intro!: on_retI)

lemma closing_evolves:
  assumes "cm_ok wf_message cm" "cc < length (clients cm)"
  shows "safe (\<lambda>(cm', ok). cm_evolves wf_message {} cm cm') (closing cc cm)"
  using internalClose_evolves [OF assms] by (simp add: closing_def outcome_simps)

lemma held_closing:
  assumes "held a cm cm1" "cc < length (clients cm)"
  shows "safe (\<lambda>(cm', ok). held a cm cm') (closing cc cm1)"
  using closing_evolves [OF held_ok [OF assms(1)], of cc] assms held_clients [OF assms(1)]
  by (auto elim!: safe_mono intro: held_evolves)

lemma length_mismatch_text: "length (mismatch_text v) < 0xFFFF0000"
  using length_decimal_u32 [of v] length_decimal_u32 [of ProtocolVersion]
  by (simp add: mismatch_text_def)

lemma held_mismatch:
  assumes "held a cm cm1" "cc < length (clients cm)"
  shows "safe (held a cm) (handleProtocolMismatchError cc v cm1)"
proof -
  let ?fill = "fill_error (CommandConnect, ErrorProtocolNotSupported, mismatch_text v)"
  have cc: "cc < length (clients cm1)" using assms held_clients [OF assms(1)] by simp
  have "returns (\<lambda>(cm', e). cm_evolves wf_message {cc} cm1 cm') (sendPooled cc ?fill cm1)"
    using length_mismatch_text
    by (intro error_sender.evolves held_ok [OF assms(1)] cc) simp_all
  then have "returns (\<lambda>(cm2, e). held a cm cm2 \<and> cc < length (clients cm2)) (sendPooled cc ?fill cm1)"
    by (rule returns_mono) (use assms held_evolves held_clients in fastforce)
  then show ?thesis
    unfolding handleProtocolMismatchError_def safe_andThen
  proof (rule safe_mono [OF returns_safe])
    fix x assume "case x of (cm2, e) \<Rightarrow> held a cm cm2 \<and> cc < length (clients cm2)"
    then obtain cm2 e where x: "x = (cm2, e)" "held a cm cm2" "cc < length (clients cm2)" by (cases x) auto
    from internalCloseClient_evolves [OF held_ok [OF x(2)] x(3)]
    have "safe (held a cm) (internalCloseClient cc cm2)"
      by (rule safe_mono) (use held_evolves [OF x(2)] in blast)
    then show "safe (held a cm) (case x of (cm, err) \<Rightarrow> internalCloseClient cc cm)" by (simp add: x(1))
  qed
qed

text \<open>Filling the connect response cannot fail: the id has eight characters.\<close>

lemma connect_response_fits:
  assumes "wf_message m" "length newId \<le> 8"
  obtains m1 where "SetPayloadConnectResponse \<lparr>ClientId = newId\<rparr> (SetResponseCommand CommandConnect m) = Ret (m1, None)"
    "holds_frame m1 (CommandConnect OR CommandResponseMask) (enc_fields [FStr newId])" "sealed m1"
  using connect_response.command_then_set_fits [OF assms(1), of "\<lparr>ClientId = newId\<rparr>"] assms(2) that
  by (fastforce simp: SetResponseCommand_def)

lemma held_Send:
  assumes "held a cm cm1" "cc < length (clients cm)" "clean_message m"
  shows "returns (\<lambda>(cm', e). held a cm cm') (Send cc m cm1)"
  using Send_evolves [OF held_ok [OF assms(1)] _ assms(3), of cc] assms held_clients [OF assms(1)]
  by (auto elim!: returns_mono intro: held_evolves)

lemma GenerateClientId_length: "GenerateClientId entropy = Ret (s, rest) \<Longrightarrow> length s = 8"
  using GenerateClientId_well_formed by (fastforce simp: well_formed_id_def)

lemma held_connect:
  assumes h: "held a cm cm1" and cc: "cc < length (clients cm)" and m: "clean_message m"
    and id: "GenerateClientId entropy = Ret (newId, rest)"
  shows "safe (\<lambda>(cm', ok). held a cm cm') (handleConnectHandshake entropy cc a m cm1)"
proof -
  have wf: "wf_message m" "payload_fits m" using m by (simp_all add: clean_message_def)
  obtain res where res: "GetPayloadConnect m = Ret res" using connect_payload.get_total [OF wf] by blast
  have short: "length newId \<le> 8" using GenerateClientId_length [OF id] by simp
  obtain m1 where m1: "SetPayloadConnectResponse \<lparr>ClientId = newId\<rparr>
      (SetResponseCommand CommandConnect m) = Ret (m1, None)"
    "holds_frame m1 (CommandConnect OR CommandResponseMask) (enc_fields [FStr newId])"
    by (rule connect_response_fits [OF wf(1) short])
  let ?cm2 = "store_message a m1 (upd_client cc (\<lambda>k. k\<lparr>clientId := newId\<rparr>) cm1)"
  have h2: "held a cm ?cm2"
    using held_store(1) [OF held_client_id [OF h cc]] m1(2) GenerateClientId_length [OF id]
    by (simp add: holds_frame_def)
  have "clean_message m1" using m1(2) by (simp add: holds_frame_def clean_message_def)
  from held_Send [OF h2 cc this]
  have sent: "returns (\<lambda>(cm', e). held a cm cm') (Send cc m1 ?cm2)" .
  then obtain cm3 e where cm3: "Send cc m1 ?cm2 = Ret (cm3, e)" "held a cm cm3"
    by (auto elim!: returnsE)
  have accepted: "safe (\<lambda>(cm', ok). held a cm cm') (case e of Some e' \<Rightarrow> closing cc cm3 | None \<Rightarrow> Ret (cm3, True))"
    using held_closing [OF cm3(2) cc] cm3(2) by (cases e) simp_all
  show ?thesis
  proof (cases res)
    case (Inl err)
    then show ?thesis using held_closing [OF h cc] by (simp add: handleConnectHandshake_def res)
  next
    case (Inr payload)
    show ?thesis
    proof (cases "ClientProtocolVersion payload = ProtocolVersion")
      case True
      with accepted show ?thesis
        by (simp add: handleConnectHandshake_def res Inr id Let_def m1(1) cm3(1))
    next
      case False
      with held_mismatch [OF h cc] show ?thesis
        by (simp add: handleConnectHandshake_def res Inr outcome_simps)
    qed
  qed
qed

text \<open>
  The handshake keeps the invariant on every input, whatever the peer sent, and gives the
  message pool back as it was.
\<close>

lemma performHandshake_keeps:
  assumes "cm_ok wf_message cm" "cc < length (clients cm)"
    and "GenerateClientId entropy = Ret (newId, rest)"
  shows "safe (\<lambda>(cm', ok). cm_ok wf_message cm' \<and>
     same_leases (transporterMessagePool cm) (transporterMessagePool cm') \<and>
     ClientMessageChannel cm' = ClientMessageChannel cm \<and> length (clients cm') = length (clients cm) \<and>
     listener cm' = listener cm) (performHandshake entropy cc cm)"
proof -
  obtain p a m where o: "Obtain (transporterMessagePool cm) = Ret (p, a)" "Data a p = Inr m" "wf_message m"
    "held a cm (cm\<lparr>transporterMessagePool := p\<rparr>)" by (rule held_obtain [OF assms(1)])
  let ?cm1 = "cm\<lparr>transporterMessagePool := p\<rparr>"
  from Read_returns [OF o(3), of "conn_of cc cm"] Read_conn [of "conn_of cc cm" m]
  obtain m1 c1 e where r: "Read m (conn_of cc cm) = Ret (m1, c1, e)" "wf_message m1"
    "e = None \<longrightarrow> payload_fits m1" "conn_closed c1 = conn_closed (conn_of cc cm)"
    by (auto elim!: returnsE)
  let ?cm2 = "store_message a m1 (set_conn cc c1 ?cm1)"
  have h: "held a cm ?cm2" by (intro held_store(1) held_set_conn o(4) assms(2)) (simp_all add: r)
  have "safe (\<lambda>(cm3, ok). held a cm cm3)
     (if e \<noteq> None then closing cc ?cm2
      else if Command m1 = CommandConnect then handleConnectHandshake entropy cc a m1 ?cm2
      else closing cc ?cm2)" (is "safe _ ?rest")
    using held_closing [OF h assms(2)] held_connect [OF h assms(2) _ assms(3), of m1] r(2,3)
    by (simp add: clean_message_def)
  then have "safe (\<lambda>(cm3, ok). cm_ok wf_message (dispose_message a cm3) \<and>
     same_leases (transporterMessagePool cm) (transporterMessagePool (dispose_message a cm3)) \<and>
     ClientMessageChannel (dispose_message a cm3) = ClientMessageChannel cm \<and>
     length (clients (dispose_message a cm3)) = length (clients cm) \<and>
     listener (dispose_message a cm3) = listener cm) ?rest"
    by (rule safe_mono) (use held_dispose in fastforce)
  moreover have "performHandshake entropy cc cm =
      andThen ?rest (\<lambda>(cm3, ok). Ret (dispose_message a cm3, ok))"
    by (simp add: performHandshake_def o(1,2) Let_def r(1))
  ultimately show ?thesis
    by (simp only: safe_andThen) (erule safe_mono, auto)
qed

section \<open>Reading messages\<close>

text \<open>
  The message channel after a read: unchanged, or extended by a message of this sender that
  holds an intact frame.  Either way the invariant holds.
\<close>

lemma readNextMessage_keeps:
  assumes "cm_ok wf_message cm" "cc < length (clients cm)"
  shows "safe (\<lambda>(cm', ok). cm_ok wf_message cm' \<and> length (clients cm') = length (clients cm) \<and>
     listener cm' = listener cm \<and>
     (if ok
      then \<exists>a. ClientMessageChannel cm' = ClientMessageChannel cm @ [\<lparr>Sender = cc, Message = a\<rparr>] \<and>
        uses (transporterMessagePool cm') = (uses (transporterMessagePool cm))(a := 1)
      else ClientMessageChannel cm' = ClientMessageChannel cm \<and>
        same_leases (transporterMessagePool cm) (transporterMessagePool cm')))
     (readNextMessage cc cm)"
proof -
  obtain p a m where o: "Obtain (transporterMessagePool cm) = Ret (p, a)" "Data a p = Inr m" "wf_message m"
    "held a cm (cm\<lparr>transporterMessagePool := p\<rparr>)" by (rule held_obtain [OF assms(1)])
  let ?cm1 = "cm\<lparr>transporterMessagePool := p\<rparr>"
  from Read_returns [OF o(3), of "conn_of cc cm"] Read_conn [of "conn_of cc cm" m]
  obtain m1 c1 e where r: "Read m (conn_of cc cm) = Ret (m1, c1, e)" "wf_message m1"
    "e = None \<longrightarrow> payload_fits m1" "conn_closed c1 = conn_closed (conn_of cc cm)"
    by (auto elim!: returnsE)
  let ?cm2 = "store_message a m1 (set_conn cc c1 ?cm1)"
  have hc: "held a cm (set_conn cc c1 ?cm1)"
    by (intro held_set_conn o(4) assms(2)) (simp add: r)
  note h = held_store(1) [OF hc r(2)] and d = held_store(2) [OF hc r(2)]
  show ?thesis
  proof (cases e)
    case (Some err)
    note k = held_dispose [OF h]
    have "safe (\<lambda>(cm', ok). cm_evolves wf_message {} (dispose_message a ?cm2) cm' \<and> \<not> ok)
        (closing cc (dispose_message a ?cm2))"
      using internalClose_evolves [OF k(1), of cc] k(4) assms(2)
      by (simp add: closing_def outcome_simps)
    then show ?thesis
      unfolding readNextMessage_def
      using k(2-5)
      by (auto simp: o(1,2) r(1) Let_def Some cm_evolves_def elim!: safe_mono
          intro: same_leases_trans)
  next
    case None
    let ?mc = "\<lparr>Sender = cc, Message = a\<rparr>"
    let ?cm3 = "?cm2\<lparr>ClientMessageChannel := ClientMessageChannel ?cm2 @ [?mc]\<rparr>"
    have k: "cm_ok wf_message ?cm2" "ClientMessageChannel ?cm2 = ClientMessageChannel cm"
      "uses (transporterMessagePool ?cm2) = (uses (transporterMessagePool cm))(a := 1)"
      "length (clients ?cm2) = length (clients cm)" "uses (transporterMessagePool cm) a = 0"
      "listener ?cm2 = listener cm"
      using h by (simp_all add: held_def)
    have fresh: "Message mc \<noteq> a" if "mc \<in> set (ClientMessageChannel cm)" for mc
      using that assms(1) k(5) by (auto simp: cm_ok_def pending_ok_def)
    have "pending_ok ?cm3 ?mc"
      using d r(2,3) None k(3,4) assms(2) by (simp add: pending_ok_def clean_message_def)
    moreover have "pending_ok ?cm3 mc = pending_ok ?cm2 mc" for mc by (simp add: pending_ok_def)
    moreover have "registered_ok ?cm3 = registered_ok ?cm2"
      by (simp add: registered_ok_def conn_of_def)
    ultimately have "cm_ok wf_message ?cm3"
      using k(1,2) fresh by (auto simp: cm_ok_def GetClientId_def)
    with k show ?thesis
      by (simp add: readNextMessage_def o(1,2) r(1) Let_def None)
  qed
qed

end
