(* ===== verification/Room_Manager.thy ===== *)
theory Room_Manager
  imports Reader
begin

text \<open>
  \<open>transporter/manager/roomManager\<close>: the rooms and the handlers of the messages the clients
  send.  \<open>*roomData\<close> pointers are indices into \<open>roomStore\<close>; \<open>rooms\<close> is the manager's slice of
  them, in order of creation.  The handlers run on one goroutine, so each is one step.  A
  handler's logging is left out; entropy for a new room id is an argument.
\<close>

section \<open>State\<close>

record roomData =
  roomId :: string
  owner :: nat
  guest :: "nat option"

record RoomManager =
  connectionManager :: ConnectionManager
  roomStore :: "roomData list"
  rooms :: "nat list"

definition CreateRoomManager :: "ConnectionManager \<Rightarrow> RoomManager" where
  "CreateRoomManager cm = \<lparr>connectionManager = cm, roomStore = [], rooms = []\<rparr>"

definition room_at :: "nat \<Rightarrow> RoomManager \<Rightarrow> roomData" where
  "room_at r rm = roomStore rm ! r"

definition set_guest :: "nat \<Rightarrow> nat option \<Rightarrow> RoomManager \<Rightarrow> RoomManager" where
  "set_guest r g rm = rm\<lparr>roomStore := (roomStore rm)[r := (room_at r rm)\<lparr>guest := g\<rparr>]\<rparr>"

definition on_connections ::
  "(ConnectionManager \<Rightarrow> (ConnectionManager \<times> 'r) outcome) \<Rightarrow> RoomManager \<Rightarrow> (RoomManager \<times> 'r) outcome" where
  "on_connections f rm =
     andThen (f (connectionManager rm)) (\<lambda>(cm, r). Ret (rm\<lparr>connectionManager := cm\<rparr>, r))"

definition close_client :: "nat \<Rightarrow> RoomManager \<Rightarrow> RoomManager outcome" where
  "close_client cc rm =
     andThen (Close cc (connectionManager rm)) (\<lambda>cm. Ret (rm\<lparr>connectionManager := cm\<rparr>))"

text \<open>\<open>if err := ...; err != nil { k }\<close>.\<close>

definition on_error :: "('s \<times> error option) outcome \<Rightarrow> ('s \<Rightarrow> 's outcome) \<Rightarrow> 's outcome" where
  "on_error r k = andThen r (\<lambda>(s, err). case err of Some e \<Rightarrow> k s | None \<Rightarrow> Ret s)"

section \<open>Finding rooms\<close>

definition findRoomById :: "string \<Rightarrow> RoomManager \<Rightarrow> nat option" where
  "findRoomById i rm = find (\<lambda>r. roomId (room_at r rm) = i) (rooms rm)"

definition findRoomByOwner :: "nat \<Rightarrow> RoomManager \<Rightarrow> nat option" where
  "findRoomByOwner cc rm = find (\<lambda>r. owner (room_at r rm) = cc) (rooms rm)"

definition findRoomByParticipant :: "nat \<Rightarrow> RoomManager \<Rightarrow> nat option" where
  "findRoomByParticipant cc rm =
     find (\<lambda>r. owner (room_at r rm) = cc \<or> guest (room_at r rm) = Some cc) (rooms rm)"

definition isClientInARoom :: "nat \<Rightarrow> RoomManager \<Rightarrow> bool" where
  "isClientInARoom cc rm \<longleftrightarrow> findRoomByParticipant cc rm \<noteq> None"

section \<open>Handlers\<close>

definition closeRoom :: "nat \<Rightarrow> RoomManager \<Rightarrow> RoomManager outcome" where
  "closeRoom r rm =
     andThen (close_client (owner (room_at r rm)) rm) (\<lambda>rm1.
     andThen (case guest (room_at r rm1) of None \<Rightarrow> Ret rm1 | Some g \<Rightarrow> close_client g rm1) (\<lambda>rm2.
     Ret (rm2\<lparr>rooms := remove1 r (rooms rm2)\<rparr>)))"

definition handleCreateRoom :: "bytes \<Rightarrow> nat \<Rightarrow> RoomManager \<Rightarrow> RoomManager outcome" where
  "handleCreateRoom entropy sender rm =
     (if isClientInARoom sender rm
      then on_error (on_connections (SendErrorResponse sender CommandCreateRoom ErrorAlreadyInRoom
                       ''You already occupy a room'') rm)
             (close_client sender)
      else andThen (GenerateClientId entropy) (\<lambda>(newId, _).
        let rm1 = rm\<lparr>roomStore := roomStore rm @ [\<lparr>roomId = newId, owner = sender, guest = None\<rparr>],
                     rooms := rooms rm @ [length (roomStore rm)]\<rparr> in
        on_error (on_connections (SendRoomCreateResponse sender newId) rm1) (close_client sender)))"

definition room_not_found_text :: "string \<Rightarrow> string" where
  "room_not_found_text i = ''Room not found with this id: '' @ i"

definition handleJoinRoom :: "nat \<Rightarrow> string \<Rightarrow> bytes \<Rightarrow> RoomManager \<Rightarrow> RoomManager outcome" where
  "handleJoinRoom sender joinId guestPublicKey rm =
     (case findRoomById joinId rm of
        None \<Rightarrow> on_error (on_connections (SendErrorResponse sender CommandJoinRoom ErrorRoomNotFound
                   (room_not_found_text joinId)) rm)
                 (close_client sender)
      | Some r \<Rightarrow>
          if guest (room_at r rm) \<noteq> None
          then on_error (on_connections (SendErrorResponse sender CommandJoinRoom ErrorFull
                 ''This room already has a guest; only one guest is allowed per room'') rm)
                 (close_client sender)
          else
            let rm1 = set_guest r (Some sender) rm in
            on_error (on_connections (SendJoinRoomRequest (owner (room_at r rm1)) joinId
                        (GetClientId sender (connectionManager rm1)) guestPublicKey) rm1)
              (\<lambda>rm2. andThen (on_connections (SendErrorResponse sender CommandJoinRoom ErrorUnknown
                  ''Couldn't send the join request to the room owner, closing down the room'') rm2)
                (\<lambda>(rm3, _). closeRoom r rm3)))"

definition handleJoinRoomResponse :: "nat \<Rightarrow> int \<Rightarrow> bytes \<Rightarrow> RoomManager \<Rightarrow> RoomManager outcome" where
  "handleJoinRoomResponse sender isAccepted ownerPublicKey rm =
     (case findRoomByOwner sender rm of
        None \<Rightarrow> on_error (on_connections (SendErrorResponse sender CommandJoinRoom ErrorRoomNotFound
                   ''No room found where the sender is the owner'') rm)
                 (close_client sender)
      | Some r \<Rightarrow>
        (case guest (room_at r rm) of
           None \<Rightarrow> on_error (on_connections (SendErrorResponse sender CommandJoinRoom ErrorNoParticipant
                     ''You are in an empty room'') rm)
                    (closeRoom r)
         | Some g \<Rightarrow>
           andThen (on_connections (SendJoinRoomResponse g isAccepted
                      (GetClientId sender (connectionManager rm)) ownerPublicKey) rm) (\<lambda>(rm1, err).
           if err \<noteq> None
           then andThen (close_client g rm1) (\<lambda>rm2.
             on_error (on_connections (SendErrorResponse sender CommandJoinRoom ErrorNoParticipant
                 ''participant disconnected during the response sending, the room is waiting for another participant'')
                 (set_guest r None rm2))
               (closeRoom r))
           else if isAccepted = 0 then Ret (set_guest r None rm1)
           else Ret rm1)))"

definition other_participant :: "nat \<Rightarrow> roomData \<Rightarrow> nat option" where
  "other_participant sender rd = (if owner rd = sender then guest rd else Some (owner rd))"

definition handleAdbTransport :: "nat \<Rightarrow> TransporterMessage \<Rightarrow> RoomManager \<Rightarrow> RoomManager outcome" where
  "handleAdbTransport sender message rm =
     (case findRoomByParticipant sender rm of
        None \<Rightarrow> Ret rm
      | Some r \<Rightarrow>
        (case other_participant sender (room_at r rm) of
           None \<Rightarrow> Ret rm
         | Some other \<Rightarrow>
             andThen (on_connections (Send other message) rm) (\<lambda>(rm1, _). Ret rm1)))"

definition handleClientDisconnected :: "nat \<Rightarrow> RoomManager \<Rightarrow> RoomManager outcome" where
  "handleClientDisconnected client rm =
     (case findRoomByParticipant client rm of
        None \<Rightarrow> Ret rm
      | Some r \<Rightarrow>
        if owner (room_at r rm) = client then closeRoom r rm
        else if guest (room_at r rm) = Some client
        then andThen (close_client client rm) (\<lambda>rm1.
          let rm2 = set_guest r None rm1 in
          andThen (on_connections (SendGuestLeft (owner (room_at r rm2))) rm2) (\<lambda>(rm3, _). Ret rm3))
        else Ret rm)"

section \<open>Dispatching\<close>

definition dispose_of :: "nat \<Rightarrow> RoomManager \<Rightarrow> RoomManager" where
  "dispose_of a rm = rm\<lparr>connectionManager := dispose_message a (connectionManager rm)\<rparr>"

definition reject_payload :: "nat \<Rightarrow> u32 \<Rightarrow> RoomManager \<Rightarrow> RoomManager outcome" where
  "reject_payload sender command rm =
     on_error (on_connections (SendInvalidPayloadError sender command) rm) (close_client sender)"

definition handle_message :: "bytes \<Rightarrow> nat \<Rightarrow> TransporterMessage \<Rightarrow> RoomManager \<Rightarrow> RoomManager outcome" where
  "handle_message entropy sender message rm =
     (if Command message = CommandCreateRoom then handleCreateRoom entropy sender rm
      else if Command message = CommandJoinRoom then
        andThen (GetPayloadConnectRoom message) (\<lambda>res.
          case res of Inl e \<Rightarrow> reject_payload sender (Command message) rm
          | Inr payload \<Rightarrow> handleJoinRoom sender (RoomId payload) (JoinPublicKey payload) rm)
      else if Command message = (CommandJoinRoom OR CommandResponseMask) then
        andThen (GetPayloadConnectRoomResponse message) (\<lambda>res.
          case res of Inl e \<Rightarrow> reject_payload sender (Command message) rm
          | Inr payload \<Rightarrow> handleJoinRoomResponse sender (Accepted payload) (OwnerPublicKey payload) rm)
      else if Command message = CommandAdbTransport then handleAdbTransport sender message rm
      else Ret rm)"

definition dispatchMessage :: "bytes \<Rightarrow> ClientMessageContainer \<Rightarrow> RoomManager \<Rightarrow> RoomManager outcome" where
  "dispatchMessage entropy mc rm =
     andThen (case Data (Message mc) (transporterMessagePool (connectionManager rm)) of
                Inl e \<Rightarrow> Ret rm
              | Inr message \<Rightarrow> handle_message entropy (Sender mc) message rm)
       (\<lambda>rm1. Ret (dispose_of (Message mc) rm1))"

section \<open>The invariant\<close>

text \<open>
  Every room has an owner and at most one guest, all accepted connections; room ids have
  eight characters; and no connection owns two rooms.
\<close>

definition room_ok :: "RoomManager \<Rightarrow> nat \<Rightarrow> bool" where
  "room_ok rm r \<longleftrightarrow> r < length (roomStore rm) \<and>
     owner (room_at r rm) < length (clients (connectionManager rm)) \<and>
     pred_option (\<lambda>g. g < length (clients (connectionManager rm))) (guest (room_at r rm)) \<and>
     length (roomId (room_at r rm)) = 8"

definition rooms_ok :: "RoomManager \<Rightarrow> bool" where
  "rooms_ok rm \<longleftrightarrow> (\<forall>r \<in> set (rooms rm). room_ok rm r) \<and> distinct (rooms rm) \<and>
     distinct (map (\<lambda>r. owner (room_at r rm)) (rooms rm))"

definition rm_ok :: "(TransporterMessage \<Rightarrow> bool) \<Rightarrow> RoomManager \<Rightarrow> bool" where
  "rm_ok P rm \<longleftrightarrow> cm_ok P (connectionManager rm) \<and> rooms_ok rm"

text \<open>\<open>rm_evolves P W rm rm'\<close>: a handler's effect, with bytes sent at most to \<open>W\<close>.\<close>

definition rm_evolves :: "(TransporterMessage \<Rightarrow> bool) \<Rightarrow> nat set \<Rightarrow> RoomManager \<Rightarrow> RoomManager \<Rightarrow> bool" where
  "rm_evolves P W rm rm' \<longleftrightarrow> rooms_ok rm' \<and>
     cm_evolves P W (connectionManager rm) (connectionManager rm')"

lemma rm_evolves_refl: "rm_ok P rm \<Longrightarrow> rm_evolves P W rm rm"
  by (simp add: rm_evolves_def rm_ok_def)

lemma rm_evolves_ok: "rm_evolves P W rm rm' \<Longrightarrow> rm_ok P rm'"
  using cm_evolves_ok by (auto simp: rm_evolves_def rm_ok_def)

lemma rm_evolves_trans:
  "rm_evolves P V rm rm1 \<Longrightarrow> rm_evolves P W rm1 rm2 \<Longrightarrow> V \<subseteq> U \<Longrightarrow> W \<subseteq> U \<Longrightarrow> rm_evolves P U rm rm2"
  using cm_evolves_trans by (auto simp: rm_evolves_def)

lemma rm_evolves_clients:
  "rm_evolves P W rm rm' \<Longrightarrow> length (clients (connectionManager rm')) = length (clients (connectionManager rm))"
  using cm_evolves_clients by (auto simp: rm_evolves_def)

lemma rooms_ok_connections [simp]:
  "length (clients cm) = length (clients (connectionManager rm)) \<Longrightarrow>
   rooms_ok (rm\<lparr>connectionManager := cm\<rparr>) = rooms_ok rm"
  by (simp add: rooms_ok_def room_ok_def room_at_def)

lemma room_at_connections [simp]: "room_at r (rm\<lparr>connectionManager := cm\<rparr>) = room_at r rm"
  by (simp add: room_at_def)

lemma on_connections_evolves:
  assumes "rm_ok P rm" "returns (\<lambda>(cm', e). cm_evolves P W (connectionManager rm) cm') (f (connectionManager rm))"
  shows "returns (\<lambda>(rm', e). rm_evolves P W rm rm' \<and> roomStore rm' = roomStore rm \<and> rooms rm' = rooms rm)
    (on_connections f rm)"
  using assms
  by (auto simp: on_connections_def outcome_simps rm_evolves_def rm_ok_def cm_evolves_clients
      elim!: returns_mono)

lemma close_client_evolves:
  assumes "rm_ok P rm" "cc < length (clients (connectionManager rm))"
  shows "safe (\<lambda>rm'. rm_evolves P {} rm rm' \<and> roomStore rm' = roomStore rm \<and> rooms rm' = rooms rm)
    (close_client cc rm)"
  using Close_evolves [of P "connectionManager rm" cc] assms
  by (auto simp: close_client_def outcome_simps rm_evolves_def rm_ok_def cm_evolves_clients
      elim!: safe_mono)

lemma rooms_ok_remove:
  "rooms_ok rm \<Longrightarrow> rooms_ok (rm\<lparr>rooms := remove1 r (rooms rm)\<rparr>)"
  using set_remove1_subset [of r "rooms rm"]
  by (auto simp: rooms_ok_def room_ok_def room_at_def distinct_map
      intro: inj_on_subset)

lemma room_at_set_guest:
  "r < length (roomStore rm) \<Longrightarrow> room_at q (set_guest r g rm) =
     (if q = r then (room_at r rm)\<lparr>guest := g\<rparr> else room_at q rm)"
  by (simp add: room_at_def set_guest_def)

lemma set_guest_simps [simp]:
  "connectionManager (set_guest r g rm) = connectionManager rm"
  "rooms (set_guest r g rm) = rooms rm"
  "length (roomStore (set_guest r g rm)) = length (roomStore rm)"
  by (simp_all add: set_guest_def)

lemma rooms_ok_set_guest:
  assumes "rooms_ok rm" "r \<in> set (rooms rm)"
    and "pred_option (\<lambda>c. c < length (clients (connectionManager rm))) g"
  shows "rooms_ok (set_guest r g rm)"
proof -
  have r: "r < length (roomStore rm)" using assms(1,2) by (simp add: rooms_ok_def room_ok_def)
  then have "owner (room_at q (set_guest r g rm)) = owner (room_at q rm)" for q
    by (simp add: room_at_set_guest)
  then show ?thesis
    using assms r by (auto simp: rooms_ok_def room_ok_def room_at_set_guest)
qed

lemma find_in: "find Q xs = Some r \<Longrightarrow> r \<in> set xs \<and> Q r"
  by (auto simp: find_Some_iff)

lemma find_none: "find Q xs = None \<Longrightarrow> r \<in> set xs \<Longrightarrow> \<not> Q r"
  by (simp add: find_None_iff)

lemma rooms_ok_room: "rooms_ok rm \<Longrightarrow> r \<in> set (rooms rm) \<Longrightarrow> room_ok rm r"
  by (simp add: rooms_ok_def)

end
