(* ===== verification/Room_Safety.thy ===== *)
theory Room_Safety
  imports Room_Manager
begin

text \<open>
  Every handler of the room manager keeps the invariant and never panics, whatever message
  the client sent: one lemma per handler, then the dispatcher.  The lemmas are stated for
  both classes of pool messages; only \<open>handleClientDisconnected\<close>, which sends a recycled
  message as it is, needs the stronger one.
\<close>

section \<open>Composition\<close>

lemma on_error_safe:
  assumes "returns (\<lambda>(s, e). Q s) r" "\<And>s. Q s \<Longrightarrow> safe R (k s)" "\<And>s. Q s \<Longrightarrow> R s"
  shows "safe R (on_error r k)"
proof -
  obtain s e where "r = Ret (s, e)" "Q s" using assms(1) by (auto elim!: returnsE)
  then show ?thesis using assms(2,3) by (cases e) (simp_all add: on_error_def)
qed

lemma safe_if: "(b \<Longrightarrow> safe Q x) \<Longrightarrow> (\<not> b \<Longrightarrow> safe Q y) \<Longrightarrow> safe Q (if b then x else y)"
  by simp

lemma safe_step:
  assumes "safe Q r" "\<And>s. Q s \<Longrightarrow> safe R (k s)"
  shows "safe R (andThen r k)"
  using assms by (cases r) simp_all

text \<open>Continuing after a first effect.\<close>

lemma rm_evolves_then:
  assumes "rm_evolves P V rm rm1" "safe (rm_evolves P W rm1) r" "V \<subseteq> U" "W \<subseteq> U"
  shows "safe (rm_evolves P U rm) r"
  using assms(2) by (rule safe_mono) (rule rm_evolves_trans [OF assms(1) _ assms(3,4)])

text \<open>
  What the senders and \<open>Close\<close> do to a room manager: an effect on the connections alone.
\<close>

definition conn_effect :: "(TransporterMessage \<Rightarrow> bool) \<Rightarrow> nat set \<Rightarrow> RoomManager \<Rightarrow> RoomManager \<Rightarrow> bool" where
  "conn_effect P W rm rm' \<longleftrightarrow> rm_evolves P W rm rm' \<and> roomStore rm' = roomStore rm \<and> rooms rm' = rooms rm"

lemma conn_effect_evolves: "conn_effect P W rm rm' \<Longrightarrow> W \<subseteq> U \<Longrightarrow> rm_evolves P U rm rm'"
  using rm_evolves_trans [of P W rm rm' "{}" rm' U] rm_evolves_refl rm_evolves_ok
  by (fastforce simp: conn_effect_def)

lemma conn_effect_ok: "conn_effect P W rm rm' \<Longrightarrow> rm_ok P rm'"
  using rm_evolves_ok by (auto simp: conn_effect_def)

lemma conn_effect_room: "conn_effect P W rm rm' \<Longrightarrow> room_at r rm' = room_at r rm"
  by (simp add: conn_effect_def room_at_def)

lemma conn_effect_rooms: "conn_effect P W rm rm' \<Longrightarrow> rooms rm' = rooms rm"
  by (simp add: conn_effect_def)

lemma conn_effect_clients: "conn_effect P W rm rm' \<Longrightarrow>
  length (clients (connectionManager rm')) = length (clients (connectionManager rm))"
  using rm_evolves_clients by (auto simp: conn_effect_def)

lemmas conn_effects = conn_effect_ok conn_effect_room conn_effect_rooms conn_effect_clients

lemma conn_effect_trans:
  "conn_effect P V rm rm1 \<Longrightarrow> conn_effect P W rm1 rm2 \<Longrightarrow> V \<subseteq> U \<Longrightarrow> W \<subseteq> U \<Longrightarrow> conn_effect P U rm rm2"
  using rm_evolves_trans by (fastforce simp: conn_effect_def)

lemma client_of:
  "rm_ok P rm \<Longrightarrow> cc < length (clients (connectionManager rm)) \<Longrightarrow>
   length (GetClientId cc (connectionManager rm)) \<le> 8"
  by (simp add: rm_ok_def cm_ok_def)

section \<open>Sending and closing from a handler\<close>

lemma error_sent:
  assumes "message_class P" "rm_ok P rm" "cc < length (clients (connectionManager rm))"
    and "length msg < 0xFFFF0000"
  shows "returns (\<lambda>(rm', e). conn_effect P {cc} rm rm')
    (on_connections (SendErrorResponse cc command code msg) rm)"
  using on_connections_evolves [OF assms(2), of "{cc}" "SendErrorResponse cc command code msg"]
    error_sender.evolves [OF assms(1), of "connectionManager rm" cc "(command, code, msg)"] assms
  by (simp add: SendErrorResponse_def conn_effect_def rm_ok_def)

lemma closed:
  assumes "rm_ok P rm" "cc < length (clients (connectionManager rm))"
  shows "safe (conn_effect P {} rm) (close_client cc rm)"
  using close_client_evolves [OF assms] by (simp add: conn_effect_def [abs_def])

lemma error_or_close:
  assumes "message_class P" "rm_ok P rm" "cc < length (clients (connectionManager rm))"
    and "length msg < 0xFFFF0000"
  shows "safe (conn_effect P {cc} rm)
    (on_error (on_connections (SendErrorResponse cc command code msg) rm) (close_client cc))"
proof (rule on_error_safe [OF error_sent [OF assms]])
  fix rm1 assume e: "conn_effect P {cc} rm rm1"
  have "safe (conn_effect P {} rm1) (close_client cc rm1)"
    using assms(3) conn_effects [OF e] by (intro closed) simp_all
  then show "safe (conn_effect P {cc} rm) (close_client cc rm1)"
    by (rule safe_mono) (erule conn_effect_trans [OF e], simp_all)
qed

lemma error_or_close_evolves:
  assumes "message_class P" "rm_ok P rm" "cc < length (clients (connectionManager rm))"
    and "length msg < 0xFFFF0000" "cc \<in> W"
  shows "safe (rm_evolves P W rm)
    (on_error (on_connections (SendErrorResponse cc command code msg) rm) (close_client cc))"
  using error_or_close [OF assms(1-4)] by (rule safe_mono) (erule conn_effect_evolves, simp add: assms)

lemma reject_payload_safe:
  assumes "message_class P" "rm_ok P rm" "cc < length (clients (connectionManager rm))"
  shows "safe (rm_evolves P {cc} rm) (reject_payload cc command rm)"
  using error_or_close_evolves [OF assms, of "''Invalid command payload''" "{cc}" command ErrorInvalidPayload]
  by (simp add: reject_payload_def SendInvalidPayloadError_def SendErrorResponse_def)

section \<open>The handlers\<close>

lemma closeRoom_safe:
  assumes "rm_ok P rm" "r \<in> set (rooms rm)"
  shows "safe (\<lambda>rm'. rm_evolves P {} rm rm' \<and> rooms rm' = remove1 r (rooms rm)) (closeRoom r rm)"
  unfolding closeRoom_def
proof (rule safe_step)
  have r: "room_ok rm r" using assms by (simp add: rm_ok_def rooms_ok_room)
  show "safe (conn_effect P {} rm) (close_client (owner (room_at r rm)) rm)"
    using r by (intro closed [OF assms(1)]) (simp add: room_ok_def)
  fix rm1 assume e1: "conn_effect P {} rm rm1"
  show "safe (\<lambda>rm'. rm_evolves P {} rm rm' \<and> rooms rm' = remove1 r (rooms rm))
    (andThen (case guest (room_at r rm1) of None \<Rightarrow> Ret rm1 | Some g \<Rightarrow> close_client g rm1)
       (\<lambda>rm2. Ret (rm2\<lparr>rooms := remove1 r (rooms rm2)\<rparr>)))"
  proof (rule safe_step)
    have "safe (conn_effect P {} rm) (close_client g rm1)" if "guest (room_at r rm1) = Some g" for g
    proof -
      have "safe (conn_effect P {} rm1) (close_client g rm1)"
        using r that conn_effects [OF e1] by (intro closed) (simp_all add: room_ok_def)
      then show ?thesis by (rule safe_mono) (erule conn_effect_trans [OF e1], simp_all)
    qed
    with e1 show "safe (conn_effect P {} rm)
      (case guest (room_at r rm1) of None \<Rightarrow> Ret rm1 | Some g \<Rightarrow> close_client g rm1)"
      by (simp split: option.splits)
    fix rm2 assume e2: "conn_effect P {} rm rm2"
    then have "rooms_ok (rm2\<lparr>rooms := remove1 r (rooms rm2)\<rparr>)"
      by (intro rooms_ok_remove) (simp add: conn_effect_def rm_evolves_def)
    with e2 show "safe (\<lambda>rm'. rm_evolves P {} rm rm' \<and> rooms rm' = remove1 r (rooms rm))
        (Ret (rm2\<lparr>rooms := remove1 r (rooms rm2)\<rparr>))"
      by (simp add: conn_effect_def rm_evolves_def)
  qed
qed

lemma closeRoom_evolves:
  "rm_ok P rm \<Longrightarrow> r \<in> set (rooms rm) \<Longrightarrow> safe (rm_evolves P {} rm) (closeRoom r rm)"
  using closeRoom_safe by (rule safe_mono) auto

lemma rooms_ok_add:
  assumes "rooms_ok rm" "findRoomByParticipant cc rm = None" "length newId = 8"
    and "cc < length (clients (connectionManager rm))"
  shows "rooms_ok (rm\<lparr>roomStore := roomStore rm @ [\<lparr>roomId = newId, owner = cc, guest = None\<rparr>],
                     rooms := rooms rm @ [length (roomStore rm)]\<rparr>)"
proof -
  let ?rm = "rm\<lparr>roomStore := roomStore rm @ [\<lparr>roomId = newId, owner = cc, guest = None\<rparr>],
                     rooms := rooms rm @ [length (roomStore rm)]\<rparr>"
  have old: "r < length (roomStore rm)" "room_at r ?rm = room_at r rm" "owner (room_at r rm) \<noteq> cc"
    if "r \<in> set (rooms rm)" for r
    using that assms(1) find_none [OF assms(2) [unfolded findRoomByParticipant_def] that]
    by (auto simp: rooms_ok_def room_ok_def room_at_def nth_append)
  have new: "room_at (length (roomStore rm)) ?rm = \<lparr>roomId = newId, owner = cc, guest = None\<rparr>"
    by (simp add: room_at_def)
  have owners: "map (\<lambda>r. owner (room_at r ?rm)) (rooms rm) = map (\<lambda>r. owner (room_at r rm)) (rooms rm)"
    using old(2) by (intro map_cong) auto
  have ok: "room_ok ?rm r" if "r \<in> set (rooms rm)" for r
    using rooms_ok_room [OF assms(1) that] old(1,2) [OF that] by (simp add: room_ok_def)
  have "room_ok ?rm (length (roomStore rm))"
    using assms(3,4) by (simp add: room_ok_def new)
  with ok have all: "\<forall>r \<in> set (rooms ?rm). room_ok ?rm r" by simp
  have rooms: "distinct (rooms ?rm)" using assms(1) old(1) by (auto simp: rooms_ok_def)
  have fresh: "cc \<notin> (\<lambda>r. owner (room_at r rm)) ` set (rooms rm)" using old(3) by blast
  have eq: "map (\<lambda>r. owner (room_at r ?rm)) (rooms ?rm) = map (\<lambda>r. owner (room_at r rm)) (rooms rm) @ [cc]"
    using owners new by simp
  have "distinct (map (\<lambda>r. owner (room_at r ?rm)) (rooms ?rm))"
    unfolding eq using assms(1) fresh by (simp add: rooms_ok_def)
  with rooms all show ?thesis by (simp only: rooms_ok_def)
qed

lemma handleCreateRoom_safe:
  assumes "message_class P" "rm_ok P rm" "cc < length (clients (connectionManager rm))"
    and "GenerateClientId entropy = Ret (newId, rest)"
  shows "safe (rm_evolves P {cc} rm) (handleCreateRoom entropy cc rm)"
proof (cases "isClientInARoom cc rm")
  case True
  with error_or_close_evolves [OF assms(1-3)] show ?thesis by (simp add: handleCreateRoom_def)
next
  case False
  let ?rm1 = "rm\<lparr>roomStore := roomStore rm @ [\<lparr>roomId = newId, owner = cc, guest = None\<rparr>],
                     rooms := rooms rm @ [length (roomStore rm)]\<rparr>"
  have len: "length newId = 8" by (rule GenerateClientId_length [OF assms(4)])
  have "rooms_ok ?rm1"
    using assms(2,3) len False by (intro rooms_ok_add) (simp_all add: rm_ok_def isClientInARoom_def)
  then have ok: "rm_ok P ?rm1" and ev: "rm_evolves P {} rm ?rm1"
    using assms(2) by (simp_all add: rm_ok_def rm_evolves_def)
  have sent: "returns (\<lambda>(rm', e). conn_effect P {cc} ?rm1 rm')
      (on_connections (SendRoomCreateResponse cc newId) ?rm1)"
    using on_connections_evolves [OF ok, of "{cc}" "SendRoomCreateResponse cc newId"]
      room_created_sender.evolves [OF assms(1), of "connectionManager rm" cc newId] assms(2,3) len
    by (simp add: SendRoomCreateResponse_def conn_effect_def rm_ok_def)
  have "safe (rm_evolves P {cc} rm)
      (on_error (on_connections (SendRoomCreateResponse cc newId) ?rm1) (close_client cc))"
  proof (rule on_error_safe [OF sent])
    fix rm2 assume e: "conn_effect P {cc} ?rm1 rm2"
    then have e2: "rm_evolves P {cc} rm rm2"
      using ev rm_evolves_trans by (fastforce simp: conn_effect_def)
    then show "rm_evolves P {cc} rm rm2" .
    have "safe (conn_effect P {} rm2) (close_client cc rm2)"
      using assms(3) conn_effects [OF e] by (intro closed) simp_all
    then have "safe (rm_evolves P {} rm2) (close_client cc rm2)"
      by (rule safe_mono) (erule conn_effect_evolves, simp)
    with e2 show "safe (rm_evolves P {cc} rm) (close_client cc rm2)"
      by (rule rm_evolves_then) simp_all
  qed
  with False show ?thesis by (simp add: handleCreateRoom_def assms(4) Let_def)
qed

lemma handleJoinRoom_safe:
  assumes P: "message_class P" and ok: "rm_ok P rm" and cc: "cc < length (clients (connectionManager rm))"
    and len: "length i \<le> 0xF000" "length key \<le> 0xF000"
    and W: "cc \<in> W" "\<And>r. findRoomById i rm = Some r \<Longrightarrow> owner (room_at r rm) \<in> W"
  shows "safe (rm_evolves P W rm) (handleJoinRoom cc i key rm)"
proof (cases "findRoomById i rm")
  case None
  have "length (room_not_found_text i) < 0xFFFF0000" using len by (simp add: room_not_found_text_def)
  from error_or_close_evolves [OF P ok cc this W(1)] show ?thesis by (simp add: handleJoinRoom_def None)
next
  case (Some r)
  have r: "r \<in> set (rooms rm)" "room_ok rm r"
    using find_in [OF Some [unfolded findRoomById_def]] ok by (auto simp: rm_ok_def rooms_ok_room)
  show ?thesis
  proof (cases "guest (room_at r rm) = None")
    case False
    with error_or_close_evolves [OF P ok cc _ W(1)] show ?thesis by (auto simp: handleJoinRoom_def Some)
  next
    case True
    let ?rm1 = "set_guest r (Some cc) rm" and ?o = "owner (room_at r rm)"
    have ok1: "rm_ok P ?rm1" and ev1: "rm_evolves P {} rm ?rm1"
      using ok rooms_ok_set_guest [of rm r "Some cc"] r(1) cc by (simp_all add: rm_ok_def rm_evolves_def)
    have o: "?o < length (clients (connectionManager ?rm1))" "owner (room_at r ?rm1) = ?o"
      using r(2) by (simp_all add: room_ok_def room_at_set_guest)
    let ?send = "SendJoinRoomRequest ?o i (GetClientId cc (connectionManager ?rm1)) key"
    have sent: "returns (\<lambda>(rm', e). conn_effect P {?o} ?rm1 rm') (on_connections ?send ?rm1)"
      using on_connections_evolves [OF ok1, of "{?o}" ?send]
        join_request_sender.evolves [OF P, of "connectionManager ?rm1" ?o
          "(i, GetClientId cc (connectionManager ?rm1), key)"] o(1) ok1 len client_of [OF ok cc]
      by (simp add: SendJoinRoomRequest_def conn_effect_def rm_ok_def)
    have "safe (rm_evolves P W rm) (on_error (on_connections ?send ?rm1)
        (\<lambda>rm2. andThen (on_connections (SendErrorResponse cc CommandJoinRoom ErrorUnknown
            ''Couldn't send the join request to the room owner, closing down the room'') rm2)
          (\<lambda>(rm3, _). closeRoom r rm3)))"
    proof (rule on_error_safe [OF sent])
      fix rm2 assume e: "conn_effect P {?o} ?rm1 rm2"
      have e2: "rm_evolves P W rm rm2"
        using rm_evolves_trans [OF ev1 conn_effect_evolves [OF e order_refl]] W(2) [OF Some] by simp
      then show "rm_evolves P W rm rm2" .
      have cc2: "cc < length (clients (connectionManager rm2))" using cc conn_effects(4) [OF e] by simp
      show "safe (rm_evolves P W rm) (andThen (on_connections (SendErrorResponse cc CommandJoinRoom
          ErrorUnknown ''Couldn't send the join request to the room owner, closing down the room'') rm2)
          (\<lambda>(rm3, _). closeRoom r rm3))"
      proof (rule safe_step)
        show "safe (\<lambda>(rm3, e). conn_effect P {cc} rm2 rm3) (on_connections (SendErrorResponse cc
          CommandJoinRoom ErrorUnknown
          ''Couldn't send the join request to the room owner, closing down the room'') rm2)"
          by (intro returns_safe error_sent P conn_effect_ok [OF e] cc2) simp
        fix x assume "case x of (rm3, e) \<Rightarrow> conn_effect P {cc} rm2 rm3"
        then obtain rm3 u where x: "x = (rm3, u)" "conn_effect P {cc} rm2 rm3" by (cases x) auto
        have "r \<in> set (rooms rm3)" using r(1) conn_effects(3) [OF e] conn_effects(3) [OF x(2)] by simp
        then have "safe (rm_evolves P {} rm3) (closeRoom r rm3)"
          by (rule closeRoom_evolves [OF conn_effect_ok [OF x(2)]])
        with rm_evolves_trans [OF e2 conn_effect_evolves [OF x(2) order_refl], of W] W(1)
        show "safe (rm_evolves P W rm) (case x of (rm3, _) \<Rightarrow> closeRoom r rm3)"
          by (auto simp: x(1) intro: rm_evolves_then)
      qed
    qed
    with True o(2) show ?thesis by (simp add: handleJoinRoom_def Some Let_def)
  qed
qed

lemma handleJoinRoomResponse_safe:
  assumes P: "message_class P" and ok: "rm_ok P rm" and cc: "cc < length (clients (connectionManager rm))"
    and len: "length key \<le> 0xF000"
    and W: "cc \<in> W" "\<And>r g. findRoomByOwner cc rm = Some r \<Longrightarrow> guest (room_at r rm) = Some g \<Longrightarrow> g \<in> W"
  shows "safe (rm_evolves P W rm) (handleJoinRoomResponse cc accepted key rm)"
proof (cases "findRoomByOwner cc rm")
  case None
  with error_or_close_evolves [OF P ok cc _ W(1)] show ?thesis by (simp add: handleJoinRoomResponse_def)
next
  case (Some r)
  have r: "r \<in> set (rooms rm)" "room_ok rm r"
    using find_in [OF Some [unfolded findRoomByOwner_def]] ok by (auto simp: rm_ok_def rooms_ok_room)
  have error_close_room: "safe (rm_evolves P W rm)
      (on_error (on_connections (SendErrorResponse cc c n msg) rm2) (closeRoom r))"
    if e: "rm_evolves P W rm rm2" "r \<in> set (rooms rm2)" and "length msg < 0xFFFF0000" for rm2 c n msg
  proof -
    have cc2: "cc < length (clients (connectionManager rm2))" using cc rm_evolves_clients [OF e(1)] by simp
    show ?thesis
    proof (rule on_error_safe [OF error_sent [OF P rm_evolves_ok [OF e(1)] cc2 that(3)]])
      fix rm3 assume e3: "conn_effect P {cc} rm2 rm3"
      have ev: "rm_evolves P W rm rm3"
        using rm_evolves_trans [OF e(1) conn_effect_evolves [OF e3 order_refl]] W(1) by simp
      then show "rm_evolves P W rm rm3" .
      have "safe (rm_evolves P {} rm3) (closeRoom r rm3)"
        using e(2) conn_effects(3) [OF e3] by (intro closeRoom_evolves [OF conn_effect_ok [OF e3]]) simp
      with ev show "safe (rm_evolves P W rm) (closeRoom r rm3)" by (rule rm_evolves_then) simp_all
    qed
  qed
  show ?thesis
  proof (cases "guest (room_at r rm)")
    case None
    with error_close_room [OF rm_evolves_refl [OF ok] r(1)] show ?thesis
      by (simp add: handleJoinRoomResponse_def Some)
  next
    case g: (Some g)
    have gl: "g < length (clients (connectionManager rm))" using r(2) g by (simp add: room_ok_def)
    let ?send = "SendJoinRoomResponse g accepted (GetClientId cc (connectionManager rm)) key"
    have sent: "returns (\<lambda>(rm', e). conn_effect P {g} rm rm') (on_connections ?send rm)"
      using on_connections_evolves [OF ok, of "{g}" ?send]
        join_answer_sender.evolves [OF P, of "connectionManager rm" g
          "(accepted, GetClientId cc (connectionManager rm), key)"] gl ok len client_of [OF ok cc]
      by (simp add: SendJoinRoomResponse_def conn_effect_def rm_ok_def)
    then obtain rm1 e where s: "on_connections ?send rm = Ret (rm1, e)" "conn_effect P {g} rm rm1"
      by (auto elim!: returnsE)
    have ev1: "rm_evolves P W rm rm1" using conn_effect_evolves [OF s(2)] W(2) [OF Some g] by simp
    have clear: "rm_evolves P W rm (set_guest r None rm2)"
      if "rm_evolves P W rm rm2" "r \<in> set (rooms rm2)" for rm2
      using that rooms_ok_set_guest [of rm2 r None] by (simp add: rm_evolves_def)
    have evicted: "safe (rm_evolves P W rm) (andThen (close_client g rm1) (\<lambda>rm2.
        on_error (on_connections (SendErrorResponse cc CommandJoinRoom ErrorNoParticipant
          ''participant disconnected during the response sending, the room is waiting for another participant'')
          (set_guest r None rm2)) (closeRoom r)))"
    proof (rule safe_step)
      show "safe (conn_effect P {} rm1) (close_client g rm1)"
        using gl conn_effects [OF s(2)] by (intro closed) simp_all
      fix rm2 assume e: "conn_effect P {} rm1 rm2"
      have "rm_evolves P W rm rm2" "r \<in> set (rooms rm2)"
        using rm_evolves_trans [OF ev1 conn_effect_evolves [OF e order_refl]] r(1)
          conn_effects(3) [OF s(2)] conn_effects(3) [OF e] by simp_all
      then show "safe (rm_evolves P W rm)
        (on_error (on_connections (SendErrorResponse cc CommandJoinRoom ErrorNoParticipant
          ''participant disconnected during the response sending, the room is waiting for another participant'')
          (set_guest r None rm2)) (closeRoom r))"
        by (intro error_close_room clear) simp_all
    qed
    have "rm_evolves P W rm (set_guest r None rm1)"
      using clear [OF ev1] r(1) conn_effects(3) [OF s(2)] by simp
    with ev1 evicted show ?thesis
      by (cases e) (simp_all add: handleJoinRoomResponse_def Some g s(1))
  qed
qed

lemma handleAdbTransport_safe:
  assumes ok: "rm_ok P rm" and m: "clean_message m"
    and W: "\<And>r t. findRoomByParticipant cc rm = Some r \<Longrightarrow>
      other_participant cc (room_at r rm) = Some t \<Longrightarrow> t \<in> W"
  shows "safe (rm_evolves P W rm) (handleAdbTransport cc m rm)"
proof (cases "findRoomByParticipant cc rm")
  case None
  with rm_evolves_refl [OF ok] show ?thesis by (simp add: handleAdbTransport_def)
next
  case (Some r)
  show ?thesis
  proof (cases "other_participant cc (room_at r rm)")
    case None
    with rm_evolves_refl [OF ok] show ?thesis by (simp add: handleAdbTransport_def Some)
  next
    case t: (Some t)
    have "room_ok rm r"
      using find_in [OF Some [unfolded findRoomByParticipant_def]] ok by (auto simp: rm_ok_def rooms_ok_room)
    then have "t < length (clients (connectionManager rm))"
      using t by (auto simp: room_ok_def other_participant_def split: if_splits)
    then have "returns (\<lambda>(rm', e). conn_effect P {t} rm rm') (on_connections (Send t m) rm)"
      using on_connections_evolves [OF ok, of "{t}" "Send t m"] ok m
        Send_evolves [of P "connectionManager rm" t m]
      by (simp add: conn_effect_def rm_ok_def)
    then show ?thesis
      using conn_effect_evolves [of P "{t}" rm] W [OF Some t]
      by (auto simp: handleAdbTransport_def Some t elim!: returnsE)
  qed
qed

text \<open>The strings a client sent are not longer than the payload they came in.\<close>

lemma parse_fields_strings:
  "parse_fields ks i bs = Inr fs \<Longrightarrow> FStr s \<in> set fs \<Longrightarrow> length s \<le> length bs"
proof (induction ks i bs arbitrary: fs rule: parse_fields.induct)
  case (2 ks i bs)
  then show ?case
    by (cases "parse_fields ks (i + 4) bs") (auto split: if_splits)
next
  case (3 ks i bs)
  then show ?case
    by (cases "parse_fields ks (i + 4 + unat (Uint32 (slice i (i + 4) bs))) bs")
      (auto simp: Let_def split: if_splits)
qed simp

lemma payload_length: "clean_message m \<Longrightarrow> length (payload_bytes m) \<le> 0xF000"
  by (simp add: clean_message_def payload_fits_nat)

lemma parse_fields_kinds: "parse_fields ks i bs = Inr fs \<Longrightarrow> map kind_of fs = ks"
proof (induction ks i bs arbitrary: fs rule: parse_fields.induct)
  case (2 ks i bs)
  then show ?case by (cases "parse_fields ks (i + 4) bs") (auto split: if_splits)
next
  case (3 ks i bs)
  then show ?case
    by (cases "parse_fields ks (i + 4 + unat (Uint32 (slice i (i + 4) bs))) bs")
      (auto simp: Let_def split: if_splits)
qed simp

lemma KStr_field: "kind_of f = KStr \<Longrightarrow> f = FStr (field_str f)"
  by (cases f) simp_all

lemma join_request_lengths:
  assumes "clean_message m" "GetPayloadConnectRoom m = Ret (Inr d)"
  shows "length (RoomId d) \<le> 0xF000" "length (JoinPublicKey d) \<le> 0xF000"
proof -
  have m: "wf_message m" "payload_fits m" using assms(1) by (simp_all add: clean_message_def)
  obtain fs where fs: "parse_fields [KStr, KStr, KStr] 0 (payload_bytes m) = Inr fs"
    "RoomId d = field_str (fs ! 0)" "JoinPublicKey d = bytes_of_string (field_str (fs ! 2))"
    using connect_room.get_parse [OF m] assms(2)
    by (cases "parse_fields [KStr, KStr, KStr] 0 (payload_bytes m)") auto
  have k: "map kind_of fs = [KStr, KStr, KStr]" by (rule parse_fields_kinds [OF fs(1)])
  then obtain a b c where abc: "fs = [a, b, c]" by (auto simp: map_eq_Cons_conv)
  have "a = FStr (field_str a)" "c = FStr (field_str c)" using k abc by (simp_all add: KStr_field)
  then have "FStr (field_str a) \<in> set fs" "FStr (field_str c) \<in> set fs" using abc by simp_all
  with parse_fields_strings [OF fs(1)] payload_length [OF assms(1)]
  show "length (RoomId d) \<le> 0xF000" "length (JoinPublicKey d) \<le> 0xF000"
    by (fastforce simp: fs(2,3) abc)+
qed

lemma join_answer_lengths:
  assumes "clean_message m" "GetPayloadConnectRoomResponse m = Ret (Inr d)"
  shows "length (OwnerPublicKey d) \<le> 0xF000"
proof -
  have m: "wf_message m" "payload_fits m" using assms(1) by (simp_all add: clean_message_def)
  obtain fs where fs: "parse_fields [KInt, KStr, KStr] 0 (payload_bytes m) = Inr fs"
    "OwnerPublicKey d = bytes_of_string (field_str (fs ! 2))"
    using connect_room_result.get_parse [OF m] assms(2)
    by (cases "parse_fields [KInt, KStr, KStr] 0 (payload_bytes m)") auto
  have k: "map kind_of fs = [KInt, KStr, KStr]" by (rule parse_fields_kinds [OF fs(1)])
  then obtain a b c where abc: "fs = [a, b, c]" by (auto simp: map_eq_Cons_conv)
  have "c = FStr (field_str c)" using k abc by (simp add: KStr_field)
  then have "FStr (field_str c) \<in> set fs" using abc by simp
  with parse_fields_strings [OF fs(1)] payload_length [OF assms(1)]
  show ?thesis by (fastforce simp: fs(2) abc)
qed

section \<open>The dispatcher\<close>

lemma handle_message_safe:
  assumes P: "message_class P" and ok: "rm_ok P rm" and cc: "cc < length (clients (connectionManager rm))"
    and m: "clean_message m" and id: "GenerateClientId entropy = Ret (newId, rest)"
  shows "safe (rm_evolves P UNIV rm) (handle_message entropy cc m rm)"
proof -
  have wf: "wf_message m" "payload_fits m" using m by (simp_all add: clean_message_def)
  have mono: "safe (rm_evolves P W rm) r \<Longrightarrow> safe (rm_evolves P UNIV rm) r" for W r
    using rm_evolves_then [OF rm_evolves_refl [OF ok, of W], of W r UNIV] by simp
  obtain q where q: "GetPayloadConnectRoom m = Ret q" using connect_room.get_total [OF wf] by blast
  obtain a where a: "GetPayloadConnectRoomResponse m = Ret a"
    using connect_room_result.get_total [OF wf] by blast
  have join: "safe (rm_evolves P UNIV rm) (case q of Inl e \<Rightarrow> reject_payload cc (Command m) rm
      | Inr payload \<Rightarrow> handleJoinRoom cc (RoomId payload) (JoinPublicKey payload) rm)"
    using mono [OF reject_payload_safe [OF P ok cc]] join_request_lengths [OF m] q
      handleJoinRoom_safe [OF P ok cc, of _ _ UNIV]
    by (cases q) simp_all
  have answer: "safe (rm_evolves P UNIV rm) (case a of Inl e \<Rightarrow> reject_payload cc (Command m) rm
      | Inr payload \<Rightarrow> handleJoinRoomResponse cc (Accepted payload) (OwnerPublicKey payload) rm)"
    using mono [OF reject_payload_safe [OF P ok cc]] join_answer_lengths [OF m] a
      handleJoinRoomResponse_safe [OF P ok cc, of _ UNIV]
    by (cases a) simp_all
  show ?thesis
    unfolding handle_message_def q a andThen.simps
  proof (intro safe_if)
    show "safe (rm_evolves P UNIV rm) (handleCreateRoom entropy cc rm)"
      by (rule mono [OF handleCreateRoom_safe [OF P ok cc id]])
    show "safe (rm_evolves P UNIV rm) (handleAdbTransport cc m rm)"
      by (rule handleAdbTransport_safe [OF ok m]) simp
    show "safe (rm_evolves P UNIV rm) (Ret rm)" using rm_evolves_refl [OF ok] by simp
  qed (rule join answer)+
qed

section \<open>Disconnects\<close>

lemma fill_guest_left_clean:
  "clean_message m \<Longrightarrow> returns (\<lambda>(m', e). clean_message m' \<and> (e = None \<longrightarrow> clean_message m')) (fill_guest_left m)"
  by (simp add: fill_guest_left_def clean_message_def payload_fits_def)

lemma handleClientDisconnected_safe:
  assumes ok: "rm_ok clean_message rm" and cc: "cc < length (clients (connectionManager rm))"
  shows "safe (rm_evolves clean_message UNIV rm) (handleClientDisconnected cc rm)"
proof (cases "findRoomByParticipant cc rm")
  case None
  with rm_evolves_refl [OF ok] show ?thesis by (simp add: handleClientDisconnected_def)
next
  case (Some r)
  have r: "r \<in> set (rooms rm)" "room_ok rm r"
    using find_in [OF Some [unfolded findRoomByParticipant_def]] ok by (auto simp: rm_ok_def rooms_ok_room)
  let ?o = "owner (room_at r rm)"
  have o: "?o < length (clients (connectionManager rm))" using r(2) by (simp add: room_ok_def)
  have closing: "safe (rm_evolves clean_message UNIV rm) (closeRoom r rm)"
    using closeRoom_evolves [OF ok r(1)] by (rule rm_evolves_then [OF rm_evolves_refl [OF ok]]) simp_all
  have leaving: "safe (rm_evolves clean_message UNIV rm) (andThen (close_client cc rm) (\<lambda>rm1.
      let rm2 = set_guest r None rm1 in
      andThen (on_connections (SendGuestLeft (owner (room_at r rm2))) rm2) (\<lambda>(rm3, _). Ret rm3)))"
  proof (rule safe_step [OF closed [OF ok cc]])
    fix rm1 assume e: "conn_effect clean_message {} rm rm1"
    let ?rm2 = "set_guest r None rm1"
    have r1: "r \<in> set (rooms rm1)" "rooms_ok rm1" "owner (room_at r ?rm2) = ?o"
      using e r conn_effects [OF e] by (simp_all add: rm_ok_def room_ok_def conn_effect_def room_at_set_guest)
    have ev: "rm_evolves clean_message UNIV rm ?rm2"
      using conn_effect_evolves [OF e, of UNIV] rooms_ok_set_guest [OF r1(2,1), of None]
      by (simp add: rm_evolves_def)
    have "returns (\<lambda>(rm', x). conn_effect clean_message {?o} ?rm2 rm')
        (on_connections (SendGuestLeft ?o) ?rm2)"
      using on_connections_evolves [OF rm_evolves_ok [OF ev], of "{?o}" "SendGuestLeft ?o"]
        sendPooled_evolves [of clean_message "connectionManager ?rm2" ?o fill_guest_left]
        fill_guest_left_clean rm_evolves_ok [OF ev] o conn_effects(4) [OF e]
      by (simp add: SendGuestLeft_def conn_effect_def rm_ok_def)
    then show "safe (rm_evolves clean_message UNIV rm) (let rm2 = ?rm2 in
        andThen (on_connections (SendGuestLeft (owner (room_at r rm2))) rm2) (\<lambda>(rm3, _). Ret rm3))"
      using rm_evolves_trans [OF ev conn_effect_evolves [OF _ order_refl]]
      by (auto simp: Let_def r1(3) elim!: returnsE)
  qed
  show ?thesis
    using closing leaving rm_evolves_refl [OF ok, of UNIV] by (simp add: handleClientDisconnected_def Some)
qed

end
