(* ===== verification/Transporter.thy ===== *)
theory Transporter
  imports Room_Safety
begin

text \<open>
  The transporter as a whole: one goroutine per connection, the accept loop and the room
  manager's goroutine, which communicate through the two channels, as a step relation.  A
  reader whose send would wait takes its step when the channel has room.  The invariant over
  all reachable states is proved from the lemmas on the single operations.
\<close>

section \<open>The room manager's turn\<close>

definition with_disconnected :: "nat list \<Rightarrow> RoomManager \<Rightarrow> RoomManager" where
  "with_disconnected q rm =
     rm\<lparr>connectionManager := (connectionManager rm)\<lparr>ClientDisconnectedChannel := q\<rparr>\<rparr>"

definition with_messages :: "ClientMessageContainer list \<Rightarrow> RoomManager \<Rightarrow> RoomManager" where
  "with_messages q rm =
     rm\<lparr>connectionManager := (connectionManager rm)\<lparr>ClientMessageChannel := q\<rparr>\<rparr>"

datatype event = Disconnected | Arrived bytes

text \<open>
  One turn of \<open>run\<close>: \<open>select\<close> takes from either channel; \<open>Arrived\<close> carries the entropy a new room
  id is drawn from.  \<open>None\<close> when the chosen channel is empty.
\<close>

fun run_turn :: "event \<Rightarrow> RoomManager \<Rightarrow> RoomManager outcome option" where
  "run_turn Disconnected rm =
     (case ClientDisconnectedChannel (connectionManager rm) of
        [] \<Rightarrow> None
      | cc # rest \<Rightarrow> Some (handleClientDisconnected cc (with_disconnected rest rm)))"
| "run_turn (Arrived entropy) rm =
     (case ClientMessageChannel (connectionManager rm) of
        [] \<Rightarrow> None
      | mc # rest \<Rightarrow> Some (dispatchMessage entropy mc (with_messages rest rm)))"

section \<open>The step relation\<close>

datatype reader = Handshaking | Reading | Finished

record transporter =
  manager :: RoomManager
  readers :: "reader list"

definition initial_transporter :: transporter where
  "initial_transporter = \<lparr>manager = CreateRoomManager CreateConnectionManager, readers = []\<rparr>"

abbreviation cmgr :: "transporter \<Rightarrow> ConnectionManager" where
  "cmgr s \<equiv> connectionManager (manager s)"

definition with_cm :: "ConnectionManager \<Rightarrow> transporter \<Rightarrow> transporter" where
  "with_cm cm s = s\<lparr>manager := (manager s)\<lparr>connectionManager := cm\<rparr>\<rparr>"

text \<open>
  What the network may do to an open connection: deliver more bytes, end the stream, stop or
  resume taking output.  It neither unsends bytes nor closes our end.
\<close>

definition network_moves :: "net_conn \<Rightarrow> net_conn \<Rightarrow> bool" where
  "network_moves c c' \<longleftrightarrow> conn_closed c' = conn_closed c \<and> outbound c' = outbound c"

inductive transporter_step :: "transporter \<Rightarrow> transporter \<Rightarrow> bool" where
  accept: "\<not> conn_closed c \<Longrightarrow>
    transporter_step s (with_cm (accept_connection c (cmgr s)) s\<lparr>readers := readers s @ [Handshaking]\<rparr>)"
| network: "cc < length (clients (cmgr s)) \<Longrightarrow> network_moves (conn_of cc (cmgr s)) c \<Longrightarrow>
    transporter_step s (with_cm (set_conn cc c (cmgr s)) s)"
| handshake: "cc < length (clients (cmgr s)) \<Longrightarrow> readers s ! cc = Handshaking \<Longrightarrow>
    GenerateClientId entropy = Ret (newId, rest) \<Longrightarrow>
    performHandshake entropy cc (cmgr s) = Ret (cm, ok) \<Longrightarrow>
    transporter_step s (with_cm cm s\<lparr>readers := (readers s)[cc := if ok then Reading else Finished]\<rparr>)"
| read: "cc < length (clients (cmgr s)) \<Longrightarrow> readers s ! cc = Reading \<Longrightarrow>
    readNextMessage cc (cmgr s) = Ret (cm, ok) \<Longrightarrow>
    transporter_step s (with_cm cm s\<lparr>readers := (readers s)[cc := if ok then Reading else Finished]\<rparr>)"
| disconnected: "run_turn Disconnected (manager s) = Some (Ret rm) \<Longrightarrow>
    transporter_step s (s\<lparr>manager := rm\<rparr>)"
| arrived: "GenerateClientId entropy = Ret (newId, rest) \<Longrightarrow>
    run_turn (Arrived entropy) (manager s) = Some (Ret rm) \<Longrightarrow>
    transporter_step s (s\<lparr>manager := rm\<rparr>)"
| stopping: "transporter_step s (with_cm (stop_listener (cmgr s)) s)"
| stop_close: "cancelled (cmgr s) \<Longrightarrow> cc < length (clients (cmgr s)) \<Longrightarrow> Close cc (cmgr s) = Ret cm \<Longrightarrow>
    transporter_step s (with_cm cm s)"

inductive reachable :: "transporter \<Rightarrow> bool" where
  start: "reachable initial_transporter"
| step: "reachable s \<Longrightarrow> transporter_step s t \<Longrightarrow> reachable t"

inductive_cases reachableE: "reachable s"

inductive_simps transporter_step_iff: "transporter_step s t"

section \<open>The invariant\<close>

text \<open>
  Between steps the buffers in use are exactly those of the queued messages: none is lost,
  none is used twice.
\<close>

definition buffers_accounted :: "ConnectionManager \<Rightarrow> bool" where
  "buffers_accounted cm \<longleftrightarrow>
     (\<forall>a. 0 < uses (transporterMessagePool cm) a \<longrightarrow> a \<in> Message ` set (ClientMessageChannel cm))"

definition transporter_ok :: "transporter \<Rightarrow> bool" where
  "transporter_ok s \<longleftrightarrow> rm_ok wf_message (manager s) \<and> buffers_accounted (cmgr s) \<and>
     length (readers s) = length (clients (cmgr s))"

lemma same_leases_accounted:
  "same_leases (transporterMessagePool cm) (transporterMessagePool cm') \<Longrightarrow>
   ClientMessageChannel cm' = ClientMessageChannel cm \<Longrightarrow>
   buffers_accounted cm' = buffers_accounted cm"
  by (simp add: buffers_accounted_def same_leases_def)

lemma with_cm_simps [simp]:
  "cmgr (with_cm cm s) = cm" "readers (with_cm cm s) = readers s"
  "manager (with_cm cm s) = (manager s)\<lparr>connectionManager := cm\<rparr>"
  by (simp_all add: with_cm_def)

lemma transporter_ok_initial: "transporter_ok initial_transporter"
  using cm_ok_New [of wf_message]
  by (simp add: transporter_ok_def initial_transporter_def CreateRoomManager_def rm_ok_def rooms_ok_def
      buffers_accounted_def CreateConnectionManager_def NewObjectPool_def uses_def)

subsection \<open>Readers, network and shutdown\<close>

lemma transporter_ok_with_cm:
  assumes "transporter_ok s" "cm_ok wf_message cm" "buffers_accounted cm"
    and "length (clients cm) = length (clients (cmgr s))"
  shows "transporter_ok (with_cm cm s)"
  using assms by (simp add: transporter_ok_def rm_ok_def)

lemma transporter_ok_readers:
  "transporter_ok s \<Longrightarrow> length rs = length (readers s) \<Longrightarrow> transporter_ok (s\<lparr>readers := rs\<rparr>)"
  by (simp add: transporter_ok_def)

lemma cm_ok_accept:
  assumes "cm_ok P cm" "\<not> conn_closed c"
  shows "cm_ok P (accept_connection c cm)"
proof -
  let ?cm = "accept_connection c cm" and ?n = "length (clients cm)"
  have defs: "transporterMessagePool ?cm = transporterMessagePool cm" "connections ?cm = ?n # connections cm"
    "ClientMessageChannel ?cm = ClientMessageChannel cm" "length (clients ?cm) = Suc ?n"
    "ClientDisconnectedChannel ?cm = ClientDisconnectedChannel cm"
    by (simp_all add: accept_connection_def registerConnection_def)
  have conn: "conn_of i ?cm = (if i = ?n then c else conn_of i cm)"
    "GetClientId i ?cm = (if i = ?n then [] else GetClientId i cm)" if "i \<le> ?n" for i
    using that
    by (auto simp: accept_connection_def registerConnection_def conn_of_def GetClientId_def nth_append)
  have "pending_ok cm mc \<Longrightarrow> pending_ok ?cm mc" for mc by (simp add: pending_ok_def defs)
  moreover have "registered_ok ?cm"
    using assms by (auto simp: cm_ok_def registered_ok_def defs conn less_Suc_eq)
  ultimately show ?thesis using assms(1) by (auto simp: cm_ok_def defs conn less_Suc_eq)
qed

lemma rooms_ok_more_clients:
  assumes "rooms_ok rm" "length (clients (connectionManager rm)) \<le> length (clients cm)"
  shows "rooms_ok (rm\<lparr>connectionManager := cm\<rparr>)"
proof -
  have "room_ok rm r \<Longrightarrow> room_ok (rm\<lparr>connectionManager := cm\<rparr>) r" for r
    using assms(2) by (cases "guest (room_at r rm)") (auto simp: room_ok_def)
  with assms(1) show ?thesis by (simp add: rooms_ok_def)
qed

lemma accept_keeps:
  assumes "transporter_ok s" "\<not> conn_closed c"
  shows "transporter_ok (with_cm (accept_connection c (cmgr s)) s\<lparr>readers := readers s @ [Handshaking]\<rparr>)"
proof -
  let ?cm = "accept_connection c (cmgr s)"
  have len: "length (clients ?cm) = Suc (length (clients (cmgr s)))"
    by (simp add: accept_connection_def registerConnection_def)
  have "buffers_accounted ?cm = buffers_accounted (cmgr s)"
    by (simp add: buffers_accounted_def accept_connection_def registerConnection_def)
  then show ?thesis
    using assms cm_ok_accept rooms_ok_more_clients [of "manager s" ?cm] len
    by (simp add: transporter_ok_def rm_ok_def)
qed

lemma network_keeps:
  assumes "transporter_ok s" "cc < length (clients (cmgr s))" "network_moves (conn_of cc (cmgr s)) c"
  shows "transporter_ok (with_cm (set_conn cc c (cmgr s)) s)"
proof (rule transporter_ok_with_cm [OF assms(1)])
  show "cm_ok wf_message (set_conn cc c (cmgr s))"
    using assms by (intro cm_ok_set_conn) (simp_all add: transporter_ok_def rm_ok_def network_moves_def)
  show "buffers_accounted (set_conn cc c (cmgr s))"
    using assms(1) by (simp add: transporter_ok_def buffers_accounted_def)
qed simp

lemma handshake_keeps:
  assumes "transporter_ok s" "cc < length (clients (cmgr s))" "GenerateClientId entropy = Ret (newId, rest)"
    and "performHandshake entropy cc (cmgr s) = Ret (cm, ok)"
  shows "transporter_ok (with_cm cm s)"
proof -
  have "cm_ok wf_message (cmgr s)" using assms(1) by (simp add: transporter_ok_def rm_ok_def)
  from performHandshake_keeps [OF this assms(2,3)] assms(4)
  have "cm_ok wf_message cm" "same_leases (transporterMessagePool (cmgr s)) (transporterMessagePool cm)"
    "ClientMessageChannel cm = ClientMessageChannel (cmgr s)"
    "length (clients cm) = length (clients (cmgr s))" by simp_all
  with assms(1) same_leases_accounted show ?thesis
    by (intro transporter_ok_with_cm) (auto simp: transporter_ok_def)
qed

lemma read_keeps:
  assumes "transporter_ok s" "cc < length (clients (cmgr s))"
    and "readNextMessage cc (cmgr s) = Ret (cm, ok)"
  shows "transporter_ok (with_cm cm s)"
proof -
  have "cm_ok wf_message (cmgr s)" using assms(1) by (simp add: transporter_ok_def rm_ok_def)
  from readNextMessage_keeps [OF this assms(2)] assms(3)
  have k: "cm_ok wf_message cm" "length (clients cm) = length (clients (cmgr s))"
    "if ok then \<exists>a. ClientMessageChannel cm = ClientMessageChannel (cmgr s) @ [\<lparr>Sender = cc, Message = a\<rparr>] \<and>
        uses (transporterMessagePool cm) = (uses (transporterMessagePool (cmgr s)))(a := 1)
      else ClientMessageChannel cm = ClientMessageChannel (cmgr s) \<and>
        same_leases (transporterMessagePool (cmgr s)) (transporterMessagePool cm)"
    by (simp_all del: One_nat_def)
  have old: "buffers_accounted (cmgr s)" using assms(1) by (simp add: transporter_ok_def)
  have "buffers_accounted cm"
  proof (cases ok)
    case True
    with k(3) obtain a where "ClientMessageChannel cm = ClientMessageChannel (cmgr s) @ [\<lparr>Sender = cc, Message = a\<rparr>]"
      "uses (transporterMessagePool cm) = (uses (transporterMessagePool (cmgr s)))(a := 1)" by auto
    with old show ?thesis by (simp add: buffers_accounted_def)
  next
    case False
    with k(3) old same_leases_accounted [of "cmgr s" cm] show ?thesis by simp
  qed
  with assms(1) k show ?thesis by (intro transporter_ok_with_cm) simp_all
qed

lemma stopping_keeps:
  assumes "transporter_ok s"
  shows "transporter_ok (with_cm (stop_listener (cmgr s)) s)"
  using assms
  by (intro transporter_ok_with_cm)
    (simp_all add: stop_listener_def transporter_ok_def rm_ok_def cm_ok_def registered_ok_def pending_ok_def
      conn_of_def GetClientId_def buffers_accounted_def)

lemma stop_close_keeps:
  assumes "transporter_ok s" "cc < length (clients (cmgr s))" "Close cc (cmgr s) = Ret cm"
  shows "transporter_ok (with_cm cm s)"
proof -
  have "cm_ok wf_message (cmgr s)" using assms(1) by (simp add: transporter_ok_def rm_ok_def)
  from Close_evolves [OF this assms(2)] assms(3) have e: "cm_evolves wf_message {} (cmgr s) cm" by simp
  then have "buffers_accounted cm = buffers_accounted (cmgr s)"
    by (intro same_leases_accounted) (simp_all add: cm_evolves_def)
  with assms(1) cm_evolves_ok [OF e] cm_evolves_clients [OF e] show ?thesis
    by (intro transporter_ok_with_cm) (simp_all add: transporter_ok_def)
qed

subsection \<open>The room manager's goroutine\<close>

lemma with_disconnected_ok:
  assumes "rm_ok P rm" "ClientDisconnectedChannel (connectionManager rm) = cc # rest"
  shows "rm_ok P (with_disconnected rest rm)" "cc < length (clients (connectionManager rm))"
    "cc \<notin> set rest" "cc \<notin> set (connections (connectionManager rm))"
  using assms
  by (auto simp: rm_ok_def with_disconnected_def cm_ok_def registered_ok_def pending_ok_def conn_of_def
      GetClientId_def)

lemma with_messages_ok:
  assumes "rm_ok P rm" "ClientMessageChannel (connectionManager rm) = mc # rest"
  shows "rm_ok P (with_messages rest rm)" "pending_ok (connectionManager rm) mc"
    "Message mc \<notin> Message ` set rest"
  using assms
  by (auto simp: rm_ok_def with_messages_def cm_ok_def registered_ok_def pending_ok_def conn_of_def
      GetClientId_def)

text \<open>Giving back the buffer of a handled message.\<close>

lemma dispose_message_ok:
  assumes "cm_ok wf_message cm" "uses (transporterMessagePool cm) a = 1"
    and "a \<notin> Message ` set (ClientMessageChannel cm)"
  shows "cm_ok wf_message (dispose_message a cm)"
    "uses (transporterMessagePool (dispose_message a cm)) = (uses (transporterMessagePool cm))(a := 0)"
proof -
  let ?p = "transporterMessagePool cm"
  have g: "pool_inv ?p" "pool_all wf_message ?p" "0 < uses ?p a"
    using assms(1,2) by (simp_all add: cm_ok_def good_pool_def)
  note d = pooled.give_back [OF g(1,3)]
  have all: "pool_all wf_message (fst (Dispose a ?p))"
    using Dispose_live(6) [OF g(1) _ g(2)] g(3) by (simp add: uses_live)
  show u: "uses (transporterMessagePool (dispose_message a cm)) = (uses ?p)(a := 0)"
    using d assms(2) by (simp add: dispose_message_def)
  have "registered_ok (dispose_message a cm) = registered_ok cm"
    by (simp add: registered_ok_def conn_of_def dispose_message_def)
  moreover have "pending_ok (dispose_message a cm) mc" if mc: "mc \<in> set (ClientMessageChannel cm)" for mc
  proof -
    have "Message mc \<noteq> a" using mc assms(3) by auto
    moreover have "pending_ok cm mc" using mc assms(1) by (simp add: cm_ok_def)
    ultimately show ?thesis using d by (simp add: pending_ok_def dispose_message_def)
  qed
  ultimately show "cm_ok wf_message (dispose_message a cm)"
    using assms(1) d all by (simp add: cm_ok_def good_pool_def GetClientId_def) (simp add: dispose_message_def)
qed

lemma dispatch_keeps:
  assumes ok: "rm_ok wf_message rm" "buffers_accounted (connectionManager rm)"
    and q: "ClientMessageChannel (connectionManager rm) = mc # rest"
    and id: "GenerateClientId entropy = Ret (newId, r)"
  shows "safe (\<lambda>rm'. rm_ok wf_message rm' \<and> buffers_accounted (connectionManager rm') \<and>
     length (clients (connectionManager rm')) = length (clients (connectionManager rm)) \<and>
     listener (connectionManager rm') = listener (connectionManager rm))
     (dispatchMessage entropy mc (with_messages rest rm))"
proof -
  let ?rm = "with_messages rest rm"
  note w = with_messages_ok [OF ok(1) q]
  have same: "transporterMessagePool (connectionManager ?rm) = transporterMessagePool (connectionManager rm)"
    "clients (connectionManager ?rm) = clients (connectionManager rm)"
    "ClientMessageChannel (connectionManager ?rm) = rest"
    "listener (connectionManager ?rm) = listener (connectionManager rm)" by (simp_all add: with_messages_def)
  from w(2) obtain m where m: "Data (Message mc) (transporterMessagePool (connectionManager rm)) = Inr m"
    "clean_message m" "Sender mc < length (clients (connectionManager rm))"
    "uses (transporterMessagePool (connectionManager rm)) (Message mc) = 1"
    by (auto simp: pending_ok_def)
  have "safe (rm_evolves wf_message UNIV ?rm) (handle_message entropy (Sender mc) m ?rm)"
    by (rule handle_message_safe [OF _ w(1) _ m(2) id]) (simp_all add: same m(3))
  then have "safe (\<lambda>rm1. rm_ok wf_message (dispose_of (Message mc) rm1) \<and>
      buffers_accounted (connectionManager (dispose_of (Message mc) rm1)) \<and>
      length (clients (connectionManager (dispose_of (Message mc) rm1))) = length (clients (connectionManager rm)) \<and>
      listener (connectionManager (dispose_of (Message mc) rm1)) = listener (connectionManager rm))
      (handle_message entropy (Sender mc) m ?rm)"
  proof (rule safe_mono)
    fix rm1 assume e: "rm_evolves wf_message UNIV ?rm rm1"
    let ?cm = "connectionManager rm1"
    have c: "cm_ok wf_message ?cm" "rooms_ok rm1" "ClientMessageChannel ?cm = rest"
      "uses (transporterMessagePool ?cm) = uses (transporterMessagePool (connectionManager rm))"
      "listener ?cm = listener (connectionManager rm)"
      using e rm_evolves_ok [OF e] same
      by (simp_all add: rm_ok_def rm_evolves_def cm_evolves_def same_leases_def)
    have len: "length (clients ?cm) = length (clients (connectionManager rm))"
      using rm_evolves_clients [OF e] same(2) by simp
    have "uses (transporterMessagePool ?cm) (Message mc) = 1"
      "Message mc \<notin> Message ` set (ClientMessageChannel ?cm)" using c m(4) w(3) by simp_all
    note d = dispose_message_ok [OF c(1) this]
    have dl: "length (clients (dispose_message (Message mc) ?cm)) = length (clients ?cm)"
      "ClientMessageChannel (dispose_message (Message mc) ?cm) = rest"
      using c(3) by (simp_all add: dispose_message_def)
    have "buffers_accounted (dispose_message (Message mc) ?cm)"
      using ok(2) q d(2) c(4) dl(2) by (auto simp: buffers_accounted_def)
    then show "rm_ok wf_message (dispose_of (Message mc) rm1) \<and>
      buffers_accounted (connectionManager (dispose_of (Message mc) rm1)) \<and>
      length (clients (connectionManager (dispose_of (Message mc) rm1))) = length (clients (connectionManager rm)) \<and>
      listener (connectionManager (dispose_of (Message mc) rm1)) = listener (connectionManager rm)"
      using c(2,5) d(1) dl(1) len by (simp add: rm_ok_def dispose_of_def)
  qed
  then show ?thesis by (simp add: dispatchMessage_def same m(1) outcome_simps)
qed

text \<open>
  Notifying the owner with a recycled message can panic; when it returns, all is well.
\<close>

lemma Write_on_ret:
  "on_ret (\<lambda>(c', e). conn_closed c' = conn_closed c \<and> (\<exists>sent. outbound c' = outbound c @ sent)) (Write m c)"
proof -
  let ?payload = "slice 0 (unat (PayloadLength m)) (payloadBuffer m)"
  obtain c1 n1 e1 where w1: "conn_Write c (headerBuffer m) = (c1, n1, e1)"
    "outbound c1 = outbound c @ take n1 (headerBuffer m)" "conn_closed c1 = conn_closed c"
    by (metis conn_Write_cases)
  obtain c2 n2 e2 where w2: "conn_Write c1 ?payload = (c2, n2, e2)"
    "outbound c2 = outbound c1 @ take n2 ?payload" "conn_closed c2 = conn_closed c1"
    by (metis conn_Write_cases)
  show ?thesis
    by (auto simp: Write_def Let_def w1 w2 go_slice_def split: option.splits)
qed

lemma SendGuestLeft_on_ret:
  assumes "cm_ok wf_message cm" "cc < length (clients cm)"
  shows "on_ret (\<lambda>(cm', e). cm_evolves wf_message {cc} cm cm') (SendGuestLeft cc cm)"
proof -
  let ?c = "conn_of cc cm"
  let ?Q = "\<lambda>(c', e :: error option). conn_closed c' = conn_closed ?c \<and>
      (\<exists>sent. outbound c' = outbound ?c @ sent)"
  have body: "on_ret (\<lambda>(m', r). wf_message m' \<and> ?Q r) (write_filled (fill_guest_left m) ?c)"
    if "wf_message m" for m
    using Write_on_ret [of ?c "SetDirectCommand CommandGuestLeft m"] that
    by (auto simp: write_filled_def fill_guest_left_def outcome_simps elim!: on_ret_mono)
  have pool: "on_ret (\<lambda>(p', r). good_pool wf_message p' \<and> same_leases (transporterMessagePool cm) p' \<and> ?Q r)
      (withPooled (transporterMessagePool cm) (\<lambda>e. (?c, Some e)) (\<lambda>m. write_filled (fill_guest_left m) ?c))"
    by (rule withPooled_on_ret [OF _ body]) (use assms(1) in \<open>simp add: cm_ok_def\<close>)
  have "cm_evolves wf_message {cc} cm (set_conn cc c' (cm\<lparr>transporterMessagePool := p'\<rparr>))"
    if "good_pool wf_message p'" "same_leases (transporterMessagePool cm) p'"
      "conn_closed c' = conn_closed ?c" "outbound c' = outbound ?c @ sent" for p' c' sent
  proof (rule cm_evolves_trans)
    show e: "cm_evolves wf_message {} cm (cm\<lparr>transporterMessagePool := p'\<rparr>)"
      by (rule cm_evolves_pool [OF assms(1) that(1,2)])
    show "cm_evolves wf_message {cc} (cm\<lparr>transporterMessagePool := p'\<rparr>)
        (set_conn cc c' (cm\<lparr>transporterMessagePool := p'\<rparr>))"
      by (rule cm_evolves_set_conn [OF cm_evolves_ok [OF e]]) (use assms(2) that in simp_all)
  qed simp_all
  with pool show ?thesis
    by (fastforce simp: SendGuestLeft_def sendPooled_def outcome_simps elim!: on_ret_mono)
qed

lemma handleClientDisconnected_on_ret:
  assumes ok: "rm_ok wf_message rm" and cc: "cc < length (clients (connectionManager rm))"
  shows "on_ret (rm_evolves wf_message UNIV rm) (handleClientDisconnected cc rm)"
proof (cases "findRoomByParticipant cc rm")
  case None
  with rm_evolves_refl [OF ok] show ?thesis by (simp add: handleClientDisconnected_def)
next
  case (Some r)
  have r: "r \<in> set (rooms rm)" "room_ok rm r"
    using find_in [OF Some [unfolded findRoomByParticipant_def]] ok by (auto simp: rm_ok_def rooms_ok_room)
  let ?o = "owner (room_at r rm)"
  have o: "?o < length (clients (connectionManager rm))" using r(2) by (simp add: room_ok_def)
  have closing: "rm_evolves wf_message UNIV rm rm'" if "closeRoom r rm = Ret rm'" for rm'
  proof -
    have "safe (rm_evolves wf_message UNIV rm) (closeRoom r rm)"
      using closeRoom_evolves [OF ok r(1)] by (rule rm_evolves_then [OF rm_evolves_refl [OF ok]]) simp_all
    then show ?thesis using that by simp
  qed
  have leaving: "rm_evolves wf_message UNIV rm rm3"
    if "close_client cc rm = Ret rm1"
      "on_connections (SendGuestLeft (owner (room_at r (set_guest r None rm1)))) (set_guest r None rm1) = Ret (rm3, u)"
    for rm1 rm3 u
  proof -
    let ?rm2 = "set_guest r None rm1"
    have e: "conn_effect wf_message {} rm rm1" using closed [OF ok cc] that(1) by simp
    have r1: "r \<in> set (rooms rm1)" "rooms_ok rm1" "owner (room_at r ?rm2) = ?o"
      using e r conn_effects [OF e] by (simp_all add: rm_ok_def room_ok_def conn_effect_def room_at_set_guest)
    have ev: "rm_evolves wf_message UNIV rm ?rm2"
      using conn_effect_evolves [OF e, of UNIV] rooms_ok_set_guest [OF r1(2,1), of None]
      by (simp add: rm_evolves_def)
    have "cm_ok wf_message (connectionManager ?rm2)" "?o < length (clients (connectionManager ?rm2))"
      using rm_evolves_ok [OF ev] o conn_effects(4) [OF e] by (simp_all add: rm_ok_def)
    from SendGuestLeft_on_ret [OF this] that(2)
    have "cm_evolves wf_message {?o} (connectionManager ?rm2) (connectionManager rm3)"
      "rm3 = ?rm2\<lparr>connectionManager := connectionManager rm3\<rparr>"
      by (auto simp: on_connections_def r1(3) andThen_eq_Ret)
    then have "rm_evolves wf_message {?o} ?rm2 rm3"
      using rm_evolves_ok [OF ev] cm_evolves_clients unfolding rm_evolves_def rm_ok_def
      by (metis rooms_ok_connections)
    then show ?thesis by (rule rm_evolves_trans [OF ev]) simp_all
  qed
  show ?thesis
    using closing leaving rm_evolves_refl [OF ok]
    by (auto simp: handleClientDisconnected_def Some Let_def andThen_eq_Ret intro!: on_retI split: if_splits)
qed

lemma disconnected_keeps:
  assumes ok: "rm_ok wf_message rm" "buffers_accounted (connectionManager rm)"
    and "ClientDisconnectedChannel (connectionManager rm) = cc # rest"
  shows "on_ret (\<lambda>rm'. rm_ok wf_message rm' \<and> buffers_accounted (connectionManager rm') \<and>
     length (clients (connectionManager rm')) = length (clients (connectionManager rm)) \<and>
     listener (connectionManager rm') = listener (connectionManager rm))
     (handleClientDisconnected cc (with_disconnected rest rm))"
proof -
  note w = with_disconnected_ok [OF ok(1) assms(3)]
  have same: "transporterMessagePool (connectionManager (with_disconnected rest rm)) = transporterMessagePool (connectionManager rm)"
    "ClientMessageChannel (connectionManager (with_disconnected rest rm)) = ClientMessageChannel (connectionManager rm)"
    "clients (connectionManager (with_disconnected rest rm)) = clients (connectionManager rm)"
    "listener (connectionManager (with_disconnected rest rm)) = listener (connectionManager rm)"
    by (simp_all add: with_disconnected_def)
  have "buffers_accounted (connectionManager rm')"
    if "cm_evolves wf_message UNIV (connectionManager (with_disconnected rest rm)) (connectionManager rm')"
    for rm' :: RoomManager
    using that ok(2) same by (simp add: buffers_accounted_def cm_evolves_def same_leases_def)
  note accounted = this
  have cc: "cc < length (clients (connectionManager (with_disconnected rest rm)))" using w(2) same(3) by simp
  show ?thesis
  proof (rule on_ret_mono [OF handleClientDisconnected_on_ret [OF w(1) cc]])
    fix rm' assume e: "rm_evolves wf_message UNIV (with_disconnected rest rm) rm'"
    then show "rm_ok wf_message rm' \<and> buffers_accounted (connectionManager rm') \<and>
        length (clients (connectionManager rm')) = length (clients (connectionManager rm)) \<and>
        listener (connectionManager rm') = listener (connectionManager rm)"
      using accounted rm_evolves_ok [OF e] rm_evolves_clients [OF e] same(3,4)
      by (simp add: rm_evolves_def cm_evolves_def)
  qed
qed

subsection \<open>All steps\<close>

lemma step_keeps: "transporter_step s t \<Longrightarrow> transporter_ok s \<Longrightarrow> transporter_ok t"
proof (induction rule: transporter_step.cases)
  case (accept c s)
  then show ?case using accept_keeps by simp
next
  case (network cc s c)
  then show ?case using network_keeps by simp
next
  case (handshake cc s entropy newId rest cm ok)
  then show ?case
    using handshake_keeps by (auto intro!: transporter_ok_readers)
next
  case (read cc s cm ok)
  then show ?case using read_keeps by (auto intro!: transporter_ok_readers)
next
  case (disconnected s rm)
  then obtain cc rest where q: "ClientDisconnectedChannel (cmgr s) = cc # rest"
    "handleClientDisconnected cc (with_disconnected rest (manager s)) = Ret rm"
    by (auto split: list.splits)
  with disconnected disconnected_keeps [of "manager s" cc rest] show ?case
    by (simp add: transporter_ok_def)
next
  case (arrived entropy newId r s rm)
  then obtain mc rest where q: "ClientMessageChannel (cmgr s) = mc # rest"
    "dispatchMessage entropy mc (with_messages rest (manager s)) = Ret rm"
    by (auto split: list.splits)
  with arrived dispatch_keeps [of "manager s" mc rest entropy newId r] show ?case
    by (simp add: transporter_ok_def)
next
  case (stopping s)
  then show ?case using stopping_keeps by simp
next
  case (stop_close s cc cm)
  then show ?case using stop_close_keeps by simp
qed

lemma reachable_ok: "reachable s \<Longrightarrow> transporter_ok s"
  by (induction rule: reachable.induct) (simp_all add: transporter_ok_initial step_keeps)

end
