(* ===== verification/Guest_Left.thy ===== *)
theory Guest_Left
  imports Transporter
begin

text \<open>
  \<open>SendGuestLeft\<close> sets only the command of the message it takes from the pool.  Length,
  checksum and payload are those of whatever message the buffer carried last: the owner
  receives another client's payload, or, when a peer left an oversized length behind, \<open>Write\<close>
  panics on the one goroutine that serves all rooms.
\<close>

section \<open>Sample states for the witnesses\<close>

fun sample_cm :: "net_conn list \<Rightarrow> ConnectionManager" where
  "sample_cm [] = CreateConnectionManager"
| "sample_cm (c # cs) = accept_connection c (sample_cm cs)"

definition sample_rm :: "ConnectionManager \<Rightarrow> roomData list \<Rightarrow> RoomManager" where
  "sample_rm cm rds = \<lparr>connectionManager = cm, roomStore = rds, rooms = [0..<length rds]\<rparr>"

lemma sample_cm_ok: "\<forall>c \<in> set cs. \<not> conn_closed c \<Longrightarrow> cm_ok wf_message (sample_cm cs)"
  by (induction cs) (simp_all add: cm_ok_New cm_ok_accept)

lemma sample_cm_clients:
  "clients (sample_cm cs) = map (\<lambda>c. \<lparr>connection = c, clientId = [], closeOnce = False\<rparr>) (rev cs)"
  "ClientDisconnectedChannel (sample_cm cs) = []" "ClientMessageChannel (sample_cm cs) = []"
  by (induction cs)
    (simp_all add: CreateConnectionManager_def accept_connection_def registerConnection_def)

lemma sample_cm_connections: "set (connections (sample_cm cs)) = {..<length cs}"
  by (induction cs)
    (simp_all add: CreateConnectionManager_def accept_connection_def registerConnection_def
      sample_cm_clients lessThan_Suc)

lemma sample_conn_of:
  "i < length cs \<Longrightarrow> conn_of i (sample_cm cs) = rev cs ! i"
  by (simp add: conn_of_def sample_cm_clients)

lemma sample_rm_simps [simp]:
  "connectionManager (sample_rm cm rds) = cm" "rooms (sample_rm cm rds) = [0..<length rds]"
  "room_at r (sample_rm cm rds) = rds ! r" "roomStore (sample_rm cm rds) = rds"
  by (simp_all add: sample_rm_def room_at_def)

lemma fresh_conn_simps [simp]:
  "inbound (fresh_conn bs) = bs" "\<not> conn_closed (fresh_conn bs)" "outbound (fresh_conn bs) = []"
  by (simp_all add: fresh_conn_def)

declare sample_cm.simps [simp del]

lemmas sample_simps = sample_cm_ok sample_cm_clients sample_cm_connections sample_conn_of

lemma registered_open:
  assumes "cm_ok P cm" "cc \<in> set (connections cm)"
  shows "cc < length (clients cm)" "\<not> conn_closed (conn_of cc cm)"
  using assms unfolding cm_ok_def registered_ok_def by auto

section \<open>The result of closing a connection\<close>

definition closed_client :: "nat \<Rightarrow> ConnectionManager \<Rightarrow> ConnectionManager" where
  "closed_client cc cm =
     (upd_client cc (\<lambda>k. k\<lparr>closeOnce := True, connection := (connection k)\<lparr>conn_closed := True\<rparr>\<rparr>) cm)
       \<lparr>connections := remove1 cc (connections cm),
        ClientDisconnectedChannel := ClientDisconnectedChannel cm @ [cc]\<rparr>"

lemma internalClose_result:
  assumes "cc < length (clients cm)" "cc \<in> set (connections cm)" "\<not> closeOnce (clients cm ! cc)"
    and "\<not> conn_closed (conn_of cc cm)" "length (ClientDisconnectedChannel cm) < ConnectionPoolSize"
  shows "internalClose cc cm = Ret (closed_client cc cm)"
  using assms
  by (simp add: internalClose_def internalCloseClient_def closed_client_def conn_Close_def send_disconnected_def
      conn_of_def set_conn_def upd_client_def Let_def)

lemma internalClose_blocked:
  assumes "cc < length (clients cm)" "cc \<in> set (connections cm)" "\<not> closeOnce (clients cm ! cc)"
    and "ConnectionPoolSize \<le> length (ClientDisconnectedChannel cm)"
  shows "internalClose cc cm = Blocked"
  using assms by (simp add: internalClose_def internalCloseClient_def send_disconnected_def Let_def)

lemma internalClose_done: "closeOnce (clients cm ! cc) \<Longrightarrow> internalClose cc cm = Ret cm"
  by (simp add: internalClose_def)

lemma internalClose_unregistered:
  assumes "cm_ok P cm" "cc < length (clients cm)" "cc \<notin> set (connections cm)"
  shows "\<exists>once. internalClose cc cm = Ret (upd_client cc (\<lambda>k. k\<lparr>closeOnce := once\<rparr>) cm)"
proof (cases "closeOnce (clients cm ! cc)")
  case True
  moreover have "upd_client cc (\<lambda>k. k\<lparr>closeOnce := True\<rparr>) cm = cm"
  proof -
    have "(clients cm ! cc)\<lparr>closeOnce := True\<rparr> = clients cm ! cc" using True by (cases "clients cm ! cc") simp
    then show ?thesis by (simp add: upd_client_def)
  qed
  ultimately show ?thesis by (auto simp: internalClose_def intro!: exI [of _ True])
next
  case False
  let ?cm = "upd_client cc (\<lambda>k. k\<lparr>closeOnce := True\<rparr>) cm"
  have "cm_ok P ?cm" using upd_closeOnce [OF assms(1,2)] by (rule cm_evolves_ok)
  then have "internalCloseClient cc ?cm = Ret ?cm"
    using assms(2,3) by (simp add: internalCloseClient_cases set_conn_same)
  with False show ?thesis by (auto simp: internalClose_def)
qed

lemma closed_client_simps [simp]:
  "transporterMessagePool (closed_client cc cm) = transporterMessagePool cm"
  "length (clients (closed_client cc cm)) = length (clients cm)"
  "ClientMessageChannel (closed_client cc cm) = ClientMessageChannel cm"
  "ClientDisconnectedChannel (closed_client cc cm) = ClientDisconnectedChannel cm @ [cc]"
  "connections (closed_client cc cm) = remove1 cc (connections cm)"
  by (simp_all add: closed_client_def)

lemma closed_client_others:
  "b \<noteq> cc \<Longrightarrow> clients (closed_client cc cm) ! b = clients cm ! b"
  by (simp add: closed_client_def upd_client_def)

lemma closed_client_self:
  "cc < length (clients cm) \<Longrightarrow> closeOnce (clients (closed_client cc cm) ! cc)"
  by (simp add: closed_client_def upd_client_def)

lemma closed_client_ok:
  assumes "cm_ok P cm" "cc < length (clients cm)" "cc \<in> set (connections cm)" "\<not> closeOnce (clients cm ! cc)"
    and "length (ClientDisconnectedChannel cm) < ConnectionPoolSize"
  shows "cm_ok P (closed_client cc cm)"
proof -
  have "\<not> conn_closed (conn_of cc cm)" by (rule registered_open(2) [OF assms(1,3)])
  with internalClose_result [OF assms(2-4) _ assms(5)] internalClose_evolves [OF assms(1,2)]
  show ?thesis using cm_evolves_ok by auto
qed

section \<open>What \<open>SendGuestLeft\<close> sends\<close>

lemma SetDirectCommand_payload:
  assumes "wf_message m"
  shows "payload_bytes (SetDirectCommand c m) = payload_bytes m"
    "PayloadCRC32 (SetDirectCommand c m) = PayloadCRC32 m"
    "payload_fits (SetDirectCommand c m) = payload_fits m"
  using assms
  by (simp_all add: SetDirectCommand_def PayloadLength_def payload_bytes_def payloadBuffer_def payloadCrc32Buffer_def
      payloadLengthBuffer_def PayloadCRC32_def payload_fits_def write_at_def wf_message_def slice_put_at_after
      drop_put_at_before)

lemma SendGuestLeft_next:
  assumes "next_message (transporterMessagePool cm) m" "wf_message m" "payload_fits m"
    and "writable (conn_of cc cm)"
  shows "\<exists>p. SendGuestLeft cc cm = Ret (set_conn cc ((conn_of cc cm)\<lparr>outbound :=
     outbound (conn_of cc cm) @ wire_bytes (SetDirectCommand CommandGuestLeft m)\<rparr>)
     (cm\<lparr>transporterMessagePool := p\<rparr>), None)"
proof -
  let ?m = "SetDirectCommand CommandGuestLeft m" and ?c = "conn_of cc cm"
  have "write_filled (fill_guest_left m) ?c =
      Ret (?m, ?c\<lparr>outbound := outbound ?c @ wire_bytes ?m\<rparr>, None)"
    using Write_writable [of ?m ?c] assms by (simp add: write_filled_def fill_guest_left_def SetDirectCommand_payload)
  moreover obtain p1 a where "withPooled (transporterMessagePool cm) (\<lambda>e. (?c, Some e))
      (\<lambda>m. write_filled (fill_guest_left m) ?c) = andThen (write_filled (fill_guest_left m) ?c)
        (\<lambda>(m', r). Ret (fst (Dispose a (store_data a m' p1)), r))"
    by (rule withPooled_next [OF assms(1)])
  ultimately show ?thesis by (simp add: SendGuestLeft_def sendPooled_def) blast
qed

lemma SendGuestLeft_poisoned:
  assumes "next_message (transporterMessagePool cm) m" "wf_message m" "\<not> payload_fits m"
    and "writable (conn_of cc cm)"
  shows "SendGuestLeft cc cm = Panic"
proof -
  let ?m = "SetDirectCommand CommandGuestLeft m" and ?c = "conn_of cc cm"
  have "write_filled (fill_guest_left m) ?c = Panic"
    using Write_panics [of ?m ?c] assms by (simp add: write_filled_def fill_guest_left_def SetDirectCommand_payload)
  moreover obtain p1 a where "withPooled (transporterMessagePool cm) (\<lambda>e. (?c, Some e))
      (\<lambda>m. write_filled (fill_guest_left m) ?c) = andThen (write_filled (fill_guest_left m) ?c)
        (\<lambda>(m', r). Ret (fst (Dispose a (store_data a m' p1)), r))"
    by (rule withPooled_next [OF assms(1)])
  ultimately show ?thesis by (simp add: SendGuestLeft_def sendPooled_def)
qed

text \<open>
  After the transporter tells one client the id of the room it created, the next
  \<open>SendGuestLeft\<close>, to any other client, carries that room id as its payload (the constants
  say the command has no payload, and the room id is the only secret that protects a room).
\<close>

theorem SendGuestLeft_leaks_room_id:
  assumes "cm_ok wf_message cm" "cc < length (clients cm)" "other < length (clients cm)" "cc \<noteq> other"
    and "writable (conn_of cc cm)" "writable (conn_of other cm)" "length newId \<le> 8"
  shows "\<exists>cm1 cm2. SendRoomCreateResponse cc newId cm = Ret (cm1, None) \<and>
     SendGuestLeft other cm1 = Ret (cm2, None) \<and>
     outbound (conn_of other cm2) =
       outbound (conn_of other cm) @ encode_frame CommandGuestLeft (enc_fields [FStr newId])"
proof -
  from room_created_sender.delivers_next [OF assms(1,2,5), of newId] assms(7)
  obtain p m where s: "SendRoomCreateResponse cc newId cm =
      Ret (set_conn cc ((conn_of cc cm)\<lparr>outbound := outbound (conn_of cc cm) @
        encode_frame (CommandCreateRoom OR CommandResponseMask) (enc_fields [FStr newId])\<rparr>)
        (cm\<lparr>transporterMessagePool := p\<rparr>), None)" (is "_ = Ret (?cm1, None)")
    and m: "next_message p m" "holds_frame m (CommandCreateRoom OR CommandResponseMask) (enc_fields [FStr newId])"
      "sealed m"
    by (auto simp: SendRoomCreateResponse_def)
  have wf: "wf_message m" "payload_fits m" "payload_bytes m = enc_fields [FStr newId]"
    using m(2) by (simp_all add: holds_frame_def)
  have c: "conn_of other ?cm1 = conn_of other cm" "length (clients ?cm1) = length (clients cm)"
    using assms(2,4) clients_set_conn(1) [of cc "cm\<lparr>transporterMessagePool := p\<rparr>"] by simp_all
  have sealed: "sealed (SetDirectCommand CommandGuestLeft m)"
    using m(3) wf(1) by (simp add: sealed_def SetDirectCommand_payload)
  have "wire_bytes (SetDirectCommand CommandGuestLeft m) = encode_frame CommandGuestLeft (enc_fields [FStr newId])"
    using wire_bytes_encode [of "SetDirectCommand CommandGuestLeft m"] wf sealed
    by (simp add: SetDirectCommand_payload)
  moreover from SendGuestLeft_next [of ?cm1 m other] m(1) wf c assms(6)
  obtain q where "SendGuestLeft other ?cm1 = Ret (set_conn other ((conn_of other cm)\<lparr>outbound :=
      outbound (conn_of other cm) @ wire_bytes (SetDirectCommand CommandGuestLeft m)\<rparr>)
      (?cm1\<lparr>transporterMessagePool := q\<rparr>), None)" by auto
  ultimately show ?thesis
    using s assms(3) c(2) by (auto simp: clients_set_conn)
qed

theorem SendGuestLeft_leaks_room_id_witness:
  "\<exists>cm1 cm2. SendRoomCreateResponse 0 ''ABCD1234'' (sample_cm [fresh_conn [], fresh_conn []]) = Ret (cm1, None) \<and>
     SendGuestLeft 1 cm1 = Ret (cm2, None) \<and>
     outbound (conn_of 1 cm2) = outbound (conn_of 1 (sample_cm [fresh_conn [], fresh_conn []])) @
       encode_frame CommandGuestLeft (enc_fields [FStr ''ABCD1234''])"
  by (rule SendGuestLeft_leaks_room_id)
    (simp_all add: sample_simps)

section \<open>A crash from outside\<close>

text \<open>A handshake whose header announces too much leaves that header in the next buffer.\<close>

lemma handshake_poisons_pool:
  assumes ok: "cm_ok wf_message cm" and cc: "cc < length (clients cm)" "cc \<in> set (connections cm)"
    and once: "\<not> closeOnce (clients cm ! cc)" and chan: "length (ClientDisconnectedChannel cm) < ConnectionPoolSize"
    and input: "inbound (conn_of cc cm) = h @ rest" "length h = 12" "Uint32 (slice 4 8 h) > MaxPayloadSize"
  shows "\<exists>cm' m. performHandshake entropy cc cm = Ret (cm', False) \<and>
     next_message (transporterMessagePool cm') m \<and> wf_message m \<and> \<not> payload_fits m \<and>
     length (clients cm') = length (clients cm) \<and> (\<forall>b. b \<noteq> cc \<longrightarrow> clients cm' ! b = clients cm ! b)"
proof -
  let ?p = "transporterMessagePool cm" and ?c = "conn_of cc cm"
  have inv: "pool_inv ?p" and open_cc: "\<not> conn_closed ?c"
    using ok registered_open(2) [OF ok cc(2)] by (simp_all add: cm_ok_def good_pool_def)
  obtain p a m where o: "Obtain ?p = Ret (p, a)" "Data a p = Inr m" "wf_message m"
    by (rule held_obtain [OF ok])
  let ?m = "write_at 0 h m" and ?c1 = "?c\<lparr>inbound := rest\<rparr>"
  let ?cm2 = "store_message a ?m (set_conn cc ?c1 (cm\<lparr>transporterMessagePool := p\<rparr>))"
  have m: "wf_message ?m" "\<not> payload_fits ?m"
    using o(3) input(2,3) by (simp_all add: payload_fits_def header_write_at not_le)
  have cm2: "length (clients ?cm2) = length (clients cm)" "connections ?cm2 = connections cm"
    "ClientDisconnectedChannel ?cm2 = ClientDisconnectedChannel cm"
    "transporterMessagePool ?cm2 = store_data a ?m p" "conn_of cc ?cm2 = ?c1"
    "closeOnce (clients ?cm2 ! cc) = closeOnce (clients cm ! cc)"
    "\<And>b. b \<noteq> cc \<Longrightarrow> clients ?cm2 ! b = clients cm ! b"
    using cc(1) by (simp_all add: store_message_def set_conn_def upd_client_def conn_of_def)
  have "internalClose cc ?cm2 = Ret (closed_client cc ?cm2)"
    using cc once chan open_cc by (intro internalClose_result) (simp_all add: cm2)
  then have "performHandshake entropy cc cm = Ret (dispose_message a (closed_client cc ?cm2), False)"
    using Read_too_large [OF o(3) open_cc input]
    by (simp add: performHandshake_def o(1,2) Let_def closing_def)
  moreover have "next_message (transporterMessagePool (dispose_message a (closed_client cc ?cm2))) ?m"
    using next_after_use [OF inv o(1), of ?m] by (simp add: dispose_message_def cm2(4))
  moreover have "length (clients (dispose_message a (closed_client cc ?cm2))) = length (clients cm)"
    "\<And>b. b \<noteq> cc \<Longrightarrow> clients (dispose_message a (closed_client cc ?cm2)) ! b = clients cm ! b"
    using cm2(1,7) closed_client_others [of _ cc ?cm2] by (simp_all add: dispose_message_def)
  ultimately show ?thesis using m by blast
qed

text \<open>
  C13. Any peer can crash the transporter: it connects and sends twelve bytes that announce an
  oversized payload.  The connection is closed, as intended, but the length stays in the pooled
  buffer, and when a guest's disconnect is handled next, notifying the owner panics on the room
  manager's goroutine, which only recovers from panics in message handlers.
\<close>

theorem oversized_header_crashes_room_manager:
  assumes ok: "rm_ok wf_message rm" and cc: "cc \<in> set (connections (connectionManager rm))"
    and once: "\<not> closeOnce (clients (connectionManager rm) ! cc)"
    and chan: "length (ClientDisconnectedChannel (connectionManager rm)) < ConnectionPoolSize"
    and input: "inbound (conn_of cc (connectionManager rm)) = h @ rest" "length h = 12"
      "Uint32 (slice 4 8 h) > MaxPayloadSize"
    and room: "findRoomByParticipant g rm = Some r" "guest (room_at r rm) = Some g"
      "owner (room_at r rm) \<noteq> g" "g \<noteq> cc" "owner (room_at r rm) \<noteq> cc"
    and left: "closeOnce (clients (connectionManager rm) ! g)"
    and owner: "writable (conn_of (owner (room_at r rm)) (connectionManager rm))"
  shows "\<exists>cm'. performHandshake entropy cc (connectionManager rm) = Ret (cm', False) \<and>
     handleClientDisconnected g (rm\<lparr>connectionManager := cm'\<rparr>) = Panic"
proof -
  let ?cm = "connectionManager rm" and ?o = "owner (room_at r rm)"
  have cm: "cm_ok wf_message ?cm" "cc < length (clients ?cm)"
    using ok cc by (simp_all add: rm_ok_def cm_ok_def registered_ok_def)
  from handshake_poisons_pool [OF cm cc once chan input]
  obtain cm' m where h: "performHandshake entropy cc ?cm = Ret (cm', False)"
    "next_message (transporterMessagePool cm') m" "wf_message m" "\<not> payload_fits m"
    "\<forall>b. b \<noteq> cc \<longrightarrow> clients cm' ! b = clients ?cm ! b" by blast
  have "writable (conn_of ?o cm')" using h(5) room(5) owner by (simp add: conn_of_def)
  then have panic: "SendGuestLeft ?o cm' = Panic" by (rule SendGuestLeft_poisoned [OF h(2-4)])
  have r: "r < length (roomStore rm)"
    using find_in [OF room(1) [unfolded findRoomByParticipant_def]] ok
    by (simp add: rm_ok_def rooms_ok_def room_ok_def)
  have "close_client g (rm\<lparr>connectionManager := cm'\<rparr>) = Ret (rm\<lparr>connectionManager := cm'\<rparr>)"
    using left h(5) room(4) by (simp add: close_client_def Close_def internalClose_done)
  moreover have "findRoomByParticipant g (rm\<lparr>connectionManager := cm'\<rparr>) = Some r"
    using room(1) by (simp add: findRoomByParticipant_def)
  ultimately have "handleClientDisconnected g (rm\<lparr>connectionManager := cm'\<rparr>) = Panic"
    using room(2,3) panic r
    by (simp add: handleClientDisconnected_def Let_def room_at_set_guest on_connections_def)
  with h(1) show ?thesis by blast
qed

definition crash_cm :: ConnectionManager where
  "crash_cm = closed_client 1 (sample_cm [fresh_conn (replicate 12 0xFF), fresh_conn [], fresh_conn []])"

lemma crash_cm_facts:
  "cm_ok wf_message crash_cm" "2 \<in> set (connections crash_cm)" "\<not> closeOnce (clients crash_cm ! 2)"
  "length (ClientDisconnectedChannel crash_cm) < ConnectionPoolSize" "length (clients crash_cm) = 3"
  "conn_of 2 crash_cm = fresh_conn (replicate 12 0xFF)" "conn_of 0 crash_cm = fresh_conn []"
  "closeOnce (clients crash_cm ! Suc 0)"
proof -
  let ?cm = "sample_cm [fresh_conn (replicate 12 0xFF), fresh_conn [], fresh_conn []]"
  show "cm_ok wf_message crash_cm"
    unfolding crash_cm_def
    by (rule closed_client_ok)
      (simp_all add: sample_simps ConnectionPoolSize_def)
  show "2 \<in> set (connections crash_cm)"
    by (simp add: crash_cm_def in_set_remove1 sample_cm_connections)
qed (simp_all add: crash_cm_def conn_of_def closed_client_others closed_client_self sample_cm_clients
    ConnectionPoolSize_def)

theorem oversized_header_crashes_room_manager_witness:
  "\<exists>cm'. performHandshake [] 2 (connectionManager (sample_rm crash_cm
        [\<lparr>roomId = ''ABCD1234'', owner = 0, guest = Some 1\<rparr>])) = Ret (cm', False) \<and>
     handleClientDisconnected 1 ((sample_rm crash_cm
        [\<lparr>roomId = ''ABCD1234'', owner = 0, guest = Some 1\<rparr>])\<lparr>connectionManager := cm'\<rparr>) = Panic"
proof (rule oversized_header_crashes_room_manager [where h = "replicate 12 0xFF" and rest = "[]" and r = 0])
  have "Uint32 (slice 4 8 (replicate 12 0xFF)) = 0xFFFFFFFF" by code_simp
  then show "MaxPayloadSize < Uint32 (slice 4 8 (replicate 12 0xFF))" by (simp add: MaxPayloadSize_def)
qed (simp_all add: rm_ok_def rooms_ok_def room_ok_def crash_cm_facts findRoomByParticipant_def)

end
