(* ===== verification/Protocol_Properties.thy ===== *)
theory Protocol_Properties
  imports Typed_Payloads
begin

text \<open>
  The properties of the wire protocol (\<open>shared/protocol\<close>): frames and typed payloads survive
  the trip over a connection, a reader never panics on what a peer sends, corrupted frames
  are refused, and nothing that a recycled buffer held before reaches a getter's result.
\<close>

section \<open>A sample message for the witnesses\<close>

definition sample_message :: "bytes \<Rightarrow> TransporterMessage" where
  "sample_message payload =
     write_at 12 payload (SetHeader CommandAdbTransport (word_of_nat (length payload))
       (ChecksumIEEE payload) CreateTransporterMessage)"

lemma sample_message_header:
  assumes "length payload \<le> 0xF000"
  shows "sample_message payload =
    after_read CreateTransporterMessage (PutUint32 CommandAdbTransport @
      PutUint32 (word_of_nat (length payload)) @ PutUint32 (ChecksumIEEE payload)) payload"
proof -
  have len: "length (messageBuffer CreateTransporterMessage) = 0xF00C"
    using wf_CreateTransporterMessage by (simp only: wf_message_def)
  have "write_at 8 c (write_at 4 b (write_at 0 a CreateTransporterMessage)) =
      write_at 0 (a @ b @ c) CreateTransporterMessage"
    if "length a = 4" "length b = 4" "length c = 4" for a b c
    using that len by (simp add: write_at_def put_at_def)
  then show ?thesis by (simp add: sample_message_def after_read_def SetHeader_def)
qed

lemma sample_message_holds:
  assumes "length payload \<le> 0xF000"
  shows "holds_frame (sample_message payload) CommandAdbTransport payload"
    "sealed (sample_message payload)"
proof -
  let ?h = "PutUint32 CommandAdbTransport @
      PutUint32 (word_of_nat (length payload)) @ PutUint32 (ChecksumIEEE payload)"
  have le: "(word_of_nat (length payload) :: u32) \<le> MaxPayloadSize"
    using length_u32(2) [OF assms] by simp
  show *: "holds_frame (sample_message payload) CommandAdbTransport payload"
    using holds_after_read [of CreateTransporterMessage ?h payload] le length_u32(1) [OF assms]
    by (simp add: sample_message_header [OF assms] header_slices)
  have "PayloadCRC32 (sample_message payload) = ChecksumIEEE payload"
    using after_read_fields(3) [of CreateTransporterMessage ?h payload] assms
    by (simp add: sample_message_header [OF assms] header_slices)
  with * show "sealed (sample_message payload)" by (simp add: sealed_def holds_frame_def)
qed

lemma sample_message_wf:
  assumes "length payload \<le> 0xF000"
  shows "wf_message (sample_message payload)" "payload_fits (sample_message payload)"
    "Command (sample_message payload) = CommandAdbTransport"
    "payload_bytes (sample_message payload) = payload"
    "wire_bytes (sample_message payload) = encode_frame CommandAdbTransport payload"
  using sample_message_holds [OF assms] wire_bytes_encode [of "sample_message payload"]
  by (simp_all add: holds_frame_def)

section \<open>Frames\<close>



text \<open>
  C2. On every byte stream a peer may send, \<open>Read\<close> returns (it never panics), accepts exactly
  the streams that start with a frame in the sense of the specification \<open>decode_frame\<close>, and
  then holds that frame and has consumed it and nothing more; it reports the specification's
  error otherwise.
\<close>

theorem Read_refines_decode_frame:
  assumes "wf_message m" "\<not> conn_closed c"
  shows "returns (\<lambda>(m', c', err).
     (case decode_frame (in_end c) (inbound c) of
        Inl e \<Rightarrow> err = Some e
      | Inr (command, payload, rest) \<Rightarrow>
          err = None \<and> c' = c\<lparr>inbound := rest\<rparr> \<and> holds_frame m' command payload)) (Read m c)"
  using Read_implements_decode_frame [OF assms] by (auto split: sum.splits)

theorem Read_refines_decode_frame_witness:
  "returns (\<lambda>(m', c', err).
     (case decode_frame ErrEOF [1, 2, 3] of
        Inl e \<Rightarrow> err = Some e
      | Inr (command, payload, rest) \<Rightarrow>
          err = None \<and> c' = fresh_conn [1, 2, 3]\<lparr>inbound := rest\<rparr> \<and>
          holds_frame m' command payload)) (Read CreateTransporterMessage (fresh_conn [1, 2, 3]))"
  using Read_refines_decode_frame [of CreateTransporterMessage "fresh_conn [1, 2, 3]"]
  by (simp add: fresh_conn_def)

text \<open>
  C3. A frame in which one payload byte was changed in transit is refused with the checksum
  error, whatever the byte, its position and its new value.
\<close>

theorem Read_refuses_corrupted_byte:
  assumes "wf_message m" "\<not> conn_closed c" "length (pre @ x # post) \<le> 0xF000" "x \<noteq> y"
    and "encode_frame command (pre @ x # post) = header @ (pre @ x # post)"
    and "inbound c = header @ (pre @ y # post) @ rest"
  shows "\<exists>m' c'. Read m c = Ret (m', c',
     Some (ErrInvalidCRC32 (ChecksumIEEE (pre @ x # post)) (ChecksumIEEE (pre @ y # post))))"
proof -
  have header: "header = PutUint32 command @ PutUint32 (word_of_nat (length (pre @ x # post))) @
      PutUint32 (ChecksumIEEE (pre @ x # post))"
    using assms(5) by (simp add: encode_frame_def)
  have "decode_frame (in_end c) (inbound c) = Inl (ErrInvalidCRC32
      (ChecksumIEEE (pre @ x # post)) (ChecksumIEEE (pre @ y # post)))"
    using decode_corrupted [OF assms(3,4), of "in_end c" command rest] by (simp add: assms(6) header)
  with Read_implements_decode_frame [OF assms(1,2)] show ?thesis by auto
qed

theorem Read_refuses_corrupted_byte_witness:
  "\<exists>m' c'. Read CreateTransporterMessage
       (fresh_conn ((PutUint32 6 @ PutUint32 2 @ PutUint32 (ChecksumIEEE [1, 2])) @ ([1] @ 9 # []) @ []))
     = Ret (m', c', Some (ErrInvalidCRC32 (ChecksumIEEE ([1] @ 2 # [])) (ChecksumIEEE ([1] @ 9 # []))))"
  by (rule Read_refuses_corrupted_byte [where command = 6 and rest = "[]"]) (simp_all add: fresh_conn_def encode_frame_def)

section \<open>Typed payloads\<close>

text \<open>
  A join request keeps its room id, client id and public key from the sender's setter over
  the wire to the receiver's getter, whatever both buffers held before.
\<close>

theorem join_request_over_the_wire:
  assumes "wf_message m" "writable c"
    and "12 + length (RoomId d) + length (JoinClientId d) + length (JoinPublicKey d) \<le> 0xF000"
  shows "\<exists>m' sent. SetPayloadConnectRoom d m = Ret (m', None) \<and>
     Write m' c = Ret (c\<lparr>outbound := outbound c @ sent\<rparr>, None) \<and>
     (\<forall>r p rest. wf_message r \<longrightarrow> \<not> conn_closed p \<longrightarrow> inbound p = sent @ rest \<longrightarrow>
        (\<exists>r'. Read r p = Ret (r', p\<lparr>inbound := rest\<rparr>, None) \<and> Command r' = Command m \<and>
           GetPayloadConnectRoom r' = Ret (Inr d)))"
  using connect_room.over_the_wire [OF assms(1), of d] assms(2,3) by fastforce

theorem join_request_over_the_wire_witness:
  "\<exists>m' sent. SetPayloadConnectRoom
       \<lparr>RoomId = ''ABCD1234'', JoinClientId = ''Q'', JoinPublicKey = [1, 2]\<rparr> CreateTransporterMessage
       = Ret (m', None) \<and>
     Write m' (fresh_conn []) = Ret (fresh_conn []\<lparr>outbound := outbound (fresh_conn []) @ sent\<rparr>, None) \<and>
     (\<forall>r p rest. wf_message r \<longrightarrow> \<not> conn_closed p \<longrightarrow> inbound p = sent @ rest \<longrightarrow>
        (\<exists>r'. Read r p = Ret (r', p\<lparr>inbound := rest\<rparr>, None) \<and>
           Command r' = Command CreateTransporterMessage \<and>
           GetPayloadConnectRoom r' = Ret (Inr
             \<lparr>RoomId = ''ABCD1234'', JoinClientId = ''Q'', JoinPublicKey = [1, 2]\<rparr>)))"
  by (rule join_request_over_the_wire) simp_all

text \<open>
  The owner's answer keeps its decision, client id and public key over the wire; the
  decision is a 32-bit field, so it must be a number in that range.
\<close>

theorem join_answer_over_the_wire:
  assumes "wf_message m" "writable c" "0 \<le> Accepted d" "Accepted d < 2 ^ 32"
    and "12 + length (OwnerClientId d) + length (OwnerPublicKey d) \<le> 0xF000"
  shows "\<exists>m' sent. SetPayloadConnectRoomResult d m = Ret (m', None) \<and>
     Write m' c = Ret (c\<lparr>outbound := outbound c @ sent\<rparr>, None) \<and>
     (\<forall>r p rest. wf_message r \<longrightarrow> \<not> conn_closed p \<longrightarrow> inbound p = sent @ rest \<longrightarrow>
        (\<exists>r'. Read r p = Ret (r', p\<lparr>inbound := rest\<rparr>, None) \<and> Command r' = Command m \<and>
           GetPayloadConnectRoomResponse r' = Ret (Inr d)))"
  using connect_room_result.over_the_wire [OF assms(1), of d] assms(2-5) by fastforce

theorem join_answer_over_the_wire_witness:
  "\<exists>m' sent. SetPayloadConnectRoomResult
       \<lparr>Accepted = 1, OwnerClientId = ''Q'', OwnerPublicKey = [1, 2]\<rparr> CreateTransporterMessage
       = Ret (m', None) \<and>
     Write m' (fresh_conn []) = Ret (fresh_conn []\<lparr>outbound := outbound (fresh_conn []) @ sent\<rparr>, None) \<and>
     (\<forall>r p rest. wf_message r \<longrightarrow> \<not> conn_closed p \<longrightarrow> inbound p = sent @ rest \<longrightarrow>
        (\<exists>r'. Read r p = Ret (r', p\<lparr>inbound := rest\<rparr>, None) \<and>
           Command r' = Command CreateTransporterMessage \<and>
           GetPayloadConnectRoomResponse r' = Ret (Inr
             \<lparr>Accepted = 1, OwnerClientId = ''Q'', OwnerPublicKey = [1, 2]\<rparr>)))"
  by (rule join_answer_over_the_wire) simp_all

text \<open>
  C4. The getters are total and see only the delimited payload: on any message that \<open>Read\<close>
  accepted they return (a value or an error, never a panic), and two messages with the same
  payload give the same result, whatever their buffers hold beyond it.
\<close>

theorem getters_total_and_local:
  assumes "wf_message m" "payload_fits m" "wf_message m'" "payload_fits m'"
    and "payload_bytes m = payload_bytes m'"
  shows "(\<exists>r. GetErrorPayload m = Ret r \<and> GetErrorPayload m' = Ret r) \<and>
     (\<exists>r. GetPayloadConnect m = Ret r \<and> GetPayloadConnect m' = Ret r) \<and>
     (\<exists>r. GetPayloadConnectResponse m = Ret r \<and> GetPayloadConnectResponse m' = Ret r) \<and>
     (\<exists>r. GetPayloadCreateRoomResponse m = Ret r \<and> GetPayloadCreateRoomResponse m' = Ret r) \<and>
     (\<exists>r. GetPayloadConnectRoom m = Ret r \<and> GetPayloadConnectRoom m' = Ret r) \<and>
     (\<exists>r. GetPayloadConnectRoomResponse m = Ret r \<and> GetPayloadConnectRoomResponse m' = Ret r)"
  using assms
  by (simp add: error_payload.get_parse connect_payload.get_parse connect_response.get_parse
      create_room_response.get_parse connect_room.get_parse connect_room_result.get_parse)

theorem getters_total_and_local_witness:
  "\<exists>r. GetErrorPayload (sample_message [1, 2]) = Ret r \<and> GetErrorPayload (sample_message [1, 2]) = Ret r"
  using getters_total_and_local [of "sample_message [1, 2]" "sample_message [1, 2]"]
  by (simp add: sample_message_wf)

text \<open>
  An error message that does not fit the 61440-byte payload buffer is refused with an
  error, and the header of the message is left alone.  (The offsets are 32-bit; the bound
  keeps their sum from wrapping.)
\<close>

theorem SetErrorPayload_too_long:
  assumes "wf_message m" "8 + length (ErrorMessage d) > 0xF000" "length (ErrorMessage d) < 0xFFFF0000"
  shows "\<exists>m' n. SetErrorPayload d m = Ret (m', Some (ErrNoSpace 0xF000 n)) \<and>
     headerBuffer m' = headerBuffer m"
  using error_payload.set_too_long [OF assms(1), of d] assms(2,3) by fastforce

theorem SetErrorPayload_too_long_witness:
  "\<exists>m' n. SetErrorPayload \<lparr>ErrorCode = 1, ErrorMessage = replicate 61440 (CHR ''x'')\<rparr>
       CreateTransporterMessage = Ret (m', Some (ErrNoSpace 0xF000 n)) \<and>
     headerBuffer m' = headerBuffer CreateTransporterMessage"
  by (rule SetErrorPayload_too_long) simp_all

end
