(* ===== verification/Room_Properties.thy ===== *)
theory Room_Properties
  imports Guest_Left Protocol_Properties
begin

text \<open>
  The properties of the transporter: the invariant of all reachable states, the handlers'
  effects on rooms and connections, and the situations in which the handlers do not do what
  the code's comments intend.
\<close>

section \<open>Reachable states\<close>



text \<open>
  No message of any client can make the room manager panic: in every reachable state,
  handling the next message returns or waits, so the recover in \<open>dispatchMessageSafely\<close> is
  never used.  (The entropy source must not fail.)
\<close>

theorem dispatch_never_panics:
  assumes "reachable s" "GenerateClientId entropy = Ret (newId, rest)"
  shows "run_turn (Arrived entropy) (manager s) \<noteq> Some Panic"
proof (cases "ClientMessageChannel (cmgr s)")
  case (Cons mc q)
  have "transporter_ok s" by (rule reachable_ok [OF assms(1)])
  then have "dispatchMessage entropy mc (with_messages q (manager s)) \<noteq> Panic"
    by (intro safe_no_panic [OF dispatch_keeps [OF _ _ Cons assms(2)]]) (simp_all add: transporter_ok_def)
  with Cons show ?thesis by simp
qed simp

lemma sample_entropy: "GenerateClientId (replicate 8 0) = Ret (''AAAA0000'', [])"
  by code_simp

theorem dispatch_never_panics_witness:
  "run_turn (Arrived (replicate 8 0)) (manager initial_transporter) \<noteq> Some Panic"
  by (rule dispatch_never_panics [OF reachable.start sample_entropy])

section \<open>Effects on connections\<close>

text \<open>\<open>delivered t bs cm cm'\<close>: \<open>bs\<close> was sent to \<open>t\<close>, and no other connection changed.\<close>

definition delivered :: "nat \<Rightarrow> bytes \<Rightarrow> ConnectionManager \<Rightarrow> ConnectionManager \<Rightarrow> bool" where
  "delivered t bs cm cm' \<longleftrightarrow> length (clients cm') = length (clients cm) \<and>
     (\<forall>b. conn_of b cm' = (if b = t then (conn_of t cm)\<lparr>outbound := outbound (conn_of t cm) @ bs\<rparr>
                           else conn_of b cm))"

lemma delivered_set_conn:
  "t < length (clients cm) \<Longrightarrow>
   delivered t bs cm (set_conn t ((conn_of t cm)\<lparr>outbound := outbound (conn_of t cm) @ bs\<rparr>)
     (cm\<lparr>transporterMessagePool := p\<rparr>))"
  by (simp add: delivered_def clients_set_conn)

context frame_sender
begin

lemma on_connections_delivers:
  assumes "cm_ok wf_message (connectionManager rm)" "t < length (clients (connectionManager rm))"
    and "writable (conn_of t (connectionManager rm))" "length (payload x) \<le> 0xF000"
  shows "\<exists>cm'. on_connections (sendPooled t (fill x)) rm = Ret (rm\<lparr>connectionManager := cm'\<rparr>, None) \<and>
     delivered t (encode_frame (command x) (payload x)) (connectionManager rm) cm' \<and> cm_ok wf_message cm' \<and>
     (\<forall>b. GetClientId b cm' = GetClientId b (connectionManager rm))"
proof -
  let ?cm = "connectionManager rm"
  let ?c = "(conn_of t ?cm)\<lparr>outbound := outbound (conn_of t ?cm) @ encode_frame (command x) (payload x)\<rparr>"
  from delivers [OF assms] obtain p where p: "sendPooled t (fill x) ?cm =
      Ret (set_conn t ?c (?cm\<lparr>transporterMessagePool := p\<rparr>), None)"
    "good_pool wf_message p" "same_leases (transporterMessagePool ?cm) p" by blast
  have e: "cm_ok wf_message (?cm\<lparr>transporterMessagePool := p\<rparr>)"
    by (rule cm_evolves_ok [OF cm_evolves_pool [OF assms(1) p(2,3)]])
  have "cm_ok wf_message (set_conn t ?c (?cm\<lparr>transporterMessagePool := p\<rparr>))"
    using assms(2) by (intro cm_ok_set_conn [OF e]) simp_all
  with p(1) delivered_set_conn [OF assms(2)] assms(2) show ?thesis
    by (intro exI [of _ "set_conn t ?c (?cm\<lparr>transporterMessagePool := p\<rparr>)"])
      (simp add: on_connections_def clients_set_conn)
qed

end

lemma on_error_Ret: "r = Ret (s, None) \<Longrightarrow> on_error r k = Ret s"
  by (simp add: on_error_def)

lemma find_room:
  assumes "rm_ok P rm" "find Q (rooms rm) = Some r"
  shows "r \<in> set (rooms rm)" "room_ok rm r" "r < length (roomStore rm)"
    "owner (room_at r rm) < length (clients (connectionManager rm))" "Q r"
    "guest (room_at r rm) = Some g \<Longrightarrow> g < length (clients (connectionManager rm))"
  using find_in [OF assms(2)] assms(1) rooms_ok_room [of rm r]
  by (auto simp: rm_ok_def room_ok_def)

section \<open>Creating and joining rooms\<close>

text \<open>
  A client in no room that asks for one gets a new room, empty and owned by it, and is
  told its id; no other connection hears of it.
\<close>

theorem handleCreateRoom_creates:
  assumes "rm_ok wf_message rm" "cc < length (clients (connectionManager rm))"
    and "writable (conn_of cc (connectionManager rm))" "\<not> isClientInARoom cc rm"
    and "GenerateClientId entropy = Ret (newId, rest)"
  shows "\<exists>rm' r. handleCreateRoom entropy cc rm = Ret rm' \<and> rooms rm' = rooms rm @ [r] \<and> r \<notin> set (rooms rm) \<and>
     room_at r rm' = \<lparr>roomId = newId, owner = cc, guest = None\<rparr> \<and>
     (\<forall>q \<in> set (rooms rm). room_at q rm' = room_at q rm) \<and>
     delivered cc (encode_frame (CommandCreateRoom OR CommandResponseMask) (enc_fields [FStr newId]))
       (connectionManager rm) (connectionManager rm')"
proof -
  let ?rm1 = "rm\<lparr>roomStore := roomStore rm @ [\<lparr>roomId = newId, owner = cc, guest = None\<rparr>],
                 rooms := rooms rm @ [length (roomStore rm)]\<rparr>"
  have old: "\<forall>q \<in> set (rooms rm). q < length (roomStore rm)"
    using assms(1) by (simp add: rm_ok_def rooms_ok_def room_ok_def)
  from room_created_sender.on_connections_delivers [of ?rm1 cc newId] assms GenerateClientId_length [OF assms(5)]
  obtain cm' where cm': "on_connections (sendPooled cc (fill_room_created newId)) ?rm1 =
      Ret (?rm1\<lparr>connectionManager := cm'\<rparr>, None)"
    "delivered cc (encode_frame (CommandCreateRoom OR CommandResponseMask) (enc_fields [FStr newId]))
       (connectionManager rm) cm'" by (auto simp: rm_ok_def)
  then have "handleCreateRoom entropy cc rm = Ret (?rm1\<lparr>connectionManager := cm'\<rparr>)"
    using assms(4,5) by (simp add: handleCreateRoom_def Let_def SendRoomCreateResponse_def on_error_Ret)
  with cm'(2) old show ?thesis
    by (intro exI [of _ "?rm1\<lparr>connectionManager := cm'\<rparr>"] exI [of _ "length (roomStore rm)"])
      (auto simp: room_at_def nth_append)
qed

theorem handleCreateRoom_creates_witness:
  "\<exists>rm' r. handleCreateRoom (replicate 8 0) 0 (sample_rm (sample_cm [fresh_conn []]) []) = Ret rm' \<and>
     rooms rm' = rooms (sample_rm (sample_cm [fresh_conn []]) []) @ [r] \<and>
     r \<notin> set (rooms (sample_rm (sample_cm [fresh_conn []]) [])) \<and>
     room_at r rm' = \<lparr>roomId = ''AAAA0000'', owner = 0, guest = None\<rparr> \<and>
     (\<forall>q \<in> set (rooms (sample_rm (sample_cm [fresh_conn []]) [])).
        room_at q rm' = room_at q (sample_rm (sample_cm [fresh_conn []]) [])) \<and>
     delivered 0 (encode_frame (CommandCreateRoom OR CommandResponseMask) (enc_fields [FStr ''AAAA0000'']))
       (connectionManager (sample_rm (sample_cm [fresh_conn []]) [])) (connectionManager rm')"
  by (rule handleCreateRoom_creates [OF _ _ _ _ sample_entropy])
    (simp_all add: rm_ok_def rooms_ok_def sample_simps isClientInARoom_def findRoomByParticipant_def)

lemma handleJoinRoom_asks_owner_lemma:
  assumes ok: "rm_ok wf_message rm" and cc: "cc < length (clients (connectionManager rm))"
    and room: "findRoomById i rm = Some r" "guest (room_at r rm) = None"
    and out: "writable (conn_of (owner (room_at r rm)) (connectionManager rm))"
    and len: "20 + length i + length key \<le> 0xF000"
  shows "\<exists>cm'. handleJoinRoom cc i key rm =
       Ret ((set_guest r (Some cc) rm)\<lparr>connectionManager := cm'\<rparr>) \<and>
     delivered (owner (room_at r rm)) (encode_frame CommandJoinRoom (enc_fields
       [FStr i, FStr (GetClientId cc (connectionManager rm)), FStr (string_of_bytes key)]))
       (connectionManager rm) cm' \<and>
     rm_ok wf_message ((set_guest r (Some cc) rm)\<lparr>connectionManager := cm'\<rparr>) \<and>
     (\<forall>b. GetClientId b cm' = GetClientId b (connectionManager rm))"
proof -
  note r = find_room [OF ok room(1) [unfolded findRoomById_def]]
  let ?rm1 = "set_guest r (Some cc) rm" and ?o = "owner (room_at r rm)"
  let ?id = "GetClientId cc (connectionManager rm)"
  have rooms: "rooms_ok ?rm1" using ok r(1) cc by (intro rooms_ok_set_guest) (simp_all add: rm_ok_def)
  have o: "owner (room_at r ?rm1) = ?o" using r(3) by (simp add: room_at_set_guest)
  have "length ?id \<le> 8" by (rule client_of [OF ok cc])
  with join_request_sender.on_connections_delivers [of ?rm1 ?o "(i, ?id, key)"] ok out len r(4)
  obtain cm' where cm': "on_connections (sendPooled ?o (fill_join_request (i, ?id, key))) ?rm1 =
      Ret (?rm1\<lparr>connectionManager := cm'\<rparr>, None)"
    "delivered ?o (encode_frame CommandJoinRoom (enc_fields [FStr i, FStr ?id, FStr (string_of_bytes key)]))
       (connectionManager rm) cm'" "cm_ok wf_message cm'"
    "\<forall>b. GetClientId b cm' = GetClientId b (connectionManager rm)"
    by (auto simp: rm_ok_def)
  have "handleJoinRoom cc i key rm = Ret (?rm1\<lparr>connectionManager := cm'\<rparr>)"
    using cm'(1) room by (simp add: handleJoinRoom_def Let_def o SendJoinRoomRequest_def on_error_Ret)
  moreover have "rm_ok wf_message (?rm1\<lparr>connectionManager := cm'\<rparr>)"
    using cm'(2,3) rooms by (simp add: rm_ok_def delivered_def)
  ultimately show ?thesis using cm'(2,4) by blast
qed

text \<open>
  C10. A join request for an empty room makes the sender its guest and reaches the owner, with
  the sender's own client id (not the one in the request) and its public key.
\<close>

theorem handleJoinRoom_asks_owner:
  assumes "rm_ok wf_message rm" "cc < length (clients (connectionManager rm))"
    and "findRoomById i rm = Some r" "guest (room_at r rm) = None"
    and "writable (conn_of (owner (room_at r rm)) (connectionManager rm))"
    and "20 + length i + length key \<le> 0xF000"
  shows "\<exists>rm'. handleJoinRoom cc i key rm = Ret rm' \<and> rooms rm' = rooms rm \<and>
     room_at r rm' = (room_at r rm)\<lparr>guest := Some cc\<rparr> \<and>
     (\<forall>q. q \<noteq> r \<longrightarrow> room_at q rm' = room_at q rm) \<and>
     delivered (owner (room_at r rm)) (encode_frame CommandJoinRoom (enc_fields
       [FStr i, FStr (GetClientId cc (connectionManager rm)), FStr (string_of_bytes key)]))
       (connectionManager rm) (connectionManager rm')"
  using handleJoinRoom_asks_owner_lemma [OF assms] find_room(3) [OF assms(1) assms(3) [unfolded findRoomById_def]]
  by (auto simp: room_at_set_guest)

definition sample_room :: "nat option \<Rightarrow> roomData" where
  "sample_room g = \<lparr>roomId = ''ABCD1234'', owner = 0, guest = g\<rparr>"

lemma sample_rm_ok:
  assumes "\<forall>c \<in> set cs. \<not> conn_closed c" "0 < length cs" "pred_option (\<lambda>g. g < length cs) g"
  shows "rm_ok wf_message (sample_rm (sample_cm cs) [sample_room g])"
  using assms by (simp add: rm_ok_def rooms_ok_def room_ok_def sample_simps sample_room_def)

lemma sample_room_simps [simp]:
  "owner (sample_room g) = 0" "guest (sample_room g) = g" "roomId (sample_room g) = ''ABCD1234''"
  by (simp_all add: sample_room_def)

theorem handleJoinRoom_asks_owner_witness:
  "\<exists>rm'. handleJoinRoom 1 ''ABCD1234'' [7]
       (sample_rm (sample_cm [fresh_conn [], fresh_conn []]) [sample_room None]) = Ret rm' \<and>
     rooms rm' = rooms (sample_rm (sample_cm [fresh_conn [], fresh_conn []]) [sample_room None]) \<and>
     room_at 0 rm' = (room_at 0 (sample_rm (sample_cm [fresh_conn [], fresh_conn []]) [sample_room None]))
       \<lparr>guest := Some 1\<rparr>"
  using handleJoinRoom_asks_owner [of "sample_rm (sample_cm [fresh_conn [], fresh_conn []]) [sample_room None]"
      1 "''ABCD1234''" 0 "[7]"] sample_rm_ok [of "[fresh_conn [], fresh_conn []]" None]
  by (auto simp: sample_simps findRoomById_def)

text \<open>
  One guest per room: a request for a room that has a guest changes no room, and the
  sender, and nobody else, is told that the room is full.
\<close>

theorem handleJoinRoom_full:
  assumes "rm_ok wf_message rm" "cc < length (clients (connectionManager rm))"
    and "findRoomById i rm = Some r" "guest (room_at r rm) = Some g"
    and "writable (conn_of cc (connectionManager rm))"
  shows "\<exists>cm'. handleJoinRoom cc i key rm = Ret (rm\<lparr>connectionManager := cm'\<rparr>) \<and>
     delivered cc (encode_frame (CommandJoinRoom OR CommandErrorResponseMask) (enc_fields [FInt ErrorFull,
       FStr ''This room already has a guest; only one guest is allowed per room'']))
       (connectionManager rm) cm'"
  using error_sender.on_connections_delivers [of rm cc "(CommandJoinRoom, ErrorFull,
      ''This room already has a guest; only one guest is allowed per room'')"] assms
  by (auto simp: rm_ok_def handleJoinRoom_def SendErrorResponse_def on_error_Ret)

theorem handleJoinRoom_full_witness:
  "\<exists>cm'. handleJoinRoom 1 ''ABCD1234'' [7]
       (sample_rm (sample_cm [fresh_conn [], fresh_conn []]) [sample_room (Some 0)]) =
       Ret ((sample_rm (sample_cm [fresh_conn [], fresh_conn []]) [sample_room (Some 0)])
         \<lparr>connectionManager := cm'\<rparr>) \<and>
     delivered 1 (encode_frame (CommandJoinRoom OR CommandErrorResponseMask) (enc_fields [FInt ErrorFull,
       FStr ''This room already has a guest; only one guest is allowed per room'']))
       (connectionManager (sample_rm (sample_cm [fresh_conn [], fresh_conn []]) [sample_room (Some 0)])) cm'"
  by (rule handleJoinRoom_full [where r = 0 and g = 0])
    (simp_all add: sample_rm_ok sample_simps findRoomById_def)

text \<open>
  C11. The owner's answer reaches the guest with the owner's client id and key; the guest stays
  exactly when the decision is not 0.
\<close>

theorem handleJoinRoomResponse_answers:
  assumes ok: "rm_ok wf_message rm" and cc: "cc < length (clients (connectionManager rm))"
    and room: "findRoomByOwner cc rm = Some r" "guest (room_at r rm) = Some g"
    and out: "writable (conn_of g (connectionManager rm))" and len: "20 + length key \<le> 0xF000"
  shows "\<exists>rm'. handleJoinRoomResponse cc accepted key rm = Ret rm' \<and> rooms rm' = rooms rm \<and>
     room_at r rm' = (if accepted = 0 then (room_at r rm)\<lparr>guest := None\<rparr> else room_at r rm) \<and>
     (\<forall>q. q \<noteq> r \<longrightarrow> room_at q rm' = room_at q rm) \<and>
     delivered g (encode_frame (CommandJoinRoom OR CommandResponseMask) (enc_fields
       [FInt accepted, FStr (GetClientId cc (connectionManager rm)), FStr (string_of_bytes key)]))
       (connectionManager rm) (connectionManager rm')"
proof -
  note r = find_room [OF ok room(1) [unfolded findRoomByOwner_def]]
  let ?id = "GetClientId cc (connectionManager rm)"
  have "length ?id \<le> 8" by (rule client_of [OF ok cc])
  with join_answer_sender.on_connections_delivers [of rm g "(accepted, ?id, key)"] ok out len r(6) [OF room(2)]
  obtain cm' where cm': "on_connections (sendPooled g (fill_join_answer (accepted, ?id, key))) rm =
      Ret (rm\<lparr>connectionManager := cm'\<rparr>, None)"
    "delivered g (encode_frame (CommandJoinRoom OR CommandResponseMask) (enc_fields
       [FInt accepted, FStr ?id, FStr (string_of_bytes key)])) (connectionManager rm) cm'"
    by (auto simp: rm_ok_def)
  let ?rm1 = "rm\<lparr>connectionManager := cm'\<rparr>"
  have "handleJoinRoomResponse cc accepted key rm =
      Ret (if accepted = 0 then set_guest r None ?rm1 else ?rm1)"
    using cm'(1) room by (simp add: handleJoinRoomResponse_def SendJoinRoomResponse_def)
  with cm'(2) r(3) show ?thesis by (auto simp: room_at_set_guest)
qed

theorem handleJoinRoomResponse_answers_witness:
  "\<exists>rm'. handleJoinRoomResponse 0 0 [7]
       (sample_rm (sample_cm [fresh_conn [], fresh_conn []]) [sample_room (Some 1)]) = Ret rm' \<and>
     guest (room_at 0 rm') = None"
  using handleJoinRoomResponse_answers [of "sample_rm (sample_cm [fresh_conn [], fresh_conn []]) [sample_room (Some 1)]"
      0 0 1 "[7]" 0] sample_rm_ok [of "[fresh_conn [], fresh_conn []]" "Some 1"]
  by (auto simp: sample_simps findRoomByOwner_def)

section \<open>Relaying\<close>

lemma handleAdbTransport_relays_lemma:
  assumes ok: "rm_ok wf_message rm" and room: "findRoomByParticipant cc rm = Some r"
    and other: "other_participant cc (room_at r rm) = Some t"
    and out: "writable (conn_of t (connectionManager rm))" and m: "wf_message m" "payload_fits m"
  shows "\<exists>cm'. handleAdbTransport cc m rm = Ret (rm\<lparr>connectionManager := cm'\<rparr>) \<and>
     delivered t (wire_bytes m) (connectionManager rm) cm'"
proof -
  have t: "t < length (clients (connectionManager rm))"
    using find_room(4,6) [OF ok room [unfolded findRoomByParticipant_def]] other
    by (auto simp: other_participant_def split: if_splits)
  let ?cm = "set_conn t ((conn_of t (connectionManager rm))
      \<lparr>outbound := outbound (conn_of t (connectionManager rm)) @ wire_bytes m\<rparr>) (connectionManager rm)"
  from t have "delivered t (wire_bytes m) (connectionManager rm) ?cm"
    by (simp add: delivered_def clients_set_conn)
  then show ?thesis
    using Write_writable [OF m out]
    by (intro exI [of _ ?cm]) (simp add: handleAdbTransport_def room other on_connections_def Send_def)
qed

text \<open>
  C9. An ADB message from a participant reaches the other participant of its room byte for byte;
  no other connection receives anything and no room changes.
\<close>

theorem handleAdbTransport_relays:
  assumes "rm_ok wf_message rm" "findRoomByParticipant cc rm = Some r"
    and "other_participant cc (room_at r rm) = Some t"
    and "writable (conn_of t (connectionManager rm))" "wf_message m" "payload_fits m"
  shows "\<exists>cm'. handleAdbTransport cc m rm = Ret (rm\<lparr>connectionManager := cm'\<rparr>) \<and>
     delivered t (wire_bytes m) (connectionManager rm) cm'"
  by (rule handleAdbTransport_relays_lemma [OF assms])

theorem handleAdbTransport_relays_witness:
  "\<exists>cm'. handleAdbTransport 0 (sample_message [1, 2])
       (sample_rm (sample_cm [fresh_conn [], fresh_conn []]) [sample_room (Some 1)]) =
       Ret ((sample_rm (sample_cm [fresh_conn [], fresh_conn []]) [sample_room (Some 1)])\<lparr>connectionManager := cm'\<rparr>) \<and>
     delivered 1 (wire_bytes (sample_message [1, 2]))
       (connectionManager (sample_rm (sample_cm [fresh_conn [], fresh_conn []]) [sample_room (Some 1)])) cm'"
  by (rule handleAdbTransport_relays [where r = 0])
    (simp_all add: sample_rm_ok sample_simps findRoomByParticipant_def other_participant_def sample_message_wf)

text \<open>
  The relay does not wait for the owner: right after its join request, before any answer, a
  client that was in no room has its ADB messages delivered to the owner.  (The README says the
  relay starts once the owner accepts.)
\<close>

theorem pending_guest_is_relayed:
  assumes ok: "rm_ok wf_message rm" and cc: "cc < length (clients (connectionManager rm))"
    and fresh: "findRoomByParticipant cc rm = None"
    and room: "findRoomById i rm = Some r" "guest (room_at r rm) = None"
    and out: "writable (conn_of (owner (room_at r rm)) (connectionManager rm))"
    and len: "20 + length i + length key \<le> 0xF000" and m: "wf_message m" "payload_fits m"
  shows "\<exists>rm1 rm2. handleJoinRoom cc i key rm = Ret rm1 \<and> handleAdbTransport cc m rm1 = Ret rm2 \<and>
     delivered (owner (room_at r rm)) (wire_bytes m) (connectionManager rm1) (connectionManager rm2)"
proof -
  note r = find_room [OF ok room(1) [unfolded findRoomById_def]]
  from handleJoinRoom_asks_owner_lemma [OF ok cc room out len] obtain cm' where j:
    "handleJoinRoom cc i key rm = Ret ((set_guest r (Some cc) rm)\<lparr>connectionManager := cm'\<rparr>)"
    "delivered (owner (room_at r rm)) (encode_frame CommandJoinRoom (enc_fields
       [FStr i, FStr (GetClientId cc (connectionManager rm)), FStr (string_of_bytes key)]))
       (connectionManager rm) cm'"
    "rm_ok wf_message ((set_guest r (Some cc) rm)\<lparr>connectionManager := cm'\<rparr>)"
    by blast
  let ?rm1 = "(set_guest r (Some cc) rm)\<lparr>connectionManager := cm'\<rparr>"
  have none: "owner (room_at q rm) \<noteq> cc \<and> guest (room_at q rm) \<noteq> Some cc" if "q \<in> set (rooms rm)" for q
    using find_none [OF fresh [unfolded findRoomByParticipant_def] that] by simp
  have at: "room_at q ?rm1 = (if q = r then (room_at r rm)\<lparr>guest := Some cc\<rparr> else room_at q rm)" for q
    using r(3) by (simp add: room_at_set_guest)
  obtain q where q: "findRoomByParticipant cc ?rm1 = Some q"
    using r(1) at [of r]
    by (cases "findRoomByParticipant cc ?rm1") (auto simp: findRoomByParticipant_def find_None_iff)
  have "q = r"
    using find_in [OF q [unfolded findRoomByParticipant_def]] none at [of q] by (auto split: if_splits)
  then have "other_participant cc (room_at q ?rm1) = Some (owner (room_at r rm))"
    using none [OF r(1)] at [of r] by (simp add: other_participant_def)
  moreover have "writable (conn_of (owner (room_at r rm)) cm')"
    using j(2) out by (simp add: delivered_def)
  ultimately show ?thesis
    using handleAdbTransport_relays_lemma [OF j(3) q _ _ m, of "owner (room_at r rm)"] j(1) by fastforce
qed

theorem pending_guest_is_relayed_witness:
  "\<exists>rm1 rm2. handleJoinRoom 1 ''ABCD1234'' [7]
       (sample_rm (sample_cm [fresh_conn [], fresh_conn []]) [sample_room None]) = Ret rm1 \<and>
     handleAdbTransport 1 (sample_message [1, 2]) rm1 = Ret rm2 \<and>
     delivered 0 (wire_bytes (sample_message [1, 2])) (connectionManager rm1) (connectionManager rm2)"
  using pending_guest_is_relayed [of "sample_rm (sample_cm [fresh_conn [], fresh_conn []]) [sample_room None]"
      1 "''ABCD1234''" 0 "[7]" "sample_message [1, 2]"] sample_rm_ok [of "[fresh_conn [], fresh_conn []]" None]
  by (simp add: sample_simps findRoomById_def findRoomByParticipant_def sample_message_wf)

section \<open>Disconnects\<close>

text \<open>
  Nothing checks whether a joining client is already in a room: the same client becomes the
  guest of two rooms, although a client is meant to occupy one, and when it disconnects only
  the first of them is cleared.
\<close>

theorem client_is_guest_of_two_rooms:
  assumes ok: "rm_ok wf_message rm" and cc: "cc < length (clients (connectionManager rm))"
    and r: "findRoomById i rm = Some r" "guest (room_at r rm) = None"
      "writable (conn_of (owner (room_at r rm)) (connectionManager rm))"
    and q: "findRoomById j rm = Some q" "guest (room_at q rm) = None"
      "writable (conn_of (owner (room_at q rm)) (connectionManager rm))"
    and "i \<noteq> j" and len: "20 + length i + length key \<le> 0xF000" "20 + length j + length key \<le> 0xF000"
  shows "\<exists>rm1 rm2. handleJoinRoom cc i key rm = Ret rm1 \<and> handleJoinRoom cc j key rm1 = Ret rm2 \<and> r \<noteq> q \<and>
     guest (room_at r rm2) = Some cc \<and> guest (room_at q rm2) = Some cc"
proof -
  note rr = find_room [OF ok r(1) [unfolded findRoomById_def]]
  note qq = find_room [OF ok q(1) [unfolded findRoomById_def]]
  have ne: "r \<noteq> q" using rr(5) qq(5) \<open>i \<noteq> j\<close> by auto
  from handleJoinRoom_asks_owner_lemma [OF ok cc r len(1)] obtain cm1 where j1:
    "handleJoinRoom cc i key rm = Ret ((set_guest r (Some cc) rm)\<lparr>connectionManager := cm1\<rparr>)"
    "delivered (owner (room_at r rm)) (encode_frame CommandJoinRoom (enc_fields
       [FStr i, FStr (GetClientId cc (connectionManager rm)), FStr (string_of_bytes key)]))
       (connectionManager rm) cm1"
    "rm_ok wf_message ((set_guest r (Some cc) rm)\<lparr>connectionManager := cm1\<rparr>)"
    by blast
  let ?rm1 = "(set_guest r (Some cc) rm)\<lparr>connectionManager := cm1\<rparr>"
  have at: "room_at p ?rm1 = (if p = r then (room_at r rm)\<lparr>guest := Some cc\<rparr> else room_at p rm)" for p
    using rr(3) by (simp add: room_at_set_guest)
  have "roomId (room_at p ?rm1) = roomId (room_at p rm)" for p
    using rr(3) by (simp add: room_at_set_guest)
  then have f: "findRoomById j ?rm1 = Some q" using q(1) by (simp add: findRoomById_def)
  have oq: "room_at q ?rm1 = room_at q rm" using rr(3) ne by (simp add: room_at_set_guest)
  have "cc < length (clients (connectionManager ?rm1))"
    "writable (conn_of (owner (room_at q ?rm1)) (connectionManager ?rm1))"
    unfolding oq using j1(2) cc q(3) r(3) by (auto simp: delivered_def)
  from handleJoinRoom_asks_owner_lemma [OF j1(3) this(1) f _ this(2) len(2)] q(2) ne obtain cm2 where
    "handleJoinRoom cc j key ?rm1 = Ret ((set_guest q (Some cc) ?rm1)\<lparr>connectionManager := cm2\<rparr>)"
    unfolding oq by auto
  with j1(1) ne rr(3) qq(3) show ?thesis by (auto simp: room_at_set_guest)
qed

theorem client_is_guest_of_two_rooms_witness:
  "\<exists>rm1 rm2. handleJoinRoom 1 ''ABCD1234'' []
       (sample_rm (sample_cm [fresh_conn [], fresh_conn [], fresh_conn []])
         [sample_room None, \<lparr>roomId = ''EFGH5678'', owner = 2, guest = None\<rparr>]) = Ret rm1 \<and>
     handleJoinRoom 1 ''EFGH5678'' [] rm1 = Ret rm2 \<and> (0 :: nat) \<noteq> 1 \<and>
     guest (room_at 0 rm2) = Some 1 \<and> guest (room_at 1 rm2) = Some 1"
  by (rule client_is_guest_of_two_rooms)
    (simp_all add: rm_ok_def rooms_ok_def room_ok_def sample_simps findRoomById_def)

text \<open>
  When the two channels are ready at once, \<open>select\<close> may handle a client's disconnect before
  the room request it sent: the room is then created for a closed connection and stays, since
  the failed answer only closes the connection again, which announces nothing.
\<close>

theorem room_of_a_closed_client_stays:
  assumes ok: "rm_ok wf_message rm" and cc: "cc < length (clients (connectionManager rm))"
    and gone: "cc \<notin> set (connections (connectionManager rm))"
      "cc \<notin> set (ClientDisconnectedChannel (connectionManager rm))"
    and free: "\<not> isClientInARoom cc rm" and id: "GenerateClientId entropy = Ret (newId, rest)"
  shows "\<exists>rm' r. handleCreateRoom entropy cc rm = Ret rm' \<and> r \<in> set (rooms rm') \<and>
     owner (room_at r rm') = cc \<and> cc \<notin> set (connections (connectionManager rm')) \<and>
     cc \<notin> set (ClientDisconnectedChannel (connectionManager rm'))"
proof -
  let ?cm = "connectionManager rm"
  let ?rm1 = "rm\<lparr>roomStore := roomStore rm @ [\<lparr>roomId = newId, owner = cc, guest = None\<rparr>],
                 rooms := rooms rm @ [length (roomStore rm)]\<rparr>"
  have cm: "cm_ok wf_message ?cm" using ok by (simp add: rm_ok_def)
  from room_created_sender.evolves [OF _ cm cc, of newId] GenerateClientId_length [OF id]
  obtain cm1 e where s: "sendPooled cc (fill_room_created newId) ?cm = Ret (cm1, e)"
    "cm_evolves wf_message {cc} ?cm cm1" by (auto elim!: returnsE)
  have same: "ClientDisconnectedChannel cm1 = ClientDisconnectedChannel ?cm" "connections cm1 = connections ?cm"
    using s(1) by (auto simp: sendPooled_def andThen_eq_Ret split: prod.splits)
  have cc1: "cc < length (clients cm1)" using cc cm_evolves_clients [OF s(2)] by simp
  obtain once where c: "internalClose cc cm1 = Ret (upd_client cc (\<lambda>k. k\<lparr>closeOnce := once\<rparr>) cm1)"
    using internalClose_unregistered [OF cm_evolves_ok [OF s(2)] cc1] same(2) gone(1) by auto
  have "\<exists>cm2. handleCreateRoom entropy cc rm = Ret (?rm1\<lparr>connectionManager := cm2\<rparr>) \<and>
      connections cm2 = connections ?cm \<and> ClientDisconnectedChannel cm2 = ClientDisconnectedChannel ?cm"
    using free s(1) c same
    by (cases e) (auto simp: handleCreateRoom_def id Let_def SendRoomCreateResponse_def on_connections_def
        on_error_def close_client_def Close_def)
  then show ?thesis
    using gone by (auto simp: room_at_def nth_append intro!: exI [of _ "length (roomStore rm)"])
qed

definition left_cm :: ConnectionManager where
  "left_cm = (closed_client 0 (sample_cm [fresh_conn []]))\<lparr>ClientDisconnectedChannel := []\<rparr>"

lemma left_cm_facts:
  "cm_ok wf_message left_cm" "length (clients left_cm) = 1" "connections left_cm = []"
  "ClientDisconnectedChannel left_cm = []"
proof -
  have c: "connections (sample_cm [fresh_conn []]) = [0]"
    by (simp add: sample_cm.simps CreateConnectionManager_def accept_connection_def registerConnection_def)
  then show "connections left_cm = []" by (simp add: left_cm_def)
  have "cm_ok wf_message (closed_client 0 (sample_cm [fresh_conn []]))"
    by (rule closed_client_ok) (simp_all add: sample_simps ConnectionPoolSize_def)
  then show "cm_ok wf_message left_cm"
    by (simp add: left_cm_def cm_ok_def registered_ok_def pending_ok_def conn_of_def GetClientId_def)
qed (simp_all add: left_cm_def sample_simps)

theorem room_of_a_closed_client_stays_witness:
  "\<exists>rm' r. handleCreateRoom (replicate 8 0) 0 (sample_rm left_cm []) = Ret rm' \<and> r \<in> set (rooms rm') \<and>
     owner (room_at r rm') = 0 \<and> 0 \<notin> set (connections (connectionManager rm')) \<and>
     0 \<notin> set (ClientDisconnectedChannel (connectionManager rm'))"
  by (rule room_of_a_closed_client_stays [OF _ _ _ _ _ sample_entropy])
    (simp_all add: rm_ok_def rooms_ok_def left_cm_facts isClientInARoom_def findRoomByParticipant_def)



end
