(* ===== verification/Reader_Properties.thy ===== *)
theory Reader_Properties
  imports Guest_Left
begin

text \<open>
  What the connection's goroutine does with the frames a client sends: the handshake assigns an
  id or refuses the protocol version, and every later frame is queued exactly as it was sent.
\<close>

text \<open>A buffer is obtained and a frame is read into it.\<close>

lemma read_into_buffer:
  assumes "cm_ok wf_message cm" "cc < length (clients cm)" "\<not> conn_closed (conn_of cc cm)"
    and "inbound (conn_of cc cm) = encode_frame command payload @ rest" "length payload \<le> 0xF000"
  obtains p a m m1 where "Obtain (transporterMessagePool cm) = Ret (p, a)" "Data a p = Inr m"
    "Read m (conn_of cc cm) = Ret (m1, (conn_of cc cm)\<lparr>inbound := rest\<rparr>, None)"
    "holds_frame m1 command payload"
    "held a cm (store_message a m1 (set_conn cc ((conn_of cc cm)\<lparr>inbound := rest\<rparr>)
       (cm\<lparr>transporterMessagePool := p\<rparr>)))"
    "Data a (transporterMessagePool (store_message a m1 (set_conn cc ((conn_of cc cm)\<lparr>inbound := rest\<rparr>)
       (cm\<lparr>transporterMessagePool := p\<rparr>)))) = Inr m1"
proof -
  obtain p a m where o: "Obtain (transporterMessagePool cm) = Ret (p, a)" "Data a p = Inr m" "wf_message m"
    "held a cm (cm\<lparr>transporterMessagePool := p\<rparr>)" by (rule held_obtain [OF assms(1)])
  have "decode_frame (in_end (conn_of cc cm)) (inbound (conn_of cc cm)) = Inr (command, payload, rest)"
    unfolding assms(4) by (rule decode_encode_frame [OF assms(5)])
  with Read_implements_decode_frame [OF o(3) assms(3)] obtain m1 where
    r: "Read m (conn_of cc cm) = Ret (m1, (conn_of cc cm)\<lparr>inbound := rest\<rparr>, None)"
    "holds_frame m1 command payload" by auto
  have h: "held a cm (set_conn cc ((conn_of cc cm)\<lparr>inbound := rest\<rparr>) (cm\<lparr>transporterMessagePool := p\<rparr>))"
    using assms(2) by (intro held_set_conn o(4)) simp_all
  have wf: "wf_message m1" using r(2) by (simp add: holds_frame_def)
  show thesis using that [OF o(1,2) r held_store [OF h wf]] .
qed

lemma connect_version:
  assumes "holds_frame m CommandConnect (PutUint32 v)"
  shows "GetPayloadConnect m = Ret (Inr \<lparr>ClientProtocolVersion = v\<rparr>)"
proof (rule connect_payload.get_layout)
  show "payload_bytes m = enc_fields [FInt (uint (ClientProtocolVersion \<lparr>ClientProtocolVersion = v\<rparr>))] @ []"
    using assms by (simp add: holds_frame_def enc_field.simps)
  have "uint v < 2 ^ LENGTH(32)" by (rule unsigned_less)
  then show "list_all exact_field [FInt (uint (ClientProtocolVersion \<lparr>ClientProtocolVersion = v\<rparr>))]" by simp
qed (use assms in \<open>simp_all add: holds_frame_def\<close>)

lemma clients_store_message [simp]:
  "conn_of b (store_message a m cm) = conn_of b cm"
  "GetClientId b (store_message a m cm) = GetClientId b cm"
  "clients (store_message a m cm) = clients cm" "connections (store_message a m cm) = connections cm"
  "ClientDisconnectedChannel (store_message a m cm) = ClientDisconnectedChannel cm"
  "ClientMessageChannel (store_message a m cm) = ClientMessageChannel cm"
  by (simp_all add: store_message_def conn_of_def GetClientId_def)

lemma clients_dispose_message [simp]:
  "conn_of b (dispose_message a cm) = conn_of b cm"
  "GetClientId b (dispose_message a cm) = GetClientId b cm"
  "clients (dispose_message a cm) = clients cm" "connections (dispose_message a cm) = connections cm"
  "ClientDisconnectedChannel (dispose_message a cm) = ClientDisconnectedChannel cm"
  by (simp_all add: dispose_message_def conn_of_def GetClientId_def)

lemma clients_client_id:
  assumes "cc < length (clients cm)"
  shows "conn_of b (upd_client cc (\<lambda>k. k\<lparr>clientId := i\<rparr>) cm) = conn_of b cm"
    "GetClientId cc (upd_client cc (\<lambda>k. k\<lparr>clientId := i\<rparr>) cm) = i"
  using assms by (cases "b = cc"; simp add: conn_of_def GetClientId_def upd_client_def)+

lemma performHandshake_assigns:
  assumes ok: "cm_ok wf_message cm" "cc < length (clients cm)" and out: "writable (conn_of cc cm)"
    and input: "inbound (conn_of cc cm) = encode_frame CommandConnect (PutUint32 ProtocolVersion) @ rest"
    and id: "GenerateClientId entropy = Ret (newId, entropy')"
  shows "\<exists>cm'. performHandshake entropy cc cm = Ret (cm', True) \<and> GetClientId cc cm' = newId \<and>
     conn_of cc cm' = (conn_of cc cm)\<lparr>inbound := rest, outbound := outbound (conn_of cc cm) @
       encode_frame (CommandConnect OR CommandResponseMask) (enc_fields [FStr newId])\<rparr> \<and>
     (\<forall>b. b \<noteq> cc \<longrightarrow> conn_of b cm' = conn_of b cm)"
proof -
  let ?c = "conn_of cc cm"
  have "open": "\<not> conn_closed ?c" using out by (simp add: writable_def)
  obtain p a m m1 where o: "Obtain (transporterMessagePool cm) = Ret (p, a)" "Data a p = Inr m"
    "Read m ?c = Ret (m1, ?c\<lparr>inbound := rest\<rparr>, None)" "holds_frame m1 CommandConnect (PutUint32 ProtocolVersion)"
    by (rule read_into_buffer [OF ok "open" input]) simp
  have wf: "wf_message m1" "Command m1 = CommandConnect" using o(4) by (simp_all add: holds_frame_def)
  have short: "length newId \<le> 8" using GenerateClientId_length [OF id] by simp
  obtain m2 where m2: "SetPayloadConnectResponse \<lparr>ClientId = newId\<rparr> (SetResponseCommand CommandConnect m1) = Ret (m2, None)"
    "holds_frame m2 (CommandConnect OR CommandResponseMask) (enc_fields [FStr newId])" "sealed m2"
    by (rule connect_response_fits [OF wf(1) short])
  have wire: "wire_bytes m2 = encode_frame (CommandConnect OR CommandResponseMask) (enc_fields [FStr newId])"
    "wf_message m2" "payload_fits m2"
    using wire_bytes_encode [of m2] m2(2,3) by (simp_all add: holds_frame_def)
  let ?cm1 = "store_message a m1 (set_conn cc (?c\<lparr>inbound := rest\<rparr>) (cm\<lparr>transporterMessagePool := p\<rparr>))"
  let ?cm2 = "store_message a m2 (upd_client cc (\<lambda>k. k\<lparr>clientId := newId\<rparr>) ?cm1)"
  let ?c2 = "?c\<lparr>inbound := rest, outbound := outbound ?c @ wire_bytes m2\<rparr>"
  have cm2: "conn_of b ?cm2 = (if b = cc then ?c\<lparr>inbound := rest\<rparr> else conn_of b cm)"
    "GetClientId cc ?cm2 = newId" "length (clients ?cm2) = length (clients cm)" for b
    using ok(2) by (simp_all add: clients_client_id clients_set_conn)
  have "Send cc m2 ?cm2 = Ret (set_conn cc ?c2 ?cm2, None)"
    using Write_writable [OF wire(2,3), of "?c\<lparr>inbound := rest\<rparr>"] out cm2(1) by (simp add: Send_def writable_def)
  then have "handleConnectHandshake entropy cc a m1 ?cm1 = Ret (set_conn cc ?c2 ?cm2, True)"
    by (simp add: handleConnectHandshake_def connect_version [OF o(4)] id Let_def m2(1))
  then have "performHandshake entropy cc cm = Ret (dispose_message a (set_conn cc ?c2 ?cm2), True)"
    by (simp add: performHandshake_def o(1-3) Let_def wf(2))
  moreover have "conn_of b (set_conn cc ?c2 ?cm2) = (if b = cc then ?c2 else conn_of b cm)"
    "GetClientId cc (set_conn cc ?c2 ?cm2) = newId" for b
    using ok(2) cm2 by (simp_all add: clients_set_conn)
  ultimately show ?thesis unfolding wire(1) by simp
qed

text \<open>
  A client that opens with CNXN and the server's protocol version is assigned a fresh id: the
  connection remembers it, the answer with that id is all that is sent, and the client's next
  bytes are left unread.
\<close>

theorem handshake_assigns_id:
  assumes ok: "cm_ok wf_message cm" "cc < length (clients cm)" and out: "writable (conn_of cc cm)"
    and input: "inbound (conn_of cc cm) = encode_frame CommandConnect (PutUint32 ProtocolVersion) @ rest"
    and id: "GenerateClientId entropy = Ret (newId, entropy')"
  shows "\<exists>cm'. performHandshake entropy cc cm = Ret (cm', True) \<and> GetClientId cc cm' = newId \<and>
     conn_of cc cm' = (conn_of cc cm)\<lparr>inbound := rest, outbound := outbound (conn_of cc cm) @
       encode_frame (CommandConnect OR CommandResponseMask) (enc_fields [FStr newId])\<rparr> \<and>
     (\<forall>b. b \<noteq> cc \<longrightarrow> conn_of b cm' = conn_of b cm)"
  by (rule performHandshake_assigns [OF assms])

definition hello_conn :: "u32 \<Rightarrow> net_conn" where
  "hello_conn v = fresh_conn (encode_frame CommandConnect (PutUint32 v) @ [])"

theorem handshake_assigns_id_witness:
  "\<exists>cm'. performHandshake (replicate 8 0) 0 (sample_cm [hello_conn ProtocolVersion]) = Ret (cm', True) \<and>
     GetClientId 0 cm' = ''AAAA0000''"
proof -
  have id: "GenerateClientId (replicate 8 0) = Ret (''AAAA0000'', [])" by code_simp
  have cm: "cm_ok wf_message (sample_cm [hello_conn ProtocolVersion])"
    "conn_of 0 (sample_cm [hello_conn ProtocolVersion]) = hello_conn ProtocolVersion"
    "0 < length (clients (sample_cm [hello_conn ProtocolVersion]))"
    by (simp_all add: sample_simps hello_conn_def)
  show ?thesis
    using handshake_assigns_id [OF cm(1,3) _ _ id, of "[]"] cm(2) by (auto simp: hello_conn_def)
qed

text \<open>
  C12. A client with another protocol version is told so, in a message that names both versions,
  is closed and unregistered, and its disconnect is announced once.
\<close>

theorem handshake_refuses_version:
  assumes ok: "cm_ok wf_message cm" "cc \<in> set (connections cm)" and out: "writable (conn_of cc cm)"
    and input: "inbound (conn_of cc cm) = encode_frame CommandConnect (PutUint32 v) @ rest"
    and v: "v \<noteq> ProtocolVersion" and chan: "length (ClientDisconnectedChannel cm) < ConnectionPoolSize"
  shows "\<exists>cm'. performHandshake entropy cc cm = Ret (cm', False) \<and>
     conn_of cc cm' = (conn_of cc cm)\<lparr>inbound := rest, outbound := outbound (conn_of cc cm) @
       encode_frame (CommandConnect OR CommandErrorResponseMask)
         (enc_fields [FInt ErrorProtocolNotSupported, FStr (mismatch_text v)]), conn_closed := True\<rparr> \<and>
     connections cm' = remove1 cc (connections cm) \<and>
     ClientDisconnectedChannel cm' = ClientDisconnectedChannel cm @ [cc]"
proof -
  let ?c = "conn_of cc cm"
  have cc: "cc < length (clients cm)" by (rule registered_open(1) [OF ok])
  have "open": "\<not> conn_closed ?c" using out by (simp add: writable_def)
  obtain p a m m1 where o: "Obtain (transporterMessagePool cm) = Ret (p, a)" "Data a p = Inr m"
    "Read m ?c = Ret (m1, ?c\<lparr>inbound := rest\<rparr>, None)" "holds_frame m1 CommandConnect (PutUint32 v)"
    "held a cm (store_message a m1 (set_conn cc (?c\<lparr>inbound := rest\<rparr>) (cm\<lparr>transporterMessagePool := p\<rparr>)))"
    by (rule read_into_buffer [OF ok(1) cc "open" input]) simp
  have wf: "Command m1 = CommandConnect" using o(4) by (simp add: holds_frame_def)
  let ?cm1 = "store_message a m1 (set_conn cc (?c\<lparr>inbound := rest\<rparr>) (cm\<lparr>transporterMessagePool := p\<rparr>))"
  let ?payload = "enc_fields [FInt ErrorProtocolNotSupported, FStr (mismatch_text v)]"
  let ?c2 = "?c\<lparr>inbound := rest, outbound := outbound ?c @
      encode_frame (CommandConnect OR CommandErrorResponseMask) ?payload\<rparr>"
  have cm1: "conn_of cc ?cm1 = ?c\<lparr>inbound := rest\<rparr>" "length (clients ?cm1) = length (clients cm)"
    "connections ?cm1 = connections cm" "ClientDisconnectedChannel ?cm1 = ClientDisconnectedChannel cm"
    using cc by (simp_all add: clients_set_conn)
  have "length (mismatch_text v) \<le> 100"
    using length_decimal_u32 [of v] length_decimal_u32 [of ProtocolVersion] by (simp add: mismatch_text_def)
  then have len: "length ?payload \<le> 0xF000" by simp
  have w: "writable (conn_of cc ?cm1)" unfolding cm1(1) using out by (simp add: writable_def)
  have "cc < length (clients ?cm1)" using cc by simp
  from error_sender.delivers [OF held_ok [OF o(5)] this w, of "(CommandConnect, ErrorProtocolNotSupported, mismatch_text v)"]
  obtain q where s: "sendPooled cc (fill_error (CommandConnect, ErrorProtocolNotSupported, mismatch_text v)) ?cm1 =
      Ret (set_conn cc ?c2 (?cm1\<lparr>transporterMessagePool := q\<rparr>), None)"
    unfolding cm1(1) using len by auto
  let ?cm2 = "set_conn cc ?c2 (?cm1\<lparr>transporterMessagePool := q\<rparr>)"
  have cm2: "conn_of cc ?cm2 = ?c2" "connections ?cm2 = connections cm" "length (clients ?cm2) = length (clients cm)"
    "ClientDisconnectedChannel ?cm2 = ClientDisconnectedChannel cm"
    using cc by (simp_all add: clients_set_conn)
  let ?cm3 = "(set_conn cc (?c2\<lparr>conn_closed := True\<rparr>) ?cm2)
      \<lparr>connections := remove1 cc (connections cm), ClientDisconnectedChannel := ClientDisconnectedChannel cm @ [cc]\<rparr>"
  have "internalCloseClient cc ?cm2 = Ret ?cm3"
    using ok(2) chan "open" unfolding internalCloseClient_def Let_def cm2(1)
    by (simp add: conn_Close_def send_disconnected_def)
  then have "handleConnectHandshake entropy cc a m1 ?cm1 = Ret (?cm3, False)"
    using v s by (simp add: handleConnectHandshake_def connect_version [OF o(4)] handleProtocolMismatchError_def)
  then have "performHandshake entropy cc cm = Ret (dispose_message a ?cm3, False)"
    by (simp add: performHandshake_def o(1-3) Let_def wf)
  moreover have "conn_of cc ?cm3 = ?c2\<lparr>conn_closed := True\<rparr>"
    using cc clients_set_conn(1) [of cc ?cm2 cc] cm2(3) by (simp add: conn_of_def)
  ultimately show ?thesis by simp
qed

theorem handshake_refuses_version_witness:
  "\<exists>cm'. performHandshake [] 0 (sample_cm [hello_conn 2]) = Ret (cm', False) \<and>
     ClientDisconnectedChannel cm' = [0]"
proof -
  have cm: "cm_ok wf_message (sample_cm [hello_conn 2])"
    "conn_of 0 (sample_cm [hello_conn 2]) = hello_conn 2" "0 \<in> set (connections (sample_cm [hello_conn 2]))"
    "ClientDisconnectedChannel (sample_cm [hello_conn 2]) = []"
    by (simp_all add: sample_simps hello_conn_def)
  show ?thesis
    using handshake_refuses_version [OF cm(1,3), of 2 "[]" "[]"] cm(2,4)
    by (auto simp: hello_conn_def ProtocolVersion_def ConnectionPoolSize_def)
qed

text \<open>
  A frame that arrives after the handshake is queued for the room manager under its sender's
  name, complete and unchanged, in a buffer no queued message uses; the messages queued before
  keep their place and their contents.
\<close>

theorem reader_queues_frame:
  assumes ok: "cm_ok wf_message cm" "cc < length (clients cm)" and "open": "\<not> conn_closed (conn_of cc cm)"
    and input: "inbound (conn_of cc cm) = encode_frame command payload @ rest" "length payload \<le> 0xF000"
    and chan: "length (ClientMessageChannel cm) < ConnectionPoolSize"
  shows "\<exists>cm' a m. readNextMessage cc cm = Ret (cm', True) \<and>
     ClientMessageChannel cm' = ClientMessageChannel cm @ [\<lparr>Sender = cc, Message = a\<rparr>] \<and>
     a \<notin> Message ` set (ClientMessageChannel cm) \<and>
     Data a (transporterMessagePool cm') = Inr m \<and> holds_frame m command payload \<and>
     (\<forall>mc \<in> set (ClientMessageChannel cm).
        Data (Message mc) (transporterMessagePool cm') = Data (Message mc) (transporterMessagePool cm)) \<and>
     length (clients cm') = length (clients cm) \<and>
     (\<forall>b. conn_of b cm' = (if b = cc then (conn_of cc cm)\<lparr>inbound := rest\<rparr> else conn_of b cm))"
proof -
  let ?c = "conn_of cc cm"
  obtain p a m m1 where o: "Obtain (transporterMessagePool cm) = Ret (p, a)" "Data a p = Inr m"
    "Read m ?c = Ret (m1, ?c\<lparr>inbound := rest\<rparr>, None)" "holds_frame m1 command payload"
    "held a cm (store_message a m1 (set_conn cc (?c\<lparr>inbound := rest\<rparr>) (cm\<lparr>transporterMessagePool := p\<rparr>)))"
    "Data a (transporterMessagePool (store_message a m1 (set_conn cc (?c\<lparr>inbound := rest\<rparr>)
       (cm\<lparr>transporterMessagePool := p\<rparr>)))) = Inr m1"
    by (rule read_into_buffer [OF ok "open" input])
  let ?cm2 = "store_message a m1 (set_conn cc (?c\<lparr>inbound := rest\<rparr>) (cm\<lparr>transporterMessagePool := p\<rparr>))"
  let ?cm3 = "?cm2\<lparr>ClientMessageChannel := ClientMessageChannel cm @ [\<lparr>Sender = cc, Message = a\<rparr>]\<rparr>"
  have "readNextMessage cc cm = Ret (?cm3, True)"
    using chan by (simp add: readNextMessage_def o(1-3) Let_def)
  moreover have queued: "uses (transporterMessagePool cm) (Message mc) = 1" if "mc \<in> set (ClientMessageChannel cm)" for mc
    using that ok(1) by (simp add: cm_ok_def pending_ok_def)
  then have "a \<notin> Message ` set (ClientMessageChannel cm)" using o(5) by (auto simp: held_def)
  moreover have "\<forall>mc \<in> set (ClientMessageChannel cm).
      Data (Message mc) (transporterMessagePool ?cm2) = Data (Message mc) (transporterMessagePool cm)"
    using o(5) queued by (simp add: held_def)
  moreover have "conn_of b ?cm3 = (if b = cc then ?c\<lparr>inbound := rest\<rparr> else conn_of b cm)" for b
    using ok(2) clients_set_conn(1) [of cc "cm\<lparr>transporterMessagePool := p\<rparr>"] by (simp add: conn_of_def)
  ultimately show ?thesis using o(4,6) by (intro exI [of _ ?cm3] exI [of _ a] exI [of _ m1]) simp
qed

theorem reader_queues_frame_witness:
  "\<exists>cm' a m. readNextMessage 0 (sample_cm [hello_conn 1]) = Ret (cm', True) \<and>
     ClientMessageChannel cm' = [\<lparr>Sender = 0, Message = a\<rparr>] \<and>
     Data a (transporterMessagePool cm') = Inr m \<and> holds_frame m CommandConnect (PutUint32 1)"
proof -
  have cm: "cm_ok wf_message (sample_cm [hello_conn 1])"
    "conn_of 0 (sample_cm [hello_conn 1]) = hello_conn 1" "0 < length (clients (sample_cm [hello_conn 1]))"
    "ClientMessageChannel (sample_cm [hello_conn 1]) = []"
    by (simp_all add: sample_simps hello_conn_def)
  show ?thesis
    using reader_queues_frame [OF cm(1,3), of CommandConnect "PutUint32 1" "[]"] cm(2,4)
    by (fastforce simp: hello_conn_def ConnectionPoolSize_def)
qed

end
