(* ===== verification/Adb_Message.thy ===== *)
theory Adb_Message
  imports Byte_Order Checksums Go_IO
begin

text \<open>
  \<open>client/adb/adbMessage.go\<close>: the messages of the ADB wire protocol.  As for the transporter's
  message, Go's slices alias one array, which is the record's only field.  \<open>DecodeMessage\<close>
  makes a message of a received slice, so the array may have any length of at least 24
  bytes.  The text dump is not modelled.
\<close>

unbundle bit_operations_syntax

section \<open>Constants and checks\<close>

definition magicConstant :: u32 where "magicConstant = 0xffffffff"
definition MaxPayloadLength :: u32 where "MaxPayloadLength = 0x8000"
definition AdbHeaderSize :: u32 where "AdbHeaderSize = 0x0018"

definition AdbCommandConnect :: u32 where "AdbCommandConnect = 0x4e584e43"
definition AdbCommandSync :: u32 where "AdbCommandSync = 0x434e5953"
definition AdbCommandOpen :: u32 where "AdbCommandOpen = 0x4e45504f"
definition AdbCommandOkay :: u32 where "AdbCommandOkay = 0x59414b4f"
definition AdbCommandClose :: u32 where "AdbCommandClose = 0x45534c43"
definition AdbCommandWrite :: u32 where "AdbCommandWrite = 0x45545257"

lemmas adb_command_defs = AdbCommandConnect_def AdbCommandSync_def AdbCommandOpen_def
  AdbCommandOkay_def AdbCommandClose_def AdbCommandWrite_def

definition validateCommand :: "u32 \<Rightarrow> error option" where
  "validateCommand command =
     (if command \<in> {AdbCommandConnect, AdbCommandSync, AdbCommandOpen, AdbCommandOkay,
                    AdbCommandClose, AdbCommandWrite}
      then None else Some (ErrInvalidCommand command))"

definition validateMagic :: "u32 \<Rightarrow> u32 \<Rightarrow> error option" where
  "validateMagic command magic =
     (let expectedMagic = command XOR magicConstant in
      if expectedMagic \<noteq> magic then Some (ErrInvalidMagic expectedMagic magic) else None)"

section \<open>The message and its views\<close>

record AdbMessage =
  adbBuffer :: bytes

definition AdbCommand :: "AdbMessage \<Rightarrow> u32" where
  "AdbCommand c = Uint32 (slice 0 4 (adbBuffer c))"

definition AdbArg1 :: "AdbMessage \<Rightarrow> u32" where
  "AdbArg1 c = Uint32 (slice 4 8 (adbBuffer c))"

definition AdbArg2 :: "AdbMessage \<Rightarrow> u32" where
  "AdbArg2 c = Uint32 (slice 8 12 (adbBuffer c))"

definition DataLength :: "AdbMessage \<Rightarrow> u32" where
  "DataLength c = Uint32 (slice 12 16 (adbBuffer c))"

definition DataChecksum :: "AdbMessage \<Rightarrow> u32" where
  "DataChecksum c = Uint32 (slice 16 20 (adbBuffer c))"

definition Magic :: "AdbMessage \<Rightarrow> u32" where
  "Magic c = Uint32 (slice 20 24 (adbBuffer c))"

definition adbDataBuffer :: "AdbMessage \<Rightarrow> bytes" where
  "adbDataBuffer c = drop 24 (adbBuffer c)"

definition AdbData :: "AdbMessage \<Rightarrow> bytes outcome" where
  "AdbData c = go_slice 0 (unat (DataLength c)) (adbDataBuffer c)"

definition DataString :: "AdbMessage \<Rightarrow> string outcome" where
  "DataString c = andThen (go_slice 0 (unat (DataLength c)) (adbDataBuffer c)) (\<lambda>bs. Ret (string_of_bytes bs))"

definition AdbBytes :: "AdbMessage \<Rightarrow> bytes outcome" where
  "AdbBytes c = go_slice 0 (unat (AdbHeaderSize + DataLength c)) (adbBuffer c)"

definition adb_write_at :: "nat \<Rightarrow> bytes \<Rightarrow> AdbMessage \<Rightarrow> AdbMessage" where
  "adb_write_at i bs c = c\<lparr>adbBuffer := put_at i bs (adbBuffer c)\<rparr>"

definition newMessageFromBuffer :: "bytes \<Rightarrow> AdbMessage outcome" where
  "newMessageFromBuffer buffer = (if 24 \<le> length buffer then Ret \<lparr>adbBuffer = buffer\<rparr> else Panic)"

definition CreateMessage :: AdbMessage where
  "CreateMessage = \<lparr>adbBuffer = replicate (unat (AdbHeaderSize + MaxPayloadLength)) 0\<rparr>"

section \<open>Decoding, reading, writing, setting\<close>

definition DecodeMessage :: "bytes \<Rightarrow> (error + AdbMessage) outcome" where
  "DecodeMessage data =
     (if length data < unat AdbHeaderSize then Ret (Inl ErrMessageTooShort)
      else andThen (newMessageFromBuffer data) (\<lambda>m.
        case validateCommand (AdbCommand m) of Some e \<Rightarrow> Ret (Inl e) | None \<Rightarrow>
        (case validateMagic (AdbCommand m) (Magic m) of Some e \<Rightarrow> Ret (Inl e) | None \<Rightarrow>
         let dataLength = DataLength m in
         if AdbHeaderSize + dataLength > word_of_nat (length data)
         then Ret (Inl (ErrDataBeyondBuffer dataLength (length data - unat AdbHeaderSize)))
         else Ret (Inr m))))"

definition AdbRead :: "AdbMessage \<Rightarrow> net_conn \<Rightarrow> (AdbMessage \<times> net_conn \<times> error option) outcome" where
  "AdbRead c reader =
     (case ReadFull reader 24 of (reader1, header, err) \<Rightarrow>
      let c1 = adb_write_at 0 header c in
      (case err of Some e \<Rightarrow> Ret (c1, reader1, Some e) | None \<Rightarrow>
      (case validateCommand (AdbCommand c1) of Some e \<Rightarrow> Ret (c1, reader1, Some e) | None \<Rightarrow>
      (case validateMagic (AdbCommand c1) (Magic c1) of Some e \<Rightarrow> Ret (c1, reader1, Some e) | None \<Rightarrow>
       let dataLength = DataLength c1 in
       if dataLength > MaxPayloadLength then Ret (c1, reader1, Some (ErrDataTooLong dataLength))
       else andThen (go_slice 0 (unat dataLength) (adbDataBuffer c1)) (\<lambda>place.
         case ReadFull reader1 (length place) of (reader2, body, err2) \<Rightarrow>
           Ret (adb_write_at 24 body c1, reader2, err2))))))"

definition AdbWrite :: "AdbMessage \<Rightarrow> net_conn \<Rightarrow> (net_conn \<times> error option) outcome" where
  "AdbWrite c writer =
     andThen (AdbBytes c) (\<lambda>bs. case conn_Write writer bs of (writer1, n, err) \<Rightarrow> Ret (writer1, err))"

definition AdbSet :: "u32 \<Rightarrow> u32 \<Rightarrow> u32 \<Rightarrow> bytes \<Rightarrow> AdbMessage \<Rightarrow> AdbMessage \<times> error option" where
  "AdbSet command arg1 arg2 data c =
     (if (word_of_nat (length data) :: u32) > MaxPayloadLength
      then (c, Some (ErrDataTooLong (word_of_nat (length data))))
      else (adb_write_at 24 (take (length (adbDataBuffer c)) data)
             (adb_write_at 20 (PutUint32 (command XOR magicConstant))
             (adb_write_at 16 (PutUint32 (checksum data))
             (adb_write_at 12 (PutUint32 (word_of_nat (length data)))
             (adb_write_at 8 (PutUint32 arg2)
             (adb_write_at 4 (PutUint32 arg1)
             (adb_write_at 0 (PutUint32 command) c)))))), None))"

section \<open>The wire format\<close>

definition adb_wire :: "u32 \<Rightarrow> u32 \<Rightarrow> u32 \<Rightarrow> u32 \<Rightarrow> bytes \<Rightarrow> bytes" where
  "adb_wire command arg1 arg2 chk data =
     PutUint32 command @ PutUint32 arg1 @ PutUint32 arg2 @ PutUint32 (word_of_nat (length data)) @
     PutUint32 chk @ PutUint32 (command XOR magicConstant) @ data"

definition adb_wf :: "AdbMessage \<Rightarrow> bool" where
  "adb_wf c \<longleftrightarrow> length (adbBuffer c) = 0x8018"

definition adb_command_ok :: "u32 \<Rightarrow> bool" where
  "adb_command_ok command \<longleftrightarrow> validateCommand command = None"

text \<open>The message starts with the frame.\<close>

definition adb_holds :: "AdbMessage \<Rightarrow> u32 \<Rightarrow> u32 \<Rightarrow> u32 \<Rightarrow> u32 \<Rightarrow> bytes \<Rightarrow> bool" where
  "adb_holds c command arg1 arg2 chk data \<longleftrightarrow>
     (\<exists>rest. adbBuffer c = adb_wire command arg1 arg2 chk data @ rest) \<and> length data < 2 ^ 32 - 24"

lemma length_adb_wire [simp]: "length (adb_wire command arg1 arg2 chk data) = 24 + length data"
  by (simp add: adb_wire_def)

lemma adb_wf_CreateMessage [simp]: "adb_wf CreateMessage"
  by (simp add: adb_wf_def CreateMessage_def AdbHeaderSize_def MaxPayloadLength_def)

lemma adb_wire_slices:
  "slice 0 4 (adb_wire command arg1 arg2 chk data @ rest) = PutUint32 command"
  "slice 4 8 (adb_wire command arg1 arg2 chk data @ rest) = PutUint32 arg1"
  "slice 8 12 (adb_wire command arg1 arg2 chk data @ rest) = PutUint32 arg2"
  "slice 12 16 (adb_wire command arg1 arg2 chk data @ rest) = PutUint32 (word_of_nat (length data))"
  "slice 16 20 (adb_wire command arg1 arg2 chk data @ rest) = PutUint32 chk"
  "slice 20 24 (adb_wire command arg1 arg2 chk data @ rest) = PutUint32 (command XOR magicConstant)"
  "drop 24 (adb_wire command arg1 arg2 chk data @ rest) = data @ rest"
  "drop 24 (adb_wire command arg1 arg2 chk data) = data"
  by (simp_all add: adb_wire_def slice_def)

lemma adb_holds_fields:
  assumes "adb_holds c command arg1 arg2 chk data"
  shows "AdbCommand c = command" "AdbArg1 c = arg1" "AdbArg2 c = arg2"
    "unat (DataLength c) = length data" "DataChecksum c = chk" "Magic c = command XOR magicConstant"
    "AdbData c = Ret data" "DataString c = Ret (string_of_bytes data)"
    "AdbBytes c = Ret (adb_wire command arg1 arg2 chk data)"
proof -
  from assms obtain rest where b: "adbBuffer c = adb_wire command arg1 arg2 chk data @ rest"
    and len: "length data < 2 ^ 32 - 24" by (auto simp: adb_holds_def)
  show "AdbCommand c = command" "AdbArg1 c = arg1" "AdbArg2 c = arg2"
    "DataChecksum c = chk" "Magic c = command XOR magicConstant"
    by (simp_all add: AdbCommand_def AdbArg1_def AdbArg2_def DataChecksum_def Magic_def b adb_wire_slices)
  show n: "unat (DataLength c) = length data"
    using len by (simp add: DataLength_def b adb_wire_slices)
  show "AdbData c = Ret data" "DataString c = Ret (string_of_bytes data)"
    using n by (simp_all add: AdbData_def DataString_def adbDataBuffer_def b adb_wire_slices go_slice_def slice_0)
  have "unat (AdbHeaderSize + DataLength c) = 24 + length data"
    using len n by (subst unat_add_no_wrap) (simp_all add: AdbHeaderSize_def)
  then show "AdbBytes c = Ret (adb_wire command arg1 arg2 chk data)"
    by (simp add: AdbBytes_def b go_slice_def slice_0)
qed

text \<open>\<open>Set\<close> stores the frame with the sum of the data bytes, whatever the buffer held.\<close>

lemma AdbSet_holds:
  assumes "adb_wf c" "length data \<le> 0x8000"
  shows "\<exists>c'. AdbSet command arg1 arg2 data c = (c', None) \<and> adb_wf c' \<and>
     adb_holds c' command arg1 arg2 (checksum data) data"
proof -
  have n: "\<not> (word_of_nat (length data) :: u32) > MaxPayloadLength"
    using assms(2) by (simp add: MaxPayloadLength_def word_less_nat_alt)
  have len: "length (adbBuffer c) = 0x8018" using assms(1) by (simp add: adb_wf_def)
  let ?c = "fst (AdbSet command arg1 arg2 data c)"
  have b: "adbBuffer ?c = adb_wire command arg1 arg2 (checksum data) data @ drop (24 + length data) (adbBuffer c)"
    using n len assms(2) by (simp add: AdbSet_def adb_write_at_def put_at_def adbDataBuffer_def adb_wire_def
        add.commute)
  have "adb_wf ?c" using b len assms(2) by (simp add: adb_wf_def)
  moreover have "adb_holds ?c command arg1 arg2 (checksum data) data"
    using b assms(2) by (auto simp: adb_holds_def)
  moreover have "AdbSet command arg1 arg2 data c = (?c, None)" using n by (simp add: AdbSet_def)
  ultimately show ?thesis by blast
qed

lemma AdbSet_too_long:
  assumes "length data > 0x8000" "length data < 2 ^ 32"
  shows "AdbSet command arg1 arg2 data c = (c, Some (ErrDataTooLong (word_of_nat (length data))))"
  using assms by (simp add: AdbSet_def MaxPayloadLength_def word_less_nat_alt)

lemma DecodeMessage_wire:
  assumes "adb_command_ok command" "length data < 2 ^ 32 - 24"
  shows "\<exists>m. DecodeMessage (adb_wire command arg1 arg2 chk data) = Ret (Inr m) \<and>
     adb_holds m command arg1 arg2 chk data"
proof -
  let ?m = "\<lparr>adbBuffer = adb_wire command arg1 arg2 chk data\<rparr>"
  have h: "adb_holds ?m command arg1 arg2 chk data"
    using assms(2) by (auto simp: adb_holds_def)
  note f = adb_holds_fields [OF h]
  have "unat (AdbHeaderSize + DataLength ?m) = 24 + length data"
    using assms(2) f(4) by (subst unat_add_no_wrap) (simp_all add: AdbHeaderSize_def)
  then have "\<not> AdbHeaderSize + DataLength ?m > word_of_nat (length (adb_wire command arg1 arg2 chk data))"
    using assms(2) by (simp add: word_less_nat_alt del: of_nat_add)
  then have "DecodeMessage (adb_wire command arg1 arg2 chk data) = Ret (Inr ?m)"
    using assms(1) f(1,6)
    by (simp add: DecodeMessage_def newMessageFromBuffer_def AdbHeaderSize_def validateMagic_def adb_command_ok_def
        Let_def del: of_nat_add length_adb_wire) simp
  with h show ?thesis by blast
qed

text \<open>\<open>Read\<close> takes exactly one frame off the stream; the checksum is not looked at.\<close>

lemma AdbRead_wire:
  assumes "adb_wf c" "\<not> conn_closed r" "adb_command_ok command" "length data \<le> 0x8000"
    and "inbound r = adb_wire command arg1 arg2 chk data @ rest"
  shows "\<exists>c'. AdbRead c r = Ret (c', r\<lparr>inbound := rest\<rparr>, None) \<and> adb_wf c' \<and>
     adb_holds c' command arg1 arg2 chk data"
proof -
  let ?h = "take 24 (adb_wire command arg1 arg2 chk data)"
  have h: "length ?h = 24" "adb_wire command arg1 arg2 chk data = ?h @ data"
    by (simp_all add: adb_wire_def)
  let ?c1 = "adb_write_at 0 ?h c"
  have len: "length (adbBuffer c) = 0x8018" using assms(1) by (simp add: adb_wf_def)
  have b1: "adbBuffer ?c1 = ?h @ drop 24 (adbBuffer c)"
    using h(1) by (simp add: adb_write_at_def put_at_def)
  have s: "slice i j (adbBuffer ?c1) = slice i j (adb_wire command arg1 arg2 chk data @ [])" if "j \<le> 24" for i j
    using that h by (simp only: b1 append_Nil2) (metis slice_append_left h(1) h(2))
  have c1: "AdbCommand ?c1 = command" "Magic ?c1 = command XOR magicConstant"
    "unat (DataLength ?c1) = length data"
    using assms(4) unfolding AdbCommand_def Magic_def DataLength_def
    by (simp_all only: s order_refl adb_wire_slices numeral_le_iff semiring_norm) simp_all
  have r1: "ReadFull r 24 = (r\<lparr>inbound := data @ rest\<rparr>, ?h, None)"
    using assms(2,5) h by (intro ReadFull_ok) simp_all
  have r2: "ReadFull (r\<lparr>inbound := data @ rest\<rparr>) (length data) = (r\<lparr>inbound := rest\<rparr>, data, None)"
    using assms(2) by (simp add: ReadFull_ok)
  have d1: "length (adbDataBuffer ?c1) = 0x8000" using b1 len h(1) by (simp add: adbDataBuffer_def)
  have "\<not> DataLength ?c1 > MaxPayloadLength"
    using assms(4) c1(3) by (simp add: MaxPayloadLength_def word_less_nat_alt)
  then have "AdbRead c r = Ret (adb_write_at 24 data ?c1, r\<lparr>inbound := rest\<rparr>, None)"
    using assms(3,4) d1 r2 by (simp add: AdbRead_def r1 c1 validateMagic_def adb_command_ok_def Let_def)
  moreover have "adbBuffer (adb_write_at 24 data ?c1) =
      adb_wire command arg1 arg2 chk data @ drop (24 + length data) (adbBuffer c)"
    using b1 h(1) len assms(4)
    by (subst h(2)) (simp add: adb_write_at_def put_at_def add.commute)
  ultimately show ?thesis
    using assms(4) len by (auto simp: adb_wf_def adb_holds_def)
qed

lemma AdbWrite_writable:
  assumes "adb_holds c command arg1 arg2 chk data" "writable w"
  shows "AdbWrite c w = Ret (w\<lparr>outbound := outbound w @ adb_wire command arg1 arg2 chk data\<rparr>, None)"
  using assms by (simp add: AdbWrite_def adb_holds_fields conn_Write_writable)

lemma adb_commands_ok [simp]:
  "adb_command_ok AdbCommandConnect" "adb_command_ok AdbCommandSync" "adb_command_ok AdbCommandOpen"
  "adb_command_ok AdbCommandOkay" "adb_command_ok AdbCommandClose" "adb_command_ok AdbCommandWrite"
  by (simp_all add: adb_command_ok_def validateCommand_def)

section \<open>Accepted messages\<close>

lemma DecodeMessage_returns: "\<exists>res. DecodeMessage p = Ret res"
  by (cases "length p < 24")
    (simp_all add: DecodeMessage_def newMessageFromBuffer_def AdbHeaderSize_def Let_def split: option.split)

text \<open>The data of a decoded message can be read unless its declared length is within 24 of \<open>2 ^ 32\<close>.\<close>

lemma decoded_data_iff:
  assumes "DecodeMessage p = Ret (Inr m)" "length p \<le> 0xF000"
  shows "if DataLength m \<ge> 0xFFFFFFE8 then AdbData m = Panic \<and> DataString m = Panic
     else \<exists>bs. AdbData m = Ret bs \<and> DataString m = Ret (string_of_bytes bs)"
proof -
  have m: "adbBuffer m = p" "24 \<le> length p" "\<not> AdbHeaderSize + DataLength m > word_of_nat (length p)"
    using assms(1) by (auto simp: DecodeMessage_def newMessageFromBuffer_def AdbHeaderSize_def Let_def
        split: if_splits option.splits)
  have len: "length (adbDataBuffer m) = length p - 24" by (simp add: adbDataBuffer_def m(1))
  show ?thesis
  proof (cases "DataLength m \<ge> 0xFFFFFFE8")
    case True
    then have "unat (DataLength m) \<ge> 0xFFFFFFE8" by (simp add: word_le_nat_alt)
    then have "\<not> unat (DataLength m) \<le> length (adbDataBuffer m)" using len assms(2) by linarith
    with True show ?thesis by (simp add: AdbData_def DataString_def go_slice_def)
  next
    case False
    then have "unat (DataLength m) < 0xFFFFFFE8" by (simp add: word_le_nat_alt)
    then have "unat (AdbHeaderSize + DataLength m) = 24 + unat (DataLength m)"
      by (subst unat_add_no_wrap) (simp_all add: AdbHeaderSize_def)
    moreover have "unat (word_of_nat (length p) :: u32) = length p" using assms(2) by simp
    ultimately have "unat (DataLength m) \<le> length (adbDataBuffer m)"
      using m(2,3) len by (simp add: word_less_nat_alt)
    with False show ?thesis by (simp add: AdbData_def DataString_def)
  qed
qed

lemma DecodeMessage_accepts:
  assumes "\<not> AdbHeaderSize + n > word_of_nat (length bs)" "length bs = 24" "adb_command_ok command"
    "AdbCommand \<lparr>adbBuffer = bs\<rparr> = command" "DataLength \<lparr>adbBuffer = bs\<rparr> = n"
    "Magic \<lparr>adbBuffer = bs\<rparr> = command XOR magicConstant"
  shows "DecodeMessage bs = Ret (Inr \<lparr>adbBuffer = bs\<rparr>)"
  using assms
  by (simp add: DecodeMessage_def newMessageFromBuffer_def validateMagic_def adb_command_ok_def AdbHeaderSize_def)

text \<open>A decoded message whose declared length does not make the 32-bit sum wrap can be read out.\<close>

lemma DecodeMessage_data:
  assumes "DecodeMessage bs = Ret (Inr m)" "length bs < 2 ^ 32" "DataLength m \<le> 0xFFFFFFE7"
  shows "\<exists>data. AdbData m = Ret data \<and> DataString m = Ret (string_of_bytes data) \<and>
     AdbBytes m = Ret (take (24 + length data) bs)"
proof -
  have m: "adbBuffer m = bs" "24 \<le> length bs" "\<not> AdbHeaderSize + DataLength m > word_of_nat (length bs)"
    using assms(1)
    by (auto simp: DecodeMessage_def newMessageFromBuffer_def Let_def AdbHeaderSize_def
        split: if_splits option.splits)
  have small: "unat (DataLength m) \<le> 0xFFFFFFE7" using assms(3) by (simp add: word_le_nat_alt)
  have chk: "unat (AdbHeaderSize + DataLength m) = 24 + unat (DataLength m)"
    using small by (subst unat_add_no_wrap) (simp_all add: AdbHeaderSize_def)
  then have le: "24 + unat (DataLength m) \<le> length bs"
    using m(3) assms(2) by (simp add: word_less_nat_alt)
  then have le': "unat (DataLength m) \<le> length bs - 24" by linarith
  have "AdbData m = Ret (take (unat (DataLength m)) (drop 24 bs))"
    using m(1) le' by (simp add: AdbData_def adbDataBuffer_def go_slice_def slice_0)
  moreover have "DataString m = Ret (string_of_bytes (take (unat (DataLength m)) (drop 24 bs)))"
    using m(1) le' by (simp add: DataString_def adbDataBuffer_def go_slice_def slice_0)
  moreover have "AdbBytes m = Ret (take (24 + length (take (unat (DataLength m)) (drop 24 bs))) bs)"
    using m(1) le le' chk by (simp add: AdbBytes_def go_slice_def slice_0)
  ultimately show ?thesis by blast
qed

section \<open>Properties\<close>

text \<open>
  C15. A message built by \<open>Set\<close> in a recycled buffer and written to a stream is read by \<open>Read\<close>, or
  decoded by \<open>DecodeMessage\<close>, as the same command, arguments and data, with the rest of the stream
  left unread.
\<close>

theorem adb_round_trip:
  assumes "adb_wf c" "adb_wf c2" "adb_command_ok command" "length data \<le> 0x8000" "writable w" "\<not> conn_closed r"
  shows "\<exists>c1 sent. AdbSet command arg1 arg2 data c = (c1, None) \<and> AdbBytes c1 = Ret sent \<and>
     AdbWrite c1 w = Ret (w\<lparr>outbound := outbound w @ sent\<rparr>, None) \<and>
     (\<exists>m. DecodeMessage sent = Ret (Inr m) \<and> AdbCommand m = command \<and> AdbArg1 m = arg1 \<and>
        AdbArg2 m = arg2 \<and> AdbData m = Ret data) \<and>
     (inbound r = sent @ rest \<longrightarrow>
        (\<exists>m. AdbRead c2 r = Ret (m, r\<lparr>inbound := rest\<rparr>, None) \<and> AdbCommand m = command \<and>
           AdbArg1 m = arg1 \<and> AdbArg2 m = arg2 \<and> AdbData m = Ret data))"
proof -
  from AdbSet_holds [OF assms(1,4)] obtain c1 where c1: "AdbSet command arg1 arg2 data c = (c1, None)"
    "adb_holds c1 command arg1 arg2 (checksum data) data" by blast
  let ?sent = "adb_wire command arg1 arg2 (checksum data) data"
  have "\<exists>m. DecodeMessage ?sent = Ret (Inr m) \<and>
      adb_holds m command arg1 arg2 (checksum data) data"
    using assms(4) by (intro DecodeMessage_wire [OF assms(3)]) simp
  moreover have "inbound r = ?sent @ rest \<Longrightarrow>
      \<exists>m. AdbRead c2 r = Ret (m, r\<lparr>inbound := rest\<rparr>, None) \<and> adb_holds m command arg1 arg2 (checksum data) data"
    using AdbRead_wire [OF assms(2,6,3,4)] by blast
  ultimately have "AdbBytes c1 = Ret ?sent \<and>
     AdbWrite c1 w = Ret (w\<lparr>outbound := outbound w @ ?sent\<rparr>, None) \<and>
     (\<exists>m. DecodeMessage ?sent = Ret (Inr m) \<and> AdbCommand m = command \<and> AdbArg1 m = arg1 \<and>
        AdbArg2 m = arg2 \<and> AdbData m = Ret data) \<and>
     (inbound r = ?sent @ rest \<longrightarrow>
        (\<exists>m. AdbRead c2 r = Ret (m, r\<lparr>inbound := rest\<rparr>, None) \<and> AdbCommand m = command \<and>
           AdbArg1 m = arg1 \<and> AdbArg2 m = arg2 \<and> AdbData m = Ret data))"
    using AdbWrite_writable [OF c1(2) assms(5)] adb_holds_fields(9) [OF c1(2)]
    by (blast dest: adb_holds_fields)
  with c1(1) show ?thesis by blast
qed

theorem adb_round_trip_witness:
  "\<exists>c1 sent. AdbSet AdbCommandWrite 1 2 [7, 8] CreateMessage = (c1, None) \<and> AdbBytes c1 = Ret sent \<and>
     (\<exists>m. DecodeMessage sent = Ret (Inr m) \<and> AdbData m = Ret [7, 8])"
  using adb_round_trip [of CreateMessage CreateMessage AdbCommandWrite "[7, 8]" "fresh_conn []" "fresh_conn []" 1 2 "[]"]
  by (fastforce simp: fresh_conn_def writable_def)

text \<open>
  The length check of \<open>DecodeMessage\<close> adds the header size in 32-bit arithmetic.  A header that
  declares at least 0xFFFFFFE8 bytes of data passes it, with no data behind the header, and then
  reading the data out panics.
\<close>

theorem DecodeMessage_accepts_wrapped_length:
  assumes "adb_command_ok command" "n \<ge> 0xFFFFFFE8"
  shows "\<exists>m. DecodeMessage (PutUint32 command @ PutUint32 arg1 @ PutUint32 arg2 @ PutUint32 n @
       PutUint32 chk @ PutUint32 (command XOR magicConstant)) = Ret (Inr m) \<and>
     AdbCommand m = command \<and> AdbData m = Panic \<and> DataString m = Panic"
proof -
  let ?b = "PutUint32 command @ PutUint32 arg1 @ PutUint32 arg2 @ PutUint32 n @
       PutUint32 chk @ PutUint32 (command XOR magicConstant)"
  let ?m = "\<lparr>adbBuffer = ?b\<rparr>"
  have f: "AdbCommand ?m = command" "DataLength ?m = n" "Magic ?m = command XOR magicConstant"
    by (simp_all add: AdbCommand_def DataLength_def Magic_def slice_def)
  have n: "unat n \<ge> 0xFFFFFFE8" using assms(2) by (simp add: word_le_nat_alt)
  have "unat (AdbHeaderSize + n) = (24 + unat n) mod 4294967296"
    by (simp add: AdbHeaderSize_def unat_word_ariths)
  also have "\<dots> = 24 + unat n - 4294967296"
    using n unat_u32_less [of n] by (subst le_mod_geq; linarith?) (rule mod_less; linarith)
  finally have "unat (AdbHeaderSize + n) \<le> 24" using unat_u32_less [of n] by linarith
  moreover have "unat (word_of_nat (length ?b) :: u32) = 24" by simp
  ultimately have "\<not> AdbHeaderSize + n > word_of_nat (length ?b)"
    by (simp only: word_less_nat_alt not_less)
  then have "DecodeMessage ?b = Ret (Inr ?m)"
    by (rule DecodeMessage_accepts [OF _ _ assms(1) f]) simp
  moreover have "AdbData ?m = Panic" "DataString ?m = Panic"
    using n f(2) by (simp_all add: AdbData_def DataString_def go_slice_def adbDataBuffer_def)
  ultimately show ?thesis using f(1) by blast
qed

theorem DecodeMessage_accepts_wrapped_length_witness:
  "\<exists>m. DecodeMessage (PutUint32 AdbCommandOpen @ PutUint32 1 @ PutUint32 0 @ PutUint32 0xFFFFFFE8 @
       PutUint32 0 @ PutUint32 (AdbCommandOpen XOR magicConstant)) = Ret (Inr m) \<and>
     AdbCommand m = AdbCommandOpen \<and> AdbData m = Panic \<and> DataString m = Panic"
  by (rule DecodeMessage_accepts_wrapped_length) simp_all

end
