(* ===== verification/Pcap_Writer.thy ===== *)
theory Pcap_Writer
  imports Byte_Order Go_IO
begin

text \<open>
  \<open>client/pcapwriter/pcapwriter.go\<close>: the debug capture.  Every message is wrapped in a UDP, an
  IPv4 and an Ethernet header and appended to a pcap file.  Go fills zeroed arrays by index, as
  \<open>put_at\<close> does here.  \<open>decode_packet\<close> is what a reader of the file (Wireshark) does; the lemmas
  show that it finds the message back and that the IPv4 header checksum verifies.
\<close>

unbundle bit_operations_syntax

section \<open>Constants\<close>

definition magicMicroseconds :: u32 where "magicMicroseconds = 0xa1b2c3d4"
definition versionMajor :: u16 where "versionMajor = 2"
definition versionMinor :: u16 where "versionMinor = 4"
definition linkTypeEthernet :: u32 where "linkTypeEthernet = 1"
definition snapLen :: u32 where "snapLen = push_bit 18 1"
definition etherTypeIPv4 :: u16 where "etherTypeIPv4 = 0x0800"
definition ipProtoUDP :: byte where "ipProtoUDP = 17"

datatype Direction = Outgoing | Incoming

definition macClient :: bytes where "macClient = [0x02, 0x00, 0x00, 0x00, 0x00, 0x01]"
definition macTransporter :: bytes where "macTransporter = [0x02, 0x00, 0x00, 0x00, 0x00, 0x02]"
definition ipClient :: bytes where "ipClient = [10, 0, 0, 1]"
definition ipTransporter :: bytes where "ipTransporter = [10, 0, 0, 2]"
definition portClient :: u16 where "portClient = 1"
definition portTransporter :: u16 where "portTransporter = 2"

text \<open>
  The file behind the \<open>io.Writer\<close> is a \<open>net_conn\<close> of which only the writing half is used.
  A \<open>time.Time\<close> is its Unix seconds and its nanoseconds within the second.
\<close>

record Writer =
  out :: net_conn
  nextID :: u16

record go_time =
  unix_seconds :: int
  nanoseconds :: nat

section \<open>Frames\<close>

definition buildEthernet :: "bytes \<Rightarrow> bytes \<Rightarrow> bytes \<Rightarrow> bytes" where
  "buildEthernet srcMAC dstMAC payload =
     (let frame = replicate (14 + length payload) 0;
          frame = put_at 0 dstMAC frame;
          frame = put_at 6 srcMAC frame;
          frame = put_at 12 (BigPutUint16 etherTypeIPv4) frame in
      put_at 14 payload frame)"

definition buildUDP :: "u16 \<Rightarrow> u16 \<Rightarrow> bytes \<Rightarrow> bytes" where
  "buildUDP srcPort dstPort payload =
     (let header = replicate (8 + length payload) 0;
          header = put_at 0 (BigPutUint16 srcPort) header;
          header = put_at 2 (BigPutUint16 dstPort) header;
          header = put_at 4 (BigPutUint16 (word_of_nat (8 + length payload))) header;
          header = put_at 6 (BigPutUint16 0) header in
      put_at 8 payload header)"

text \<open>The two loops of \<open>ipv4Checksum\<close>: the sum of the 16-bit words, and folding the carries in.\<close>

fun sum_words :: "u32 \<Rightarrow> bytes \<Rightarrow> u32" where
  "sum_words s (a # b # rest) = sum_words (s + (push_bit 8 (ucast a) OR ucast b)) rest"
| "sum_words s _ = s"

lemma unat_low_half: "unat ((s :: u32) AND 0xFFFF) = unat s mod 65536"
proof -
  have "s AND 0xFFFF = take_bit 16 s" by (simp add: take_bit_eq_mask mask_eq_exp_minus_1)
  then show ?thesis by (simp add: take_bit_eq_mod unat_mod_distrib)
qed

lemma unat_high_half: "unat (drop_bit 16 (s :: u32)) = unat s div 65536"
  by (simp add: drop_bit_eq_div unat_div_distrib)

lemma unat_fold_step:
  "unat ((s AND 0xFFFF) + drop_bit 16 (s :: u32)) = unat s mod 65536 + unat s div 65536"
proof -
  have "unat s div 65536 < 65536" using unat_u32_less [of s] by (intro div_less_iff_less_mult [THEN iffD2]) simp_all
  moreover have "unat s mod 65536 < 65536" by simp
  ultimately have "unat (s AND 0xFFFF) + unat (drop_bit 16 s) < 2 ^ LENGTH(32)"
    unfolding unat_low_half unat_high_half by simp
  then show ?thesis using unat_add_no_wrap unat_low_half unat_high_half by metis
qed

lemma half_decreases: "(0 :: nat) < n div 65536 \<Longrightarrow> n mod 65536 + n div 65536 < n"
  by (subst (3) div_mult_mod_eq [of n 65536, symmetric]) linarith

function fold_carries :: "u32 \<Rightarrow> u32" where
  "fold_carries s =
     (if drop_bit 16 s \<noteq> 0 then fold_carries ((s AND 0xFFFF) + drop_bit 16 s) else s)"
  by pat_completeness auto
termination
proof (relation "measure unat")
  fix s :: u32
  assume "drop_bit 16 s \<noteq> 0"
  then have "0 < unat s div 65536" using unat_high_half [of s] by (metis neq0_conv unat_eq_zero)
  then show "((s AND 0xFFFF) + drop_bit 16 s, s) \<in> measure unat"
    by (simp add: unat_fold_step half_decreases del: unat_plus_if')
qed simp

declare fold_carries.simps [simp del]

definition ipv4Checksum :: "bytes \<Rightarrow> u16" where
  "ipv4Checksum header = NOT (ucast (fold_carries (sum_words 0 header)))"

definition buildIPv4 :: "bytes \<Rightarrow> bytes \<Rightarrow> bytes \<Rightarrow> Writer \<Rightarrow> Writer \<times> bytes" where
  "buildIPv4 srcIP dstIP payload w =
     (let header = replicate 20 0;
          header = header[0 := 0x45];
          header = header[1 := 0];
          header = put_at 2 (BigPutUint16 (word_of_nat (20 + length payload))) header;
          header = put_at 4 (BigPutUint16 (nextID w)) header;
          w = w\<lparr>nextID := nextID w + 1\<rparr>;
          header = put_at 6 (BigPutUint16 0) header;
          header = header[8 := 64];
          header = header[9 := ipProtoUDP];
          header = put_at 10 (BigPutUint16 0) header;
          header = put_at 12 srcIP header;
          header = put_at 16 dstIP header;
          header = put_at 10 (BigPutUint16 (ipv4Checksum header)) header in
      (w, header @ payload))"

section \<open>The writer\<close>

definition NewWriter :: "net_conn \<Rightarrow> net_conn \<times> (error + Writer)" where
  "NewWriter file =
     (let header = replicate 24 0;
          header = put_at 0 (PutUint32 magicMicroseconds) header;
          header = put_at 4 (PutUint16 versionMajor) header;
          header = put_at 6 (PutUint16 versionMinor) header;
          header = put_at 16 (PutUint32 snapLen) header;
          header = put_at 20 (PutUint32 linkTypeEthernet) header in
      (case conn_Write file header of (file1, n, err) \<Rightarrow>
       (case err of Some e \<Rightarrow> (file1, Inl (ErrPcapHeader e))
        | None \<Rightarrow> (file1, Inr \<lparr>out = file1, nextID = 0\<rparr>))))"

definition WritePacket :: "Direction \<Rightarrow> bytes \<Rightarrow> go_time \<Rightarrow> Writer \<Rightarrow> Writer \<times> error option" where
  "WritePacket direction payload ts w =
     (let (srcMAC, dstMAC) = (if direction = Incoming then (macTransporter, macClient) else (macClient, macTransporter));
          (srcIP, dstIP) = (if direction = Incoming then (ipTransporter, ipClient) else (ipClient, ipTransporter));
          (srcPort, dstPort) = (if direction = Incoming then (portTransporter, portClient) else (portClient, portTransporter));
          udp = buildUDP srcPort dstPort payload;
          (w1, ip) = buildIPv4 srcIP dstIP udp w;
          frame = buildEthernet srcMAC dstMAC ip;
          record = replicate 16 0;
          record = put_at 0 (PutUint32 (word_of_int (unix_seconds ts))) record;
          record = put_at 4 (PutUint32 (word_of_nat (nanoseconds ts div 1000))) record;
          record = put_at 8 (PutUint32 (word_of_nat (length frame))) record;
          record = put_at 12 (PutUint32 (word_of_nat (length frame))) record in
      (case conn_Write (out w1) record of (out1, n, err) \<Rightarrow>
       (case err of Some e \<Rightarrow> (w1\<lparr>out := out1\<rparr>, Some (ErrPcapRecord e)) | None \<Rightarrow>
       (case conn_Write out1 frame of (out2, n2, err2) \<Rightarrow>
        (w1\<lparr>out := out2\<rparr>, map_option ErrPcapFrame err2)))))"

section \<open>The checksum verifies\<close>

lemma unat_byte_less: "unat (a :: byte) < 256"
  using unsigned_less [of a] by simp

text \<open>The ones-complement sum, in the natural numbers.\<close>

fun word_sum :: "bytes \<Rightarrow> nat" where
  "word_sum (a # b # rest) = 256 * unat a + unat b + word_sum rest"
| "word_sum _ = 0"

lemma word_sum_append: "even (length xs) \<Longrightarrow> word_sum (xs @ ys) = word_sum xs + word_sum ys"
  by (induction xs rule: word_sum.induct) simp_all

lemma word_sum_le: "word_sum xs \<le> 65535 * (length xs div 2)"
proof (induction xs rule: word_sum.induct)
  case (1 a b rest)
  have "256 * unat a + unat b \<le> 65535" using unat_byte_less [of a] unat_byte_less [of b] by linarith
  with 1 show ?case by simp
qed simp_all

lemma unat_be16: "unat (push_bit 8 (ucast a) OR ucast b :: u32) = 256 * unat (a :: byte) + unat (b :: byte)"
proof -
  have "push_bit 8 (ucast a :: u32) AND ucast b = 0"
    by (rule bit_word_eqI) (auto simp: bit_simps dest: bit_imp_le_length)
  then have eq: "(push_bit 8 (ucast a) OR ucast b :: u32) = push_bit 8 (ucast a) + ucast b"
    by (simp add: disjunctive_add_eq_or)
  have a: "unat a < 256" "unat b < 256" by (rule unat_byte_less)+
  then have "unat (push_bit 8 (ucast a) :: u32) = 256 * unat a"
    by (simp add: push_bit_eq_mult unat_word_ariths unsigned_ucast_eq take_bit_eq_mod)
  moreover have "unat (ucast b :: u32) = unat b" using a by (simp add: unsigned_ucast_eq take_bit_eq_mod)
  ultimately show ?thesis unfolding eq using a by (subst unat_add_no_wrap) simp_all
qed

lemma unat_sum_words:
  "unat s + word_sum bs < 4294967296 \<Longrightarrow> unat (sum_words s bs) = unat s + word_sum bs"
proof (induction s bs rule: sum_words.induct)
  case (1 s a b rest)
  let ?w = "push_bit 8 (ucast a) OR ucast b :: u32"
  have "unat (s + ?w) = unat s + unat ?w"
    using 1(2) by (intro unat_add_no_wrap) (simp add: unat_be16)
  with 1 show ?case by (simp add: unat_be16)
qed simp_all

lemma fold_carries_bound: "unat (fold_carries s) < 65536"
proof (induction s rule: fold_carries.induct)
  case (1 s)
  show ?case
  proof (cases "drop_bit 16 s = 0")
    case True
    then have "unat s div 65536 = 0" using unat_high_half [of s] by simp
    then have "unat s < 65536" by (simp add: div_eq_0_iff)
    with True show ?thesis by (simp add: fold_carries.simps [of s])
  qed (use 1 in \<open>simp add: fold_carries.simps [of s]\<close>)
qed

lemma halves_mod: "(n mod 65536 + n div 65536) mod 65535 = n mod (65535 :: nat)"
proof -
  have "n mod 65535 = (n div 65536 * 65536 + n mod 65536) mod 65535" by simp
  also have "\<dots> = (n div 65536 * 65535 + (n mod 65536 + n div 65536)) mod 65535"
    by (simp only: mult.commute) (simp add: algebra_simps)
  also have "\<dots> = (n mod 65536 + n div 65536) mod 65535" by (simp only: mod_mult_self3)
  finally show ?thesis by simp
qed

lemma fold_carries_mod:
  "unat (fold_carries s) mod 65535 = unat s mod 65535 \<and> (0 < unat s \<longrightarrow> 0 < unat (fold_carries s))"
proof (induction s rule: fold_carries.induct)
  case (1 s)
  show ?case
  proof (cases "drop_bit 16 s = 0")
    case False
    let ?t = "(s AND 0xFFFF) + drop_bit 16 s"
    have t: "unat ?t mod 65535 = unat s mod 65535"
      unfolding unat_fold_step by (rule halves_mod)
    have "0 < unat s div 65536" using False unat_high_half [of s] by (metis neq0_conv unat_eq_zero)
    then have "0 < unat ?t" unfolding unat_fold_step by simp
    with 1 False t show ?thesis by (simp add: fold_carries.simps [of s] del: unat_plus_if')
  qed (simp add: fold_carries.simps [of s])
qed

lemma unat_NOT16: "unat (NOT (w :: u16)) = 65535 - unat w"
proof -
  have "w \<le> - 1" by simp
  then have "unat (- 1 - w) = unat (- 1 :: u16) - unat w" by (simp only: unat_sub)
  moreover have "NOT w = - 1 - w" by (simp add: not_eq_complement)
  moreover have "unat (- 1 :: u16) = 65535" by (simp add: unsigned_minus_1_eq_mask mask_eq_exp_minus_1)
  ultimately show ?thesis by simp
qed

lemma unat_ipv4Checksum:
  "unat (ipv4Checksum h) = 65535 - unat (fold_carries (sum_words 0 h))"
  using fold_carries_bound [of "sum_words 0 h"]
  by (simp add: ipv4Checksum_def unat_NOT16 unsigned_ucast_eq take_bit_eq_mod)

lemma word_sum_BigPutUint16: "word_sum (BigPutUint16 v) = unat v"
proof -
  have "unat v = 256 * (unat v div 256) + unat v mod 256" by simp
  moreover have "unat v div 256 < 256" using unsigned_less [of v] by (intro div_less_iff_less_mult [THEN iffD2]) simp_all
  ultimately show ?thesis
    by (simp add: BigPutUint16_def unsigned_ucast_eq take_bit_eq_mod drop_bit_eq_div unat_div_distrib)
qed

text \<open>A header with its checksum field filled in sums to zero, as RFC 791 requires.\<close>

lemma ipv4Checksum_verifies:
  assumes "even (length pre)" "length pre + length post < 1000" "0 < word_sum (pre @ [0, 0] @ post)"
  shows "ipv4Checksum (pre @ BigPutUint16 (ipv4Checksum (pre @ [0, 0] @ post)) @ post) = 0"
proof -
  let ?h = "pre @ [0, 0] @ post"
  define f where "f = unat (fold_carries (sum_words 0 ?h))"
  define c where "c = ipv4Checksum ?h"
  let ?h' = "pre @ BigPutUint16 c @ post"
  have bound: "word_sum xs < 4294967296" if "length xs < 2000" for xs
    using word_sum_le [of xs] that by (intro le_less_trans [OF word_sum_le]) simp
  have len: "length ?h < 2000" "length ?h' < 2000" using assms(2) by (simp_all add: BigPutUint16_def)
  have c: "unat c = 65535 - f" by (simp add: c_def f_def unat_ipv4Checksum)
  have "unat (sum_words 0 ?h) = word_sum ?h" using bound [OF len(1)] by (simp add: unat_sum_words)
  then have f: "f mod 65535 = word_sum ?h mod 65535" "0 < f" "f \<le> 65535"
    using fold_carries_mod [of "sum_words 0 ?h"] fold_carries_bound [of "sum_words 0 ?h"] assms(3)
    by (simp_all only: f_def)
  have sum': "word_sum ?h' = word_sum ?h + unat c"
    using assms(1) by (simp add: word_sum_append word_sum_BigPutUint16)
  define g where "g = unat (fold_carries (sum_words 0 ?h'))"
  have "unat (sum_words 0 ?h') = word_sum ?h'" using bound [OF len(2)] by (simp add: unat_sum_words)
  then have g: "g mod 65535 = (word_sum ?h + (65535 - f)) mod 65535" "0 < g" "g \<le> 65535"
    using fold_carries_mod [of "sum_words 0 ?h'"] fold_carries_bound [of "sum_words 0 ?h'"] assms(3) sum' c
    by (simp_all add: g_def)
  have "(word_sum ?h + (65535 - f)) mod 65535 = (f + (65535 - f)) mod 65535"
    using f(1) by (metis mod_add_left_eq)
  also have "\<dots> = 0" using f(3) by simp
  finally have "g = 65535" using g by (metis dvd_imp_le le_antisym mod_0_imp_dvd)
  then have "unat (ipv4Checksum ?h') = 0" by (simp add: unat_ipv4Checksum flip: g_def)
  then show ?thesis by (simp add: c_def unat_eq_zero)
qed

section \<open>What a reader of the file sees\<close>

record packet =
  seconds :: u32
  micros :: u32
  source :: "bytes \<times> bytes \<times> u16"
  destination :: "bytes \<times> bytes \<times> u16"
  contents :: bytes

text \<open>
  One packet record: its two lengths agree, the frame is complete, and the Ethernet, IPv4 and UDP
  headers are consistent with the lengths and with the header checksum.
\<close>

definition decode_packet :: "bytes \<Rightarrow> (packet \<times> bytes) option" where
  "decode_packet b =
     (let caplen = unat (Uint32 (slice 8 12 b)); frame = take caplen (drop 16 b);
          ip = drop 14 frame; udp = drop 20 ip in
      if 58 \<le> length b \<and> length frame = caplen \<and> Uint32 (slice 12 16 b) = Uint32 (slice 8 12 b) \<and>
         BigUint16 (slice 12 14 frame) = etherTypeIPv4 \<and>
         slice 0 1 ip = [0x45] \<and> slice 9 10 ip = [ipProtoUDP] \<and>
         unat (BigUint16 (slice 2 4 ip)) = length ip \<and> ipv4Checksum (take 20 ip) = 0 \<and>
         unat (BigUint16 (slice 4 6 udp)) = length udp
      then Some (\<lparr>seconds = Uint32 (slice 0 4 b), micros = Uint32 (slice 4 8 b),
         source = (slice 6 12 frame, slice 12 16 ip, BigUint16 (slice 0 2 udp)),
         destination = (slice 0 6 frame, slice 16 20 ip, BigUint16 (slice 2 4 udp)),
         contents = drop 8 udp\<rparr>, drop (16 + caplen) b)
      else None)"

definition client_end :: "bytes \<times> bytes \<times> u16" where
  "client_end = (macClient, ipClient, portClient)"

definition transporter_end :: "bytes \<times> bytes \<times> u16" where
  "transporter_end = (macTransporter, ipTransporter, portTransporter)"

section \<open>The layers, laid out\<close>

lemma length_BigPutUint16 [simp]: "length (BigPutUint16 v) = 2"
  by (simp add: BigPutUint16_def)

lemma BigPutUint16_0 [simp]: "BigPutUint16 0 = [0, 0]"
  by (simp add: BigPutUint16_def)

lemma buildUDP_layout:
  "buildUDP sp dp payload =
     BigPutUint16 sp @ BigPutUint16 dp @ BigPutUint16 (word_of_nat (8 + length payload)) @ [0, 0] @ payload"
  by (simp add: buildUDP_def put_at_def BigPutUint16_def numeral_eq_Suc Let_def)

lemma buildEthernet_layout:
  "length sm = 6 \<Longrightarrow> length dm = 6 \<Longrightarrow>
   buildEthernet sm dm payload = dm @ sm @ BigPutUint16 etherTypeIPv4 @ payload"
  by (simp add: buildEthernet_def put_at_def Let_def)

definition ip_header :: "u16 \<Rightarrow> u16 \<Rightarrow> bytes \<Rightarrow> bytes \<Rightarrow> bytes \<Rightarrow> bytes" where
  "ip_header len ident ck si di =
     [0x45, 0] @ BigPutUint16 len @ BigPutUint16 ident @ [0, 0, 64, ipProtoUDP] @ ck @ si @ di"

lemma list_update_put_at: "i < length xs \<Longrightarrow> xs[i := v] = put_at i [v] xs"
  by (simp add: put_at_def upd_conv_take_nth_drop)

lemma ip_header_filled:
  assumes "length si = 4" "length di = 4"
  shows "put_at 16 di (put_at 12 si (put_at 10 [0, 0] ((put_at 6 [0, 0] (put_at 4 (BigPutUint16 ident)
     (put_at 2 (BigPutUint16 len) ((replicate 20 0)[0 := 0x45, 1 := 0]))))[8 := 64, 9 := ipProtoUDP]))) =
     ip_header len ident [0, 0] si di"
  using assms
  by (simp add: list_update_put_at) (simp add: put_at_def ip_header_def BigPutUint16_def)

lemma ip_header_checksum:
  "length ck = 2 \<Longrightarrow> put_at 10 ck (ip_header len ident [0, 0] si di) = ip_header len ident ck si di"
  by (simp add: put_at_def ip_header_def BigPutUint16_def)

lemma buildIPv4_layout:
  assumes "length si = 4" "length di = 4"
  shows "buildIPv4 si di payload w =
     (let len = word_of_nat (20 + length payload) in
      (w\<lparr>nextID := nextID w + 1\<rparr>,
       ip_header len (nextID w)
         (BigPutUint16 (ipv4Checksum (ip_header len (nextID w) [0, 0] si di))) si di @ payload))"
  by (simp only: buildIPv4_def Let_def BigPutUint16_0 ip_header_filled [OF assms]
      ip_header_checksum length_BigPutUint16)

lemma ip_header_verifies:
  assumes "length si = 4" "length di = 4"
  shows "ipv4Checksum (ip_header len ident (BigPutUint16 (ipv4Checksum (ip_header len ident [0, 0] si di))) si di) = 0"
  using ipv4Checksum_verifies [of "[0x45, 0] @ BigPutUint16 len @ BigPutUint16 ident @ [0, 0, 64, ipProtoUDP]" "si @ di"]
    assms
  by (simp add: ip_header_def word_sum_append)

text \<open>A frame, whichever way the message travels.\<close>

definition udp_frame :: "bytes \<times> bytes \<times> u16 \<Rightarrow> bytes \<times> bytes \<times> u16 \<Rightarrow> u16 \<Rightarrow> bytes \<Rightarrow> bytes" where
  "udp_frame src dst ident payload =
     (case (src, dst) of ((sm, si, sp), (dm, di, dp)) \<Rightarrow>
      let len = word_of_nat (28 + length payload) in
      dm @ sm @ BigPutUint16 etherTypeIPv4 @
      ip_header len ident (BigPutUint16 (ipv4Checksum (ip_header len ident [0, 0] si di))) si di @
      BigPutUint16 sp @ BigPutUint16 dp @ BigPutUint16 (word_of_nat (8 + length payload)) @ [0, 0] @ payload)"

definition packet_record :: "go_time \<Rightarrow> bytes \<Rightarrow> bytes" where
  "packet_record ts frame =
     PutUint32 (word_of_int (unix_seconds ts)) @ PutUint32 (word_of_nat (nanoseconds ts div 1000)) @
     PutUint32 (word_of_nat (length frame)) @ PutUint32 (word_of_nat (length frame)) @ frame"

definition endpoints :: "Direction \<Rightarrow> (bytes \<times> bytes \<times> u16) \<times> (bytes \<times> bytes \<times> u16)" where
  "endpoints direction =
     (if direction = Incoming then (transporter_end, client_end) else (client_end, transporter_end))"

definition address_ok :: "bytes \<times> bytes \<times> u16 \<Rightarrow> bool" where
  "address_ok = (\<lambda>(m, i, p). length m = 6 \<and> length i = 4)"

lemma address_ok_ends [simp]: "address_ok client_end" "address_ok transporter_end"
  by (simp_all add: address_ok_def client_end_def transporter_end_def macClient_def macTransporter_def
      ipClient_def ipTransporter_def)

lemma length_ip_header [simp]:
  "length ck = 2 \<Longrightarrow> length si = 4 \<Longrightarrow> length di = 4 \<Longrightarrow> length (ip_header len ident ck si di) = 20"
  by (simp add: ip_header_def)

lemma length_udp_frame [simp]:
  "address_ok src \<Longrightarrow> address_ok dst \<Longrightarrow> length (udp_frame src dst ident payload) = 42 + length payload"
  by (auto simp: address_ok_def udp_frame_def Let_def split: prod.splits)

lemma WritePacket_frame:
  "WritePacket direction payload ts w =
     (case endpoints direction of (src, dst) \<Rightarrow>
      let rec = packet_record ts (udp_frame src dst (nextID w) payload) in
      (case conn_Write (out w) (take 16 rec) of (out1, n, err) \<Rightarrow>
       (case err of Some e \<Rightarrow> (w\<lparr>out := out1, nextID := nextID w + 1\<rparr>, Some (ErrPcapRecord e)) | None \<Rightarrow>
       (case conn_Write out1 (drop 16 rec) of (out2, n2, err2) \<Rightarrow>
        (w\<lparr>out := out2, nextID := nextID w + 1\<rparr>, map_option ErrPcapFrame err2)))))"
  by (simp add: WritePacket_def endpoints_def client_end_def transporter_end_def buildIPv4_layout
      buildEthernet_layout buildUDP_layout macClient_def macTransporter_def
      ipClient_def ipTransporter_def udp_frame_def packet_record_def put_at_def Let_def
      split: prod.splits option.splits)

lemma unat_u16_of_nat: "n < 65536 \<Longrightarrow> unat (word_of_nat n :: u16) = n"
  by (simp add: unat_of_nat)

lemma decode_packet_record:
  assumes "address_ok src" "address_ok dst" "length payload \<le> 65507"
  shows "decode_packet (packet_record ts (udp_frame src dst ident payload) @ rest) =
     Some (\<lparr>seconds = word_of_int (unix_seconds ts), micros = word_of_nat (nanoseconds ts div 1000),
       source = src, destination = dst, contents = payload\<rparr>, rest)"
proof -
  obtain sm si sp dm di dp where ends: "src = (sm, si, sp)" "dst = (dm, di, dp)"
    by (metis prod_cases3)
  have len: "length sm = 6" "length si = 4" "length dm = 6" "length di = 4"
    using assms(1,2) by (simp_all add: address_ok_def ends)
  define iplen :: u16 where "iplen = word_of_nat (28 + length payload)"
  define ulen :: u16 where "ulen = word_of_nat (8 + length payload)"
  define ck where "ck = BigPutUint16 (ipv4Checksum (ip_header iplen ident [0, 0] si di))"
  define hdr where "hdr = ip_header iplen ident ck si di"
  define udp where "udp = BigPutUint16 sp @ BigPutUint16 dp @ BigPutUint16 ulen @ [0, 0] @ payload"
  let ?frame = "dm @ sm @ BigPutUint16 etherTypeIPv4 @ hdr @ udp"
  have frame: "udp_frame src dst ident payload = ?frame"
    by (simp add: udp_frame_def ends hdr_def udp_def ck_def iplen_def ulen_def Let_def)
  let ?n = "word_of_nat (length ?frame) :: u32"
  have lens: "length hdr = 20" "length udp = 8 + length payload" "length ?frame = 42 + length payload"
    using len by (simp_all add: hdr_def udp_def ck_def)
  have n: "unat ?n = length ?frame" using assms(3) lens(3) by (intro unat_u32_of_nat) linarith
  have rec: "packet_record ts (udp_frame src dst ident payload) =
      PutUint32 (word_of_int (unix_seconds ts)) @ PutUint32 (word_of_nat (nanoseconds ts div 1000)) @
      PutUint32 ?n @ PutUint32 ?n @ ?frame"
    by (simp add: packet_record_def frame)
  have ck0: "ipv4Checksum hdr = 0"
    unfolding hdr_def ck_def by (rule ip_header_verifies [OF len(2,4)])
  have "28 + length payload < 65536" "8 + length payload < 65536" using assms(3) by simp_all
  then have l16: "unat iplen = 28 + length payload" "unat ulen = 8 + length payload"
    unfolding iplen_def ulen_def by (simp_all only: unat_u16_of_nat)
  have h: "slice 0 1 hdr = [0x45]" "slice 2 4 hdr = BigPutUint16 iplen" "slice 9 10 hdr = [ipProtoUDP]"
    "slice 12 16 hdr = si" "slice 16 20 hdr = di"
    using len by (simp_all add: hdr_def ip_header_def slice_def ck_def BigPutUint16_def)
  let ?b = "packet_record ts (udp_frame src dst ident payload) @ rest"
  have b: "slice 0 4 ?b = PutUint32 (word_of_int (unix_seconds ts))"
    "slice 4 8 ?b = PutUint32 (word_of_nat (nanoseconds ts div 1000))"
    "slice 8 12 ?b = PutUint32 ?n" "slice 12 16 ?b = PutUint32 ?n" "drop 16 ?b = ?frame @ rest"
    "58 \<le> length ?b" "drop (16 + length ?frame) ?b = rest"
    using lens unfolding rec by (simp_all add: slice_def)
  have f: "slice 12 14 ?frame = BigPutUint16 etherTypeIPv4" "slice 6 12 ?frame = sm" "slice 0 6 ?frame = dm"
    "drop 14 ?frame = hdr @ udp"
    using len by (simp_all add: slice_def)
  have i: "slice j k (hdr @ udp) = slice j k hdr" if "k \<le> 20" for j k
    using that lens(1) by (simp add: slice_append_left)
  have u: "slice 0 2 udp = BigPutUint16 sp" "slice 2 4 udp = BigPutUint16 dp" "slice 4 6 udp = BigPutUint16 ulen"
    "drop 8 udp = payload"
    by (simp_all add: udp_def slice_def)
  have t: "take (length ?frame) (?frame @ rest) = ?frame" "take 20 (hdr @ udp) = hdr" "drop 20 (hdr @ udp) = udp"
    "length (hdr @ udp) = 28 + length payload"
    using lens(1,2) by simp_all
  show ?thesis
    unfolding decode_packet_def b(1-5) b(7) le32.get_put n Let_def t f
    using lens l16 b(6) by (simp add: i h u ck0 t(4) ends BigUint16_BigPutUint16 del: length_append One_nat_def)
qed

section \<open>Properties\<close>

text \<open>
  C16. On a file that takes writes, \<open>WritePacket\<close> appends one packet record, and a reader of the
  file finds in it the message, its direction and its time, with consistent lengths and a valid
  IPv4 header checksum.  Messages of up to 65507 bytes fit, more than the largest frame of the
  protocol.
\<close>

theorem WritePacket_then_decode:
  assumes "writable (out w)" "length payload \<le> 65507"
  shows "\<exists>bs. WritePacket direction payload ts w =
       (w\<lparr>out := (out w)\<lparr>outbound := outbound (out w) @ bs\<rparr>, nextID := nextID w + 1\<rparr>, None) \<and>
     (\<forall>rest. decode_packet (bs @ rest) =
       Some (\<lparr>seconds = word_of_int (unix_seconds ts), micros = word_of_nat (nanoseconds ts div 1000),
         source = (if direction = Outgoing then client_end else transporter_end),
         destination = (if direction = Outgoing then transporter_end else client_end),
         contents = payload\<rparr>, rest))"
proof -
  obtain src dst where ends: "endpoints direction = (src, dst)" by (cases "endpoints direction")
  then have ok: "address_ok src" "address_ok dst" by (auto simp: endpoints_def split: if_splits)
  define bs where "bs = packet_record ts (udp_frame src dst (nextID w) payload)"
  have "WritePacket direction payload ts w =
      (w\<lparr>out := (out w)\<lparr>outbound := outbound (out w) @ take 16 bs @ drop 16 bs\<rparr>, nextID := nextID w + 1\<rparr>, None)"
    using assms(1) by (simp add: WritePacket_frame ends conn_Write_writable bs_def Let_def)
  moreover have "decode_packet (bs @ rest) =
      Some (\<lparr>seconds = word_of_int (unix_seconds ts), micros = word_of_nat (nanoseconds ts div 1000),
        source = src, destination = dst, contents = payload\<rparr>, rest)" for rest
    unfolding bs_def by (rule decode_packet_record [OF ok assms(2)])
  moreover have "src = (if direction = Outgoing then client_end else transporter_end)"
    "dst = (if direction = Outgoing then transporter_end else client_end)"
    using ends by (cases direction; simp add: endpoints_def)+
  ultimately show ?thesis by auto
qed

theorem WritePacket_then_decode_witness:
  "\<exists>bs. WritePacket Incoming [1, 2, 3] \<lparr>unix_seconds = 1000, nanoseconds = 5000\<rparr>
         \<lparr>out = fresh_conn [], nextID = 65535\<rparr> =
       (\<lparr>out = (fresh_conn [])\<lparr>outbound := bs\<rparr>, nextID = 0\<rparr>, None) \<and>
     (\<exists>p. decode_packet bs = Some (p, []) \<and> contents p = [1, 2, 3] \<and> micros p = 5)"
  using WritePacket_then_decode [of "\<lparr>out = fresh_conn [], nextID = 65535\<rparr>" "[1, 2, 3]" Incoming
      "\<lparr>unix_seconds = 1000, nanoseconds = 5000\<rparr>"]
  by (auto simp: fresh_conn_def writable_def dest!: spec [of _ "[]"])

text \<open>
  The IPv4 checksum: whatever the rest of a header of even length holds, filling in
  \<open>ipv4Checksum\<close> of the header with a zeroed field gives a header whose checksum is zero.
\<close>

theorem ipv4Checksum_self_verifies:
  assumes "even (length pre)" "length pre + length post < 1000" "hd (pre @ post) \<noteq> 0" "length pre \<ge> 2"
  shows "ipv4Checksum (pre @ BigPutUint16 (ipv4Checksum (pre @ [0, 0] @ post)) @ post) = 0"
proof (rule ipv4Checksum_verifies [OF assms(1,2)])
  obtain a b rest where pre: "pre = a # b # rest" using assms(4) by (cases pre rule: word_sum.cases) auto
  then have "0 < unat a" using assms(3) by (simp add: unat_gt_0)
  then show "0 < word_sum (pre @ [0, 0] @ post)" by (simp add: pre)
qed

theorem ipv4Checksum_self_verifies_witness:
  "ipv4Checksum ([0x45, 0] @ BigPutUint16 (ipv4Checksum ([0x45, 0] @ [0, 0] @ [192, 168])) @ [192, 168]) = 0"
  by (rule ipv4Checksum_self_verifies) simp_all

end
