(* ===== verification/Transport_Client.thy ===== *)
theory Transport_Client
  imports Connection_Invariant Adb_Message Pcap_Writer
begin

text \<open>
  \<open>client/transportLayer/client.go\<close>: the client's connection to the transporter.  The reader
  goroutine is a phase: it reads, offers one container on the unbuffered message channel, or
  has ended and closed the channel.  \<open>wall_clock\<close> is what \<open>time.Now()\<close> returns.  Dialling, the
  creation of the capture file and TLS are the environment's: \<open>Start\<close> and \<open>EnableDebugCapture\<close>
  take their results.  The mutex makes a write one atomic step.  Logging is left out.
\<close>

section \<open>State\<close>

datatype reader_phase = NotStarted | Reading | Offering nat | Ended

record Client =
  client_connection :: "net_conn option"
  ctx_done :: bool
  reader :: reader_phase
  bytesSent :: u64
  bytesReceived :: u64
  capture :: "Writer option"
  messagePool :: "TransporterMessage ObjectPool"
  wall_clock :: go_time

definition CreateClient :: "go_time \<Rightarrow> Client" where
  "CreateClient now =
     \<lparr>client_connection = None, ctx_done = False, reader = NotStarted, bytesSent = 0, bytesReceived = 0,
      capture = None, messagePool = NewObjectPool CreateTransporterMessage, wall_clock = now\<rparr>"

section \<open>Capture\<close>

definition EnableDebugCapture :: "error + net_conn \<Rightarrow> Client \<Rightarrow> Client \<times> error option" where
  "EnableDebugCapture new_file c =
     (case new_file of Inl e \<Rightarrow> (c, Some e) | Inr file \<Rightarrow>
     (case NewWriter file of (file1, res) \<Rightarrow>
     (case res of Inl e \<Rightarrow> (c, Some e) | Inr w \<Rightarrow> (c\<lparr>capture := Some w\<rparr>, None))))"

definition recordCapture :: "Direction \<Rightarrow> bytes \<Rightarrow> Client \<Rightarrow> Client" where
  "recordCapture direction bs c =
     (case capture c of None \<Rightarrow> c
      | Some w \<Rightarrow> c\<lparr>capture := Some (fst (WritePacket direction bs (wall_clock c) w))\<rparr>)"

section \<open>Start, reader and Close\<close>

definition Start :: "error + net_conn \<Rightarrow> Client \<Rightarrow> Client \<times> error option" where
  "Start dialled c =
     (case dialled of Inl e \<Rightarrow> (c, Some e)
      | Inr conn \<Rightarrow> (c\<lparr>client_connection := Some conn, ctx_done := False, reader := Reading\<rparr>, None))"

text \<open>One turn of \<open>startReader\<close>, up to the point where it offers the message.\<close>

definition startReader :: "Client \<Rightarrow> Client outcome" where
  "startReader c =
     (if ctx_done c then Ret (c\<lparr>reader := Ended\<rparr>)
      else andThen (Obtain (messagePool c)) (\<lambda>(pool, a).
      (case Data a pool of
         Inl e \<Rightarrow> Ret (c\<lparr>messagePool := fst (Dispose a pool), reader := Ended\<rparr>)
       | Inr m \<Rightarrow>
         (case client_connection c of None \<Rightarrow> Panic | Some conn \<Rightarrow>
          andThen (Read m conn) (\<lambda>(m1, conn1, err).
          let pool1 = store_data a m1 pool; c1 = c\<lparr>client_connection := Some conn1\<rparr> in
          (case err of
             Some e \<Rightarrow> Ret (c1\<lparr>messagePool := fst (Dispose a pool1), reader := Ended\<rparr>)
           | None \<Rightarrow>
             let c2 = c1\<lparr>messagePool := pool1, bytesReceived := bytesReceived c1 + ucast (WireSize m1)\<rparr> in
             andThen (Bytes m1) (\<lambda>bs. Ret ((recordCapture Incoming bs c2)\<lparr>reader := Offering a\<rparr>))))))))"

text \<open>The other arm of the reader's \<open>select\<close>, once the context is cancelled.\<close>

definition startReader_cancelled :: "nat \<Rightarrow> Client \<Rightarrow> Client" where
  "startReader_cancelled a c = c\<lparr>messagePool := fst (Dispose a (messagePool c)), reader := Ended\<rparr>"

text \<open>
  \<open><-client.Messages()\<close>: takes what the reader offers, \<open>None\<close> when the channel is closed, and
  waits for the reader's next turn otherwise.
\<close>

definition Messages :: "Client \<Rightarrow> (Client \<times> nat option) outcome" where
  "Messages c =
     (case reader c of
        NotStarted \<Rightarrow> Blocked
      | Offering a \<Rightarrow> Ret (c\<lparr>reader := Reading\<rparr>, Some a)
      | Ended \<Rightarrow> Ret (c, None)
      | Reading \<Rightarrow> andThen (startReader c) (\<lambda>c1.
          case reader c1 of Offering a \<Rightarrow> Ret (c1\<lparr>reader := Reading\<rparr>, Some a) | _ \<Rightarrow> Ret (c1, None)))"

definition Client_Close :: "Client \<Rightarrow> Client" where
  "Client_Close c =
     (let c1 = (if reader c = NotStarted then c else c\<lparr>ctx_done := True\<rparr>);
          c2 = c1\<lparr>client_connection := map_option (\<lambda>conn. fst (conn_Close conn)) (client_connection c1)\<rparr> in
      c2\<lparr>capture := map_option (\<lambda>w. w\<lparr>out := fst (conn_Close (out w))\<rparr>) (capture c2)\<rparr>)"

section \<open>Sending\<close>

definition writeMessage :: "TransporterMessage \<Rightarrow> Client \<Rightarrow> (Client \<times> error option) outcome" where
  "writeMessage m c =
     (case client_connection c of None \<Rightarrow> Panic | Some conn \<Rightarrow>
      andThen (Write m conn) (\<lambda>(conn1, err).
      let c1 = c\<lparr>client_connection := Some conn1\<rparr> in
      (case err of Some e \<Rightarrow> Ret (c1, Some e) | None \<Rightarrow>
       let c2 = c1\<lparr>bytesSent := bytesSent c1 + ucast (WireSize m)\<rparr> in
       andThen (Bytes m) (\<lambda>bs. Ret (recordCapture Outgoing bs c2, None)))))"

definition withMessage ::
  "(TransporterMessage \<Rightarrow> Client \<Rightarrow> (TransporterMessage \<times> Client \<times> error option) outcome) \<Rightarrow>
   Client \<Rightarrow> (Client \<times> error option) outcome" where
  "withMessage fn c =
     andThen (withPooled (messagePool c) (\<lambda>e. (c, Some e)) (\<lambda>m. fn m c))
       (\<lambda>(pool, c1, err). Ret (c1\<lparr>messagePool := pool\<rparr>, err))"

definition then_write ::
  "(TransporterMessage \<times> error option) outcome \<Rightarrow> Client \<Rightarrow> (TransporterMessage \<times> Client \<times> error option) outcome" where
  "then_write filled c =
     andThen filled (\<lambda>(m, err).
       case err of Some e \<Rightarrow> Ret (m, c, Some e)
       | None \<Rightarrow> andThen (writeMessage m c) (\<lambda>(c1, err). Ret (m, c1, err)))"

definition SendError :: "u32 \<Rightarrow> int \<Rightarrow> string \<Rightarrow> Client \<Rightarrow> (Client \<times> error option) outcome" where
  "SendError command errorCode errorMessage = withMessage (\<lambda>m. then_write
     (SetErrorPayload \<lparr>ErrorCode = errorCode, ErrorMessage = errorMessage\<rparr> (SetErrorResponseCommand command m)))"

definition SendConnect :: "Client \<Rightarrow> (Client \<times> error option) outcome" where
  "SendConnect = withMessage (\<lambda>m. then_write
     (SetPayloadConnect \<lparr>ClientProtocolVersion = ProtocolVersion\<rparr> (SetDirectCommand CommandConnect m)))"

definition SendCreateRoom :: "Client \<Rightarrow> (Client \<times> error option) outcome" where
  "SendCreateRoom = withMessage (\<lambda>m. then_write (Ret (SetDirectCommand CommandCreateRoom m, None)))"

definition SendJoinRoom :: "string \<Rightarrow> bytes \<Rightarrow> Client \<Rightarrow> (Client \<times> error option) outcome" where
  "SendJoinRoom roomId publicKey = withMessage (\<lambda>m. then_write
     (SetPayloadConnectRoom \<lparr>RoomId = roomId, JoinClientId = [], JoinPublicKey = publicKey\<rparr>
       (SetDirectCommand CommandJoinRoom m)))"

definition Client_SendJoinRoomResponse :: "int \<Rightarrow> bytes \<Rightarrow> Client \<Rightarrow> (Client \<times> error option) outcome" where
  "Client_SendJoinRoomResponse isAccepted ownerPublicKey = withMessage (\<lambda>m. then_write
     (SetPayloadConnectRoomResult \<lparr>Accepted = isAccepted, OwnerClientId = [], OwnerPublicKey = ownerPublicKey\<rparr>
       (SetResponseCommand CommandJoinRoom m)))"

definition SendAdbMessage :: "AdbMessage \<Rightarrow> Client \<Rightarrow> (Client \<times> error option) outcome" where
  "SendAdbMessage message = withMessage (\<lambda>m. then_write
     (let m1 = SetDirectCommand CommandAdbTransport m in
      andThen (AdbBytes message) (\<lambda>bs. SetRawPayload bs m1)))"

section \<open>What a send does to the client\<close>

definition client_ok :: "Client \<Rightarrow> bool" where
  "client_ok c \<longleftrightarrow> client_connection c \<noteq> None \<and> good_pool wf_message (messagePool c)"

definition client_wire :: "Client \<Rightarrow> bytes" where
  "client_wire c = (case client_connection c of None \<Rightarrow> [] | Some conn \<Rightarrow> outbound conn)"

definition client_writable :: "Client \<Rightarrow> bool" where
  "client_writable c \<longleftrightarrow> (\<exists>conn. client_connection c = Some conn \<and> writable conn)"

text \<open>The client once the bytes \<open>bs\<close> are written in full: connection, counter and capture.\<close>

definition sent_frame :: "bytes \<Rightarrow> Client \<Rightarrow> Client" where
  "sent_frame bs c =
     recordCapture Outgoing bs (c\<lparr>
       client_connection := map_option (\<lambda>conn. conn\<lparr>outbound := outbound conn @ bs\<rparr>) (client_connection c),
       bytesSent := bytesSent c + word_of_nat (length bs)\<rparr>)"

lemma recordCapture_simps [simp]:
  "client_connection (recordCapture d bs c) = client_connection c"
  "messagePool (recordCapture d bs c) = messagePool c"
  "reader (recordCapture d bs c) = reader c"
  "ctx_done (recordCapture d bs c) = ctx_done c"
  "bytesSent (recordCapture d bs c) = bytesSent c"
  "bytesReceived (recordCapture d bs c) = bytesReceived c"
  "wall_clock (recordCapture d bs c) = wall_clock c"
  "capture c = None \<Longrightarrow> recordCapture d bs c = c"
  by (simp_all add: recordCapture_def split: option.splits)

lemma sent_frame_simps [simp]:
  "messagePool (sent_frame bs c) = messagePool c"
  "reader (sent_frame bs c) = reader c"
  "bytesReceived (sent_frame bs c) = bytesReceived c"
  "bytesSent (sent_frame bs c) = bytesSent c + word_of_nat (length bs)"
  "ctx_done (sent_frame bs c) = ctx_done c"
  "wall_clock (sent_frame bs c) = wall_clock c"
  "client_connection (sent_frame bs c) =
     map_option (\<lambda>conn. conn\<lparr>outbound := outbound conn @ bs\<rparr>) (client_connection c)"
  by (simp_all add: sent_frame_def)

lemma client_wire_pool [simp]: "client_wire (c\<lparr>messagePool := p\<rparr>) = client_wire c"
  by (simp add: client_wire_def)

lemma ucast_WireSize:
  assumes "wf_message m" "payload_fits m"
  shows "(ucast (WireSize m) :: u64) = word_of_nat (length (wire_bytes m))"
  by (simp flip: WireSize_wire_bytes [OF assms])

lemma writeMessage_writable:
  assumes "wf_message m" "payload_fits m" "client_writable c"
  shows "writeMessage m c = Ret (sent_frame (wire_bytes m) c, None)"
proof -
  obtain conn where "client_connection c = Some conn" "writable conn"
    using assms(3) by (auto simp: client_writable_def)
  then show ?thesis
    using Write_writable [OF assms(1,2), of conn] Bytes_wire [OF assms(1,2)] ucast_WireSize [OF assms(1,2)]
    by (simp add: writeMessage_def sent_frame_def)
qed

text \<open>On any connection a sealed message is written as a prefix of its frame and nothing panics.\<close>

lemma writeMessage_any:
  assumes "wf_message m" "payload_fits m" "client_connection c \<noteq> None"
  shows "returns (\<lambda>(c', e). messagePool c' = messagePool c \<and> client_connection c' \<noteq> None \<and>
     reader c' = reader c \<and>
     (\<exists>k \<le> length (wire_bytes m). client_wire c' = client_wire c @ take k (wire_bytes m) \<and>
        (e = None \<longrightarrow> k = length (wire_bytes m)))) (writeMessage m c)"
proof -
  obtain conn where conn: "client_connection c = Some conn" using assms(3) by auto
  obtain conn1 e k where w: "Write m conn = Ret (conn1, e)" "k \<le> length (wire_bytes m)"
    "outbound conn1 = outbound conn @ take k (wire_bytes m)" "e = None \<longrightarrow> k = length (wire_bytes m)"
    using Write_any [OF assms(1,2), of conn] by (auto elim!: returnsE)
  show ?thesis
    using w conn Bytes_wire [OF assms(1,2)]
    by (cases e) (auto simp: writeMessage_def client_wire_def Let_def)
qed

section \<open>The senders\<close>

text \<open>
  Every client sender that seals its message is a \<open>frame_sender\<close>: two more instances of the
  contract, and what it means for a client.
\<close>

definition fill_connect :: "u32 \<Rightarrow> TransporterMessage \<Rightarrow> (TransporterMessage \<times> error option) outcome" where
  "fill_connect v m = SetPayloadConnect \<lparr>ClientProtocolVersion = v\<rparr> (SetDirectCommand CommandConnect m)"

definition fill_adb :: "bytes \<Rightarrow> TransporterMessage \<Rightarrow> (TransporterMessage \<times> error option) outcome" where
  "fill_adb bs m = SetRawPayload bs (SetDirectCommand CommandAdbTransport m)"

interpretation connect_sender: frame_sender fill_connect "\<lambda>v. CommandConnect"
  "\<lambda>v. enc_fields [FInt (uint v)]" "\<lambda>v. True"
proof (unfold_locales, goal_cases)
  case (1 m x)
  then show ?case
    using connect_payload.command_then_set_fits [OF 1(1), of "\<lparr>ClientProtocolVersion = x\<rparr>"]
    by (simp add: fill_connect_def)
next
  case (2 m x)
  then show ?case by simp
qed

lemma prefix_raw:
  assumes "wf_message m" "length bs \<le> 0xF000"
  shows "prefix (write_payload 0 bs m) bs"
proof -
  have "write_payload 0 bs m = write_at 12 bs m" by (simp add: write_payload_def)
  then show ?thesis
    using assms by (simp add: prefix_def payloadBuffer_write_at_payload put_at_def)
qed

lemma SetRawPayload_ok:
  assumes "wf_message m" "length bs \<le> 0xF000"
  shows "\<exists>m'. SetRawPayload bs m = Ret (m', None) \<and> holds_frame m' (Command m) bs \<and> sealed m'"
proof -
  have n: "\<not> (word_of_nat (length bs) :: u32) > word_of_nat (length (payloadBuffer m))"
    using assms by (simp add: word_less_nat_alt)
  have c: "Command (write_payload 0 bs m) = Command m"
    using assms by (simp add: write_payload_def)
  show ?thesis
    using updatePayloadMetadata_ok [OF prefix_raw [OF assms], of "word_of_nat (length bs)"] assms n c
    by (auto simp: SetRawPayload_def)
qed

interpretation adb_sender: frame_sender fill_adb "\<lambda>bs. CommandAdbTransport" "\<lambda>bs. bs"
  "\<lambda>bs. length bs < 2 ^ 32"
proof (unfold_locales, goal_cases)
  case (1 m x)
  then show ?case
    using SetRawPayload_ok [of "SetDirectCommand CommandAdbTransport m" x] by (simp add: fill_adb_def)
next
  case (2 m x)
  then show ?case by (simp add: fill_adb_def SetRawPayload_def word_less_nat_alt)
qed

context frame_sender
begin

lemma client_send:
  assumes "good_pool wf_message (messagePool c)" "client_writable c" "length (payload x) \<le> 0xF000"
  shows "\<exists>p. withMessage (\<lambda>m. then_write (fill x m)) c =
       Ret ((sent_frame (encode_frame (command x) (payload x)) c)\<lparr>messagePool := p\<rparr>, None) \<and>
     good_pool wf_message p \<and> same_leases (messagePool c) p"
proof -
  from withPooled_unfold [OF assms(1), of "\<lambda>e. (c, Some e)" "\<lambda>m. then_write (fill x m) c"]
  obtain m a p1 where m: "wf_message m"
    "withPooled (messagePool c) (\<lambda>e. (c, Some e)) (\<lambda>m. then_write (fill x m) c) =
      andThen (then_write (fill x m) c) (\<lambda>(m', r). Ret (fst (Dispose a (store_data a m' p1)), r))"
    "\<forall>m'. wf_message m' \<longrightarrow> good_pool wf_message (fst (Dispose a (store_data a m' p1))) \<and>
        same_leases (messagePool c) (fst (Dispose a (store_data a m' p1)))"
    by blast
  from fill_fits [OF m(1) assms(3)] obtain m' where m': "fill x m = Ret (m', None)"
    "holds_frame m' (command x) (payload x)" "sealed m'" by blast
  then have wire: "wire_bytes m' = encode_frame (command x) (payload x)" "wf_message m'" "payload_fits m'"
    using wire_bytes_encode [of m'] by (simp_all add: holds_frame_def)
  have "then_write (fill x m) c = Ret (m', sent_frame (encode_frame (command x) (payload x)) c, None)"
    using writeMessage_writable [OF wire(2,3) assms(2)] wire(1) by (simp add: then_write_def m'(1))
  then show ?thesis using m(3) wire(2) by (auto simp: withMessage_def m(2))
qed

text \<open>On any connection: no panic, the pool's leases are kept, and a prefix of the frame is written.\<close>

lemma client_send_any:
  assumes "client_ok c" "short x"
  shows "returns (\<lambda>(c', e). client_ok c' \<and> reader c' = reader c \<and>
     same_leases (messagePool c) (messagePool c') \<and>
     (\<exists>k. client_wire c' = client_wire c @ take k (encode_frame (command x) (payload x)) \<and>
        (e = None \<longrightarrow> client_wire c' = client_wire c @ encode_frame (command x) (payload x))))
     (withMessage (\<lambda>m. then_write (fill x m)) c)"
proof -
  let ?frame = "encode_frame (command x) (payload x)"
  let ?Q = "\<lambda>(c', e :: error option). client_connection c' \<noteq> None \<and> reader c' = reader c \<and>
     (\<exists>k. client_wire c' = client_wire c @ take k ?frame \<and> (e = None \<longrightarrow> client_wire c' = client_wire c @ ?frame))"
  have conn: "client_connection c \<noteq> None" and pool: "good_pool wf_message (messagePool c)"
    using assms(1) by (simp_all add: client_ok_def)
  have "returns (\<lambda>(m', r). wf_message m' \<and> ?Q r) (then_write (fill x m) c)" if wf: "wf_message m" for m
  proof (cases "length (payload x) \<le> 0xF000")
    case True
    from fill_fits [OF wf True] obtain m' where m': "fill x m = Ret (m', None)"
      "holds_frame m' (command x) (payload x)" "sealed m'" by blast
    then have wire: "wire_bytes m' = ?frame" "wf_message m'" "payload_fits m'"
      using wire_bytes_encode [of m'] by (simp_all add: holds_frame_def)
    show ?thesis
      using writeMessage_any [OF wire(2,3) conn] wire(1,2)
      by (auto simp: then_write_def m'(1) outcome_simps elim!: returns_mono)
  next
    case False
    with fill_too_long [OF wf _ assms(2)] obtain m' e where "fill x m = Ret (m', Some e)" "wf_message m'" by auto
    then show ?thesis using conn by (auto simp: then_write_def intro!: exI [of _ 0])
  qed
  then have "returns (\<lambda>(p', r). good_pool wf_message p' \<and> same_leases (messagePool c) p' \<and> ?Q r)
      (withPooled (messagePool c) (\<lambda>e. (c, Some e)) (\<lambda>m. then_write (fill x m) c))"
    by (rule withPooled_returns [OF pool])
  then show ?thesis
    by (auto simp: withMessage_def outcome_simps client_ok_def elim!: returns_mono)
qed

end

end
