(* ===== verification/Client_Reader.thy ===== *)
theory Client_Reader
  imports Transport_Client Reader
begin

text \<open>
  What the client's reader goroutine hands to the receiver of \<open>Messages\<close>: it agrees with the
  frame specification on every stream, holds its buffer exclusively, and ends by closing the
  channel.  The locale \<open>transport_client\<close> is the interface \<open>TransportClient\<close> of
  \<open>client/relay/relay.go\<close> as far as sending goes; it is interpreted on the client here and
  used by the relay and the owner's multiplexer.
\<close>

section \<open>A buffer that somebody holds\<close>

definition pool_holds :: "nat \<Rightarrow> TransporterMessage ObjectPool \<Rightarrow> TransporterMessage ObjectPool \<Rightarrow> bool" where
  "pool_holds a p p' \<longleftrightarrow> good_pool wf_message p' \<and> uses p a = 0 \<and> uses p' = (uses p)(a := 1) \<and>
     (\<forall>b. 0 < uses p b \<longrightarrow> Data b p' = Data b p)"

lemma pool_holds_obtain:
  assumes "good_pool wf_message p"
  obtains p' a m where "Obtain p = Ret (p', a)" "Data a p' = Inr m" "wf_message m" "pool_holds a p p'"
proof -
  have g: "pool_inv p" "pool_all wf_message p" using assms by (simp_all add: good_pool_def)
  from Obtain_exclusive [OF g(1)] g(2) obtain p' a where o: "Obtain p = Ret (p', a)" "pool_inv p'"
    "pool_all wf_message p'" "live p' a" by blast
  from pooled.acquire [OF g(1)] o(1) have u: "uses p a = 0" "uses p' a = 1"
    "\<forall>b. b \<noteq> a \<longrightarrow> uses p' b = uses p b \<and> (0 < uses p b \<longrightarrow> Data b p' = Data b p)" by auto
  have d: "Data a p' = Inr (pdata (objects p' ! a))" by (rule Data_live [OF o(4)])
  have wf: "wf_message (pdata (objects p' ! a))" by (rule pool_all_nth [OF o(3) live_length [OF o(4)]])
  have "\<forall>b. 0 < uses p b \<longrightarrow> Data b p' = Data b p" using u(1,3) by (metis less_nat_zero_code)
  then have "pool_holds a p p'"
    using o u by (auto simp: pool_holds_def good_pool_def fun_eq_iff)
  with o(1) d wf show thesis by (rule that)
qed

lemma pool_holds_store:
  assumes "pool_holds a p p'" "wf_message m"
  shows "pool_holds a p (store_data a m p')" "Data a (store_data a m p') = Inr m"
proof -
  have g: "good_pool wf_message p'" "0 < uses p' a" using assms(1) by (simp_all add: pool_holds_def)
  note s = store_data_good [OF g assms(2)]
  have others: "b \<noteq> a" if "0 < uses p b" for b using that assms(1) by (auto simp: pool_holds_def)
  show "pool_holds a p (store_data a m p')"
    using assms(1) s(1,2,4) others by (auto simp: pool_holds_def)
  show "Data a (store_data a m p') = Inr m" by (rule s(3))
qed

lemma pool_holds_dispose:
  assumes "pool_holds a p p'"
  shows "good_pool wf_message (fst (Dispose a p'))" "same_leases p (fst (Dispose a p'))"
    "snd (Dispose a p') = None"
proof -
  have g: "pool_inv p'" "pool_all wf_message p'" "0 < uses p' a" "uses p a = 0" "uses p' = (uses p)(a := 1)"
    "\<forall>b. 0 < uses p b \<longrightarrow> Data b p' = Data b p"
    using assms by (simp_all add: pool_holds_def good_pool_def)
  note d = pooled.give_back [OF g(1,3)]
  have "pool_all wf_message (fst (Dispose a p'))"
    using Dispose_live(6) [OF g(1) _ g(2)] g(3) by (simp add: uses_live)
  with d show "good_pool wf_message (fst (Dispose a p'))" "snd (Dispose a p') = None"
    by (simp_all add: good_pool_def)
  have others: "b \<noteq> a" if "0 < uses p b" for b using that g(4) by auto
  have "uses (fst (Dispose a p')) = uses p" using d g(4,5) by (auto simp: fun_eq_iff)
  moreover have "Data b (fst (Dispose a p')) = Data b p" if "0 < uses p b" for b
    using d g(5,6) that others [OF that] by auto
  ultimately show "same_leases p (fst (Dispose a p'))" by (simp add: same_leases_def)
qed

section \<open>The reader agrees with the frame specification\<close>

text \<open>The client \<open>c'\<close> has taken a frame off the wire into the container \<open>a\<close>.\<close>

definition took_frame :: "Client \<Rightarrow> Client \<Rightarrow> nat \<Rightarrow> u32 \<Rightarrow> bytes \<Rightarrow> bytes \<Rightarrow> bool" where
  "took_frame c c' a command payload rest \<longleftrightarrow>
     pool_holds a (messagePool c) (messagePool c') \<and>
     (\<exists>m. Data a (messagePool c') = Inr m \<and> holds_frame m command payload) \<and>
     client_connection c' = map_option (\<lambda>conn. conn\<lparr>inbound := rest\<rparr>) (client_connection c) \<and>
     ctx_done c' = ctx_done c \<and> wall_clock c' = wall_clock c \<and> bytesSent c' = bytesSent c \<and>
     bytesReceived c' = bytesReceived c + word_of_nat (12 + length payload)"

definition reader_lost :: "Client \<Rightarrow> Client \<Rightarrow> bool" where
  "reader_lost c c' \<longleftrightarrow> reader c' = Ended \<and> client_ok c' \<and> same_leases (messagePool c) (messagePool c') \<and>
     bytesReceived c' = bytesReceived c \<and> client_wire c' = client_wire c"

lemma startReader_decodes:
  assumes "client_ok c" "client_connection c = Some conn" "\<not> conn_closed conn" "\<not> ctx_done c"
  shows "case decode_frame (in_end conn) (inbound conn) of
      Inl e \<Rightarrow> \<exists>c'. startReader c = Ret c' \<and> reader_lost c c'
    | Inr (command, payload, rest) \<Rightarrow>
        \<exists>c' a. startReader c = Ret c' \<and> reader c' = Offering a \<and> took_frame c c' a command payload rest"
proof -
  have "good_pool wf_message (messagePool c)" using assms(1) by (simp add: client_ok_def)
  then obtain p a m where o: "Obtain (messagePool c) = Ret (p, a)" "Data a p = Inr m" "wf_message m"
    "pool_holds a (messagePool c) p" by (rule pool_holds_obtain)
  show ?thesis
  proof (cases "decode_frame (in_end conn) (inbound conn)")
    case (Inl e)
    then obtain m1 c1 where r: "Read m conn = Ret (m1, c1, Some e)" "wf_message m1"
      using Read_implements_decode_frame [OF o(3) assms(3)] by auto
    have "outbound c1 = outbound conn" using Read_conn [of conn m] r(1) by simp
    then show ?thesis
      using r pool_holds_dispose [OF pool_holds_store(1) [OF o(4) r(2)]] assms(2,4) Inl
      by (simp add: startReader_def o(1,2) Let_def reader_lost_def client_ok_def client_wire_def)
  next
    case (Inr x)
    obtain command payload rest where x: "x = (command, payload, rest)" by (cases x)
    then obtain m1 where r: "Read m conn = Ret (m1, conn\<lparr>inbound := rest\<rparr>, None)" "holds_frame m1 command payload"
      using Read_implements_decode_frame [OF o(3) assms(3)] Inr by auto
    then have wf: "wf_message m1" "payload_fits m1" "payload_bytes m1 = payload" by (simp_all add: holds_frame_def)
    note s = pool_holds_store [OF o(4) wf(1)]
    have "length (wire_bytes m1) = 12 + length payload"
      using length_wire_bytes [OF wf(1,2)] wf by (auto simp: payload_fits_nat)
    then show ?thesis
      using r s assms(2,4) Inr x Bytes_wire [OF wf(1,2)] ucast_WireSize [OF wf(1,2)]
      by (auto simp: startReader_def o(1,2) Let_def took_frame_def)
  qed
qed

lemma Messages_decodes:
  assumes "client_ok c" "client_connection c = Some conn" "\<not> conn_closed conn" "\<not> ctx_done c" "reader c = Reading"
  shows "case decode_frame (in_end conn) (inbound conn) of
      Inl e \<Rightarrow> \<exists>c'. Messages c = Ret (c', None) \<and> reader_lost c c'
    | Inr (command, payload, rest) \<Rightarrow>
        \<exists>c' a. Messages c = Ret (c', Some a) \<and> reader c' = Reading \<and> took_frame c c' a command payload rest"
  using startReader_decodes [OF assms(1-4)] assms(5)
  by (fastforce simp: Messages_def reader_lost_def took_frame_def split: sum.splits)

text \<open>On any connection, closed or not, a turn of the reader returns.\<close>

lemma startReader_returns:
  assumes "client_ok c"
  shows "returns (\<lambda>c'. (reader c' = Ended \<and> same_leases (messagePool c) (messagePool c') \<or>
      (\<exists>a m. reader c' = Offering a \<and> pool_holds a (messagePool c) (messagePool c') \<and>
         Data a (messagePool c') = Inr m \<and> clean_message m)) \<and>
     client_ok c' \<and> client_wire c' = client_wire c) (startReader c)"
proof -
  obtain conn where conn: "client_connection c = Some conn" using assms by (auto simp: client_ok_def)
  have "good_pool wf_message (messagePool c)" using assms by (simp add: client_ok_def)
  then obtain p a m where o: "Obtain (messagePool c) = Ret (p, a)" "Data a p = Inr m" "wf_message m"
    "pool_holds a (messagePool c) p" by (rule pool_holds_obtain)
  from Read_returns [OF o(3), of conn] Read_conn [of conn m]
  obtain m1 c1 e where r: "Read m conn = Ret (m1, c1, e)" "wf_message m1" "e = None \<longrightarrow> payload_fits m1"
    "outbound c1 = outbound conn"
    by (auto elim!: returnsE)
  note s = pool_holds_store [OF o(4) r(2)]
  have good: "good_pool wf_message (store_data a m1 p)" using s(1) by (simp add: pool_holds_def)
  show ?thesis
  proof (cases e)
    case None
    then have "Bytes m1 = Ret (wire_bytes m1)" using Bytes_wire r(2,3) by simp
    with None r s good conn assms show ?thesis
      by (auto simp: startReader_def o(1,2) Let_def client_ok_def client_wire_def clean_message_def)
  next
    case (Some x)
    with r s conn assms pool_holds_dispose [OF s(1)] show ?thesis
      by (auto simp: startReader_def o(1,2) Let_def client_ok_def client_wire_def)
  qed
qed

section \<open>The interface the relay sends through\<close>

locale transport_client =
  fixes ok :: "'c \<Rightarrow> bool"
    and send_adb :: "AdbMessage \<Rightarrow> 'c \<Rightarrow> ('c \<times> error option) outcome"
    and wire :: "'c \<Rightarrow> bytes"
  assumes send_adb: "ok c \<Longrightarrow> AdbBytes m = Ret bs \<Longrightarrow> length bs \<le> 0xF000 \<Longrightarrow>
      \<exists>c' e. send_adb m c = Ret (c', e) \<and> ok c' \<and>
        (\<exists>k. wire c' = wire c @ take k (encode_frame CommandAdbTransport bs)) \<and>
        (e = None \<longrightarrow> wire c' = wire c @ encode_frame CommandAdbTransport bs)"
begin

text \<open>A message that \<open>Set\<close> built is sent, and what it holds arrives or an error is reported.\<close>

lemma send_set:
  assumes "ok c" "adb_holds m command arg1 arg2 chk data" "length data \<le> 0x8000"
  obtains c' e where "send_adb m c = Ret (c', e)" "ok c'"
    "e = None \<Longrightarrow> wire c' = wire c @ encode_frame CommandAdbTransport (adb_wire command arg1 arg2 chk data)"
  using send_adb [OF assms(1) adb_holds_fields(9) [OF assms(2)]] assms(3) by auto

end

lemma SendAdbMessage_fill:
  "AdbBytes message = Ret bs \<Longrightarrow> SendAdbMessage message = withMessage (\<lambda>m. then_write (fill_adb bs m))"
  by (simp add: SendAdbMessage_def fill_adb_def)

lemma SendAdbMessage_up:
  assumes "client_ok c" "client_writable c" "AdbBytes m = Ret bs" "length bs \<le> 0xF000"
  shows "\<exists>c'. SendAdbMessage m c = Ret (c', None) \<and> client_ok c' \<and> client_writable c' \<and> reader c' = reader c \<and>
     client_wire c' = client_wire c @ encode_frame CommandAdbTransport bs"
proof -
  obtain conn where conn: "client_connection c = Some conn" "writable conn"
    using assms(2) by (auto simp: client_writable_def)
  obtain p where "SendAdbMessage m c = Ret ((sent_frame (encode_frame CommandAdbTransport bs) c)\<lparr>messagePool := p\<rparr>, None)"
    "good_pool wf_message p"
    using adb_sender.client_send [of c bs] assms by (auto simp: SendAdbMessage_fill client_ok_def)
  with conn show ?thesis by (simp add: client_ok_def client_writable_def client_wire_def)
qed

interpretation client: transport_client client_ok SendAdbMessage client_wire
proof
  fix c m bs
  assume "client_ok c" "AdbBytes m = Ret bs" "length bs \<le> 0xF000"
  with adb_sender.client_send_any [of c bs]
  show "\<exists>c' e. SendAdbMessage m c = Ret (c', e) \<and> client_ok c' \<and>
      (\<exists>k. client_wire c' = client_wire c @ take k (encode_frame CommandAdbTransport bs)) \<and>
      (e = None \<longrightarrow> client_wire c' = client_wire c @ encode_frame CommandAdbTransport bs)"
    by (auto simp: SendAdbMessage_fill elim!: returnsE)
qed

end
