(* ===== verification/Owner_Multiplexer.thy ===== *)
theory Owner_Multiplexer
  imports Client_Reader
begin

text \<open>
  \<open>client/relay/owner.go\<close>: the owner's multiplexer.  Every OPEN of the guest becomes a connection
  to the local adb server; the dispatcher serves the guest's messages, and one pump goroutine
  per stream relays the device's output.  A \<open>*ownerStream\<close> is an index into \<open>stream_heap\<close>.
  The transporter client and the adb server are interfaces in the code: the operations take
  \<open>SendAdb\<close> (\<open>client.SendAdbMessage\<close>) and \<open>OpenStream\<close> (\<open>smartSocket.OpenStream\<close>) as arguments.
  A handler, and a pump between two points where it may wait, is one step.  Logging is left out.
\<close>

section \<open>State\<close>

text \<open>
  The pump waits for the device (\<open>PumpReading\<close>), or holds what it read, with the error that came
  with it, and waits for the permit.  \<open>sendPermit\<close> is the token in the channel of capacity one.
  \<open>closeOnce\<close> has run exactly when \<open>done\<close> is closed, which is its first action: \<open>stream_done\<close>
  stands for both.
\<close>

datatype pump_phase = PumpNotStarted | PumpReading | PumpHolding bytes "error option" | PumpStopped

record ownerStream =
  guestId :: u32
  ownId :: u32
  stream_conn :: net_conn
  sendPermit :: bool
  stream_done :: bool
  pump :: pump_phase

record 'c OwnerMultiplexer =
  deviceId :: string
  tclient :: 'c
  nextId :: u32
  streams :: "u32 \<Rightarrow> nat option"
  stream_heap :: "ownerStream list"
  adbMessagePool :: "AdbMessage ObjectPool"

definition NewOwnerMultiplexer :: "string \<Rightarrow> 'c \<Rightarrow> 'c OwnerMultiplexer" where
  "NewOwnerMultiplexer device c =
     \<lparr>deviceId = device, tclient = c, nextId = 0, streams = Map.empty, stream_heap = [],
      adbMessagePool = NewObjectPool CreateMessage\<rparr>"

definition upd_stream :: "nat \<Rightarrow> (ownerStream \<Rightarrow> ownerStream) \<Rightarrow> 'c OwnerMultiplexer \<Rightarrow> 'c OwnerMultiplexer" where
  "upd_stream s f mux = mux\<lparr>stream_heap := (stream_heap mux)[s := f (stream_heap mux ! s)]\<rparr>"

type_synonym 'c send_adb = "AdbMessage \<Rightarrow> 'c \<Rightarrow> ('c \<times> error option) outcome"
type_synonym open_stream = "string \<Rightarrow> string \<Rightarrow> error + net_conn"

section \<open>Sending to the guest\<close>

definition mux_send ::
  "'c send_adb \<Rightarrow> (AdbMessage \<Rightarrow> AdbMessage \<times> error option) \<Rightarrow> 'c OwnerMultiplexer \<Rightarrow>
   ('c OwnerMultiplexer \<times> error option) outcome" where
  "mux_send SendAdb fill mux =
     andThen (withPooled (adbMessagePool mux) (\<lambda>e. (tclient mux, Some e))
               (\<lambda>m. case fill m of (m1, err) \<Rightarrow>
                  (case err of Some e \<Rightarrow> Ret (m1, tclient mux, Some e)
                   | None \<Rightarrow> andThen (SendAdb m1 (tclient mux)) (\<lambda>(c, err). Ret (m1, c, err)))))
       (\<lambda>(pool, c, err). Ret (mux\<lparr>adbMessagePool := pool, tclient := c\<rparr>, err))"

definition sendOkay :: "'c send_adb \<Rightarrow> u32 \<Rightarrow> u32 \<Rightarrow> 'c OwnerMultiplexer \<Rightarrow> ('c OwnerMultiplexer \<times> error option) outcome" where
  "sendOkay SendAdb own guest = mux_send SendAdb (AdbSet AdbCommandOkay own guest [])"

definition sendWrite :: "'c send_adb \<Rightarrow> u32 \<Rightarrow> u32 \<Rightarrow> bytes \<Rightarrow> 'c OwnerMultiplexer \<Rightarrow> ('c OwnerMultiplexer \<times> error option) outcome" where
  "sendWrite SendAdb own guest data = mux_send SendAdb (AdbSet AdbCommandWrite own guest data)"

definition sendClose :: "'c send_adb \<Rightarrow> u32 \<Rightarrow> u32 \<Rightarrow> 'c OwnerMultiplexer \<Rightarrow> ('c OwnerMultiplexer \<times> error option) outcome" where
  "sendClose SendAdb own guest = mux_send SendAdb (AdbSet AdbCommandClose own guest [])"

section \<open>Closing\<close>

definition lookup_stream :: "u32 \<Rightarrow> 'c OwnerMultiplexer \<Rightarrow> nat option" where
  "lookup_stream own mux = streams mux own"

text \<open>Closing a stream without a word to the guest: what \<open>closeOnce\<close> guards, up to the notification.\<close>

definition shut_stream :: "nat \<Rightarrow> 'c OwnerMultiplexer \<Rightarrow> 'c OwnerMultiplexer" where
  "shut_stream s mux =
     (let mux1 = upd_stream s (\<lambda>st. st\<lparr>stream_done := True, stream_conn := fst (conn_Close (stream_conn st))\<rparr>) mux in
      mux1\<lparr>streams := (streams mux1)(ownId (stream_heap mux ! s) := None)\<rparr>)"

definition closeStream :: "'c send_adb \<Rightarrow> nat \<Rightarrow> bool \<Rightarrow> 'c OwnerMultiplexer \<Rightarrow> 'c OwnerMultiplexer outcome" where
  "closeStream SendAdb s notifyGuest mux =
     (let st = stream_heap mux ! s in
      if stream_done st then Ret mux
      else if notifyGuest
        then andThen (sendClose SendAdb (ownId st) (guestId st) (shut_stream s mux)) (\<lambda>(mux1, err). Ret mux1)
      else Ret (shut_stream s mux))"

text \<open>
  \<open>closeAllStreams\<close> walks a snapshot of the map; Go's map order is arbitrary, here it is the order
  of creation.  Without a notification the order does not show.
\<close>

definition open_streams :: "'c OwnerMultiplexer \<Rightarrow> nat list" where
  "open_streams mux =
     filter (\<lambda>s. streams mux (ownId (stream_heap mux ! s)) = Some s) [0..<length (stream_heap mux)]"

fun close_streams :: "'c send_adb \<Rightarrow> nat list \<Rightarrow> 'c OwnerMultiplexer \<Rightarrow> 'c OwnerMultiplexer outcome" where
  "close_streams SendAdb [] mux = Ret mux"
| "close_streams SendAdb (s # ss) mux = andThen (closeStream SendAdb s False mux) (close_streams SendAdb ss)"

definition closeAllStreams :: "'c send_adb \<Rightarrow> 'c OwnerMultiplexer \<Rightarrow> 'c OwnerMultiplexer outcome" where
  "closeAllStreams SendAdb mux = close_streams SendAdb (open_streams mux) mux"

section \<open>The guest's messages\<close>

definition trim_nul :: "string \<Rightarrow> string" where
  "trim_nul s = rev (dropWhile (\<lambda>c. c = CHR 0x00) (rev s))"

definition handleOpen :: "'c send_adb \<Rightarrow> open_stream \<Rightarrow> u32 \<Rightarrow> string \<Rightarrow> 'c OwnerMultiplexer \<Rightarrow> 'c OwnerMultiplexer outcome" where
  "handleOpen SendAdb OpenStream guest rawService mux =
     (let service = trim_nul rawService in
      (case OpenStream (deviceId mux) service of
         Inl e \<Rightarrow> andThen (sendClose SendAdb 0 guest mux) (\<lambda>(mux1, sendErr). Ret mux1)
       | Inr conn \<Rightarrow>
         let own = nextId mux + 1; s = length (stream_heap mux);
             stream = \<lparr>guestId = guest, ownId = own, stream_conn = conn, sendPermit = True,
                       stream_done = False, pump = PumpNotStarted\<rparr>;
             mux1 = mux\<lparr>nextId := own, stream_heap := stream_heap mux @ [stream],
                        streams := (streams mux)(own \<mapsto> s)\<rparr> in
         andThen (sendOkay SendAdb own guest mux1) (\<lambda>(mux2, err).
           case err of Some e \<Rightarrow> closeStream SendAdb s False mux2
           | None \<Rightarrow> Ret (upd_stream s (\<lambda>st. st\<lparr>pump := PumpReading\<rparr>) mux2))))"

definition handleWrite :: "'c send_adb \<Rightarrow> u32 \<Rightarrow> u32 \<Rightarrow> bytes \<Rightarrow> 'c OwnerMultiplexer \<Rightarrow> 'c OwnerMultiplexer outcome" where
  "handleWrite SendAdb guest own data mux =
     (case lookup_stream own mux of None \<Rightarrow> Ret mux | Some s \<Rightarrow>
      (case conn_Write (stream_conn (stream_heap mux ! s)) data of (c1, n, err) \<Rightarrow>
       let mux1 = upd_stream s (\<lambda>st. st\<lparr>stream_conn := c1\<rparr>) mux in
       (case err of Some e \<Rightarrow> closeStream SendAdb s True mux1
        | None \<Rightarrow> andThen (sendOkay SendAdb own guest mux1) (\<lambda>(mux2, err).
            case err of Some e \<Rightarrow> closeStream SendAdb s False mux2 | None \<Rightarrow> Ret mux2))))"

definition handleOkay :: "u32 \<Rightarrow> 'c OwnerMultiplexer \<Rightarrow> 'c OwnerMultiplexer" where
  "handleOkay own mux =
     (case lookup_stream own mux of None \<Rightarrow> mux
      | Some s \<Rightarrow> upd_stream s (\<lambda>st. st\<lparr>sendPermit := True\<rparr>) mux)"

definition handleClose :: "'c send_adb \<Rightarrow> u32 \<Rightarrow> 'c OwnerMultiplexer \<Rightarrow> 'c OwnerMultiplexer outcome" where
  "handleClose SendAdb own mux =
     (case lookup_stream own mux of None \<Rightarrow> Ret mux | Some s \<Rightarrow> closeStream SendAdb s False mux)"

text \<open>
  \<open>Dispatch\<close>, given what \<open>container.Data()\<close> returned.  The deferred \<open>Dispose\<close> concerns the
  client's pool and is added in \<open>Owner_Controller\<close>.
\<close>

definition dispatch_adb :: "'c send_adb \<Rightarrow> open_stream \<Rightarrow> AdbMessage \<Rightarrow> 'c OwnerMultiplexer \<Rightarrow> 'c OwnerMultiplexer outcome" where
  "dispatch_adb SendAdb OpenStream m mux =
     (if AdbCommand m = AdbCommandOpen
        then andThen (DataString m) (\<lambda>service. handleOpen SendAdb OpenStream (AdbArg1 m) service mux)
      else if AdbCommand m = AdbCommandWrite
        then andThen (AdbData m) (\<lambda>data. handleWrite SendAdb (AdbArg1 m) (AdbArg2 m) data mux)
      else if AdbCommand m = AdbCommandOkay then Ret (handleOkay (AdbArg2 m) mux)
      else if AdbCommand m = AdbCommandClose then handleClose SendAdb (AdbArg2 m) mux
      else Ret mux)"

definition dispatch_data ::
  "'c send_adb \<Rightarrow> open_stream \<Rightarrow> error + TransporterMessage \<Rightarrow> 'c OwnerMultiplexer \<Rightarrow> 'c OwnerMultiplexer outcome" where
  "dispatch_data SendAdb OpenStream res mux =
     (case res of Inl e \<Rightarrow> Ret mux
      | Inr message \<Rightarrow> andThen (Payload message) (\<lambda>payload.
          andThen (DecodeMessage payload) (\<lambda>decoded.
            case decoded of Inl e \<Rightarrow> Ret mux | Inr m \<Rightarrow> dispatch_adb SendAdb OpenStream m mux)))"

section \<open>The pump of a stream\<close>

definition set_pump :: "nat \<Rightarrow> pump_phase \<Rightarrow> 'c OwnerMultiplexer \<Rightarrow> 'c OwnerMultiplexer" where
  "set_pump s ph = upd_stream s (\<lambda>st. st\<lparr>pump := ph\<rparr>)"

text \<open>The end of the loop body: stop on a read error, else read again.\<close>

definition pump_after :: "'c send_adb \<Rightarrow> nat \<Rightarrow> error option \<Rightarrow> 'c OwnerMultiplexer \<Rightarrow> 'c OwnerMultiplexer outcome" where
  "pump_after SendAdb s readErr mux =
     (case readErr of None \<Rightarrow> Ret (set_pump s PumpReading mux)
      | Some e \<Rightarrow> andThen (closeStream SendAdb s True mux) (\<lambda>mux1. Ret (set_pump s PumpStopped mux1)))"

definition pump_read :: "'c send_adb \<Rightarrow> nat \<Rightarrow> nat \<Rightarrow> bool \<Rightarrow> 'c OwnerMultiplexer \<Rightarrow> 'c OwnerMultiplexer outcome" where
  "pump_read SendAdb s seg eager mux =
     (case conn_Read (unat MaxPayloadLength) seg eager (stream_conn (stream_heap mux ! s)) of (c1, bs, readErr) \<Rightarrow>
      let mux1 = upd_stream s (\<lambda>st. st\<lparr>stream_conn := c1\<rparr>) mux in
      if bs \<noteq> [] then Ret (set_pump s (PumpHolding bs readErr) mux1)
      else pump_after SendAdb s readErr mux1)"

definition pump_send :: "'c send_adb \<Rightarrow> nat \<Rightarrow> bytes \<Rightarrow> error option \<Rightarrow> 'c OwnerMultiplexer \<Rightarrow> 'c OwnerMultiplexer outcome" where
  "pump_send SendAdb s bs readErr mux =
     (let st = stream_heap mux ! s; mux1 = upd_stream s (\<lambda>st. st\<lparr>sendPermit := False\<rparr>) mux in
      andThen (sendWrite SendAdb (ownId st) (guestId st) bs mux1) (\<lambda>(mux2, err).
        case err of
          Some e \<Rightarrow> andThen (closeStream SendAdb s False mux2) (\<lambda>mux3. Ret (set_pump s PumpStopped mux3))
        | None \<Rightarrow> pump_after SendAdb s readErr mux2))"

section \<open>Steps and runs\<close>

text \<open>
  Any interleaving of the dispatcher, the pumps and \<open>Close\<close>.  \<open>env\<close> is what the client does
  meanwhile: its reader, and the answers to join requests, use the same connection.
\<close>

datatype mux_event =
    GuestOpened u32 string
  | GuestWrote u32 bytes
  | GuestOkayed u32
  | GuestClosed u32
  | DeviceRead nat
  | SentWrite nat bytes
  | PumpGaveUp nat
  | ClosedAll
  | ClientMoved

inductive mux_step :: "'c send_adb \<Rightarrow> ('c \<Rightarrow> 'c \<Rightarrow> bool) \<Rightarrow> 'c OwnerMultiplexer \<Rightarrow> mux_event \<Rightarrow> 'c OwnerMultiplexer \<Rightarrow> bool"
  for SendAdb :: "'c send_adb" and env :: "'c \<Rightarrow> 'c \<Rightarrow> bool" where
  guest_open: "handleOpen SendAdb OpenStream guest raw mux = Ret mux' \<Longrightarrow>
     mux_step SendAdb env mux (GuestOpened guest raw) mux'"
| guest_write: "handleWrite SendAdb guest own data mux = Ret mux' \<Longrightarrow>
     mux_step SendAdb env mux (GuestWrote own data) mux'"
| guest_okay: "mux_step SendAdb env mux (GuestOkayed own) (handleOkay own mux)"
| guest_close: "handleClose SendAdb own mux = Ret mux' \<Longrightarrow>
     mux_step SendAdb env mux (GuestClosed own) mux'"
| device_read: "s < length (stream_heap mux) \<Longrightarrow> pump (stream_heap mux ! s) = PumpReading \<Longrightarrow>
     pump_read SendAdb s seg eager mux = Ret mux' \<Longrightarrow> mux_step SendAdb env mux (DeviceRead s) mux'"
| device_send: "s < length (stream_heap mux) \<Longrightarrow> pump (stream_heap mux ! s) = PumpHolding bs readErr \<Longrightarrow>
     sendPermit (stream_heap mux ! s) \<Longrightarrow>
     pump_send SendAdb s bs readErr mux = Ret mux' \<Longrightarrow> mux_step SendAdb env mux (SentWrite s bs) mux'"
| device_done: "s < length (stream_heap mux) \<Longrightarrow> pump (stream_heap mux ! s) = PumpHolding bs readErr \<Longrightarrow>
     stream_done (stream_heap mux ! s) \<Longrightarrow>
     mux_step SendAdb env mux (PumpGaveUp s) (set_pump s PumpStopped mux)"
| close_all: "closeAllStreams SendAdb mux = Ret mux' \<Longrightarrow> mux_step SendAdb env mux ClosedAll mux'"
| client_moves: "env (tclient mux) c' \<Longrightarrow> mux_step SendAdb env mux ClientMoved (mux\<lparr>tclient := c'\<rparr>)"

inductive mux_run :: "'c send_adb \<Rightarrow> ('c \<Rightarrow> 'c \<Rightarrow> bool) \<Rightarrow> 'c OwnerMultiplexer \<Rightarrow> mux_event list \<Rightarrow> 'c OwnerMultiplexer \<Rightarrow> bool"
  for SendAdb :: "'c send_adb" and env :: "'c \<Rightarrow> 'c \<Rightarrow> bool" where
  run_nil: "mux_run SendAdb env mux [] mux"
| run_snoc: "mux_run SendAdb env mux es mux1 \<Longrightarrow> mux_step SendAdb env mux1 e mux2 \<Longrightarrow>
     mux_run SendAdb env mux (es @ [e]) mux2"

inductive_cases mux_stepE: "mux_step SendAdb env mux e mux'"

end
