(* ===== verification/Owner_Invariant.thy ===== *)
theory Owner_Invariant
  imports Owner_Multiplexer
begin

text \<open>
  The multiplexer over any client that keeps the contract \<open>transport_client\<close>: no operation
  panics or blocks, the table of streams stays consistent, and what each step does to one stream.
\<close>

section \<open>Consistency\<close>

definition can_send :: "('c \<Rightarrow> bool) \<Rightarrow> 'c OwnerMultiplexer \<Rightarrow> bool" where
  "can_send ok mux \<longleftrightarrow> ok (tclient mux) \<and> good_pool adb_wf (adbMessagePool mux)"

definition same_table :: "'c OwnerMultiplexer \<Rightarrow> 'c OwnerMultiplexer \<Rightarrow> bool" where
  "same_table mux mux' \<longleftrightarrow> deviceId mux = deviceId mux' \<and> nextId mux = nextId mux' \<and>
     streams mux = streams mux' \<and> stream_heap mux = stream_heap mux'"

text \<open>
  Ids are handed out in order; a registered id leads to a live stream with that id; a stream that
  is done has its connection closed; and, until the 32-bit counter wraps, every live stream is
  registered.
\<close>

definition fresh_ids :: "'c OwnerMultiplexer \<Rightarrow> bool" where
  "fresh_ids mux \<longleftrightarrow> nextId mux = word_of_nat (length (stream_heap mux)) \<and>
     (\<forall>s < length (stream_heap mux). ownId (stream_heap mux ! s) = word_of_nat (Suc s))"

definition pump_fits :: "ownerStream \<Rightarrow> bool" where
  "pump_fits st \<longleftrightarrow> (\<forall>bs err. pump st = PumpHolding bs err \<longrightarrow> length bs \<le> 0x8000)"

definition table_ok :: "'c OwnerMultiplexer \<Rightarrow> bool" where
  "table_ok mux \<longleftrightarrow> fresh_ids mux \<and>
     (\<forall>s < length (stream_heap mux). pump_fits (stream_heap mux ! s) \<and> (stream_done (stream_heap mux ! s) \<longrightarrow> conn_closed (stream_conn (stream_heap mux ! s)))) \<and>
     (\<forall>own s. streams mux own = Some s \<longrightarrow> s < length (stream_heap mux) \<and>
        ownId (stream_heap mux ! s) = own \<and> \<not> stream_done (stream_heap mux ! s)) \<and>
     (length (stream_heap mux) < 2 ^ 32 \<longrightarrow> (\<forall>s < length (stream_heap mux).
        \<not> stream_done (stream_heap mux ! s) \<longrightarrow> streams mux (ownId (stream_heap mux ! s)) = Some s))"

definition mux_ok :: "('c \<Rightarrow> bool) \<Rightarrow> 'c OwnerMultiplexer \<Rightarrow> bool" where
  "mux_ok ok mux \<longleftrightarrow> can_send ok mux \<and> table_ok mux"

lemma same_table_refl [simp]: "same_table mux mux"
  by (simp add: same_table_def)

lemma same_table_trans: "same_table a b \<Longrightarrow> same_table b c \<Longrightarrow> same_table a c"
  by (simp add: same_table_def)

lemma same_table_ok: "same_table mux mux' \<Longrightarrow> table_ok mux' \<Longrightarrow> table_ok mux"
proof -
  assume "same_table mux mux'" "table_ok mux'"
  moreover from this(1) have "fresh_ids mux = fresh_ids mux'" by (simp add: same_table_def fresh_ids_def)
  ultimately show "table_ok mux" by (simp add: same_table_def table_ok_def)
qed

lemma same_table_upd_stream: "same_table mux mux' \<Longrightarrow> same_table (upd_stream s f mux) (upd_stream s f mux')"
  by (simp add: same_table_def upd_stream_def)

lemma same_table_shut_stream: "same_table mux mux' \<Longrightarrow> same_table (shut_stream s mux) (shut_stream s mux')"
  by (simp add: same_table_def upd_stream_def shut_stream_def)

lemma upd_stream_simps [simp]:
  "deviceId (upd_stream s f mux) = deviceId mux" "tclient (upd_stream s f mux) = tclient mux"
  "nextId (upd_stream s f mux) = nextId mux" "streams (upd_stream s f mux) = streams mux"
  "adbMessagePool (upd_stream s f mux) = adbMessagePool mux"
  "length (stream_heap (upd_stream s f mux)) = length (stream_heap mux)"
  "can_send ok (upd_stream s f mux) = can_send ok mux"
  by (simp_all add: upd_stream_def can_send_def)

lemma stream_heap_upd_stream:
  "s < length (stream_heap mux) \<Longrightarrow>
   stream_heap (upd_stream s f mux) ! t = (if t = s then f (stream_heap mux ! s) else stream_heap mux ! t)"
  by (simp add: upd_stream_def)

lemma upd_stream_twice:
  "s < length (stream_heap mux) \<Longrightarrow> upd_stream s f (upd_stream s g mux) = upd_stream s (\<lambda>st. f (g st)) mux"
  by (simp add: upd_stream_def)

definition shut :: "ownerStream \<Rightarrow> ownerStream" where
  "shut st = st\<lparr>stream_done := True, stream_conn := fst (conn_Close (stream_conn st))\<rparr>"

lemma shut_stream_simps [simp]:
  "deviceId (shut_stream s mux) = deviceId mux" "tclient (shut_stream s mux) = tclient mux"
  "nextId (shut_stream s mux) = nextId mux"
  "streams (shut_stream s mux) = (streams mux)(ownId (stream_heap mux ! s) := None)"
  "adbMessagePool (shut_stream s mux) = adbMessagePool mux"
  "stream_heap (shut_stream s mux) = (stream_heap mux)[s := shut (stream_heap mux ! s)]"
  "can_send ok (shut_stream s mux) = can_send ok mux"
  by (simp_all add: shut_stream_def upd_stream_def can_send_def shut_def)

definition closed_off :: "nat \<Rightarrow> 'c OwnerMultiplexer \<Rightarrow> 'c OwnerMultiplexer" where
  "closed_off s mux = (if stream_done (stream_heap mux ! s) then mux else shut_stream s mux)"

lemma same_table_closed_off: "same_table mux mux' \<Longrightarrow> same_table (closed_off s mux) (closed_off s mux')"
  using same_table_shut_stream [of mux mux' s] by (simp add: closed_off_def same_table_def)

lemma closed_off_simps [simp]:
  "length (stream_heap (closed_off s mux)) = length (stream_heap mux)"
  "can_send ok (closed_off s mux) = can_send ok mux"
  "tclient (closed_off s mux) = tclient mux"
  by (simp_all add: closed_off_def)

section \<open>The table stays consistent\<close>

lemma own_ids_distinct:
  assumes "table_ok mux" "length (stream_heap mux) < 2 ^ 32" "s < length (stream_heap mux)" "t < length (stream_heap mux)"
    and "ownId (stream_heap mux ! s) = ownId (stream_heap mux ! t)"
  shows "s = t"
proof -
  have "unat (word_of_nat (Suc s) :: u32) = unat (word_of_nat (Suc t) :: u32)"
    using assms by (simp add: table_ok_def fresh_ids_def del: of_nat_Suc)
  moreover have "Suc s < 4294967296" "Suc t < 4294967296" using assms(2-4) by simp_all
  ultimately show ?thesis by (simp only: unat_u32_of_nat)
qed

text \<open>Updates that leave a stream's id and its done flag alone, or only close its connection.\<close>

lemma table_ok_upd_stream:
  assumes "table_ok mux" "s < length (stream_heap mux)"
    and "ownId (f (stream_heap mux ! s)) = ownId (stream_heap mux ! s)"
    and "stream_done (f (stream_heap mux ! s)) = stream_done (stream_heap mux ! s)"
    and "conn_closed (stream_conn (stream_heap mux ! s)) \<Longrightarrow> conn_closed (stream_conn (f (stream_heap mux ! s)))"
    and "pump_fits (stream_heap mux ! s) \<Longrightarrow> pump_fits (f (stream_heap mux ! s))"
  shows "table_ok (upd_stream s f mux)"
proof -
  have "fresh_ids (upd_stream s f mux) = fresh_ids mux"
    using assms(2,3) by (auto simp: fresh_ids_def stream_heap_upd_stream)
  then show ?thesis using assms by (auto simp: table_ok_def stream_heap_upd_stream)
qed

lemma conn_closed_Close [simp]: "conn_closed (fst (conn_Close c))"
  by (simp add: conn_Close_def)

lemma shut_simps [simp]:
  "ownId (shut st) = ownId st" "guestId (shut st) = guestId st" "stream_done (shut st)"
  "pump (shut st) = pump st" "sendPermit (shut st) = sendPermit st" "conn_closed (stream_conn (shut st))"
  "inbound (stream_conn (shut st)) = inbound (stream_conn st)"
  "outbound (stream_conn (shut st)) = outbound (stream_conn st)"
  by (simp_all add: shut_def) (simp_all add: conn_Close_def)

lemma pump_fits_shut [simp]: "pump_fits (shut st) = pump_fits st"
  by (simp add: pump_fits_def shut_def)

lemma pump_fits_simps [simp]:
  "pump_fits (st\<lparr>stream_conn := c\<rparr>) = pump_fits st" "pump_fits (st\<lparr>sendPermit := b\<rparr>) = pump_fits st"
  by (simp_all add: pump_fits_def)

lemma table_ok_closed_off:
  assumes "table_ok mux" "s < length (stream_heap mux)"
  shows "table_ok (closed_off s mux)"
proof (cases "stream_done (stream_heap mux ! s)")
  case False
  have "\<forall>own t. streams mux own = Some t \<longrightarrow> own \<noteq> ownId (stream_heap mux ! s) \<longrightarrow> t \<noteq> s"
    using assms(1) by (auto simp: table_ok_def)
  moreover have "length (stream_heap mux) < 2 ^ 32 \<Longrightarrow> t < length (stream_heap mux) \<Longrightarrow> t \<noteq> s \<Longrightarrow>
      ownId (stream_heap mux ! t) \<noteq> ownId (stream_heap mux ! s)" for t
    using own_ids_distinct [OF assms(1)] assms(2) by blast
  moreover have "fresh_ids (shut_stream s mux) = fresh_ids mux"
    using assms(2) by (auto simp: fresh_ids_def nth_list_update shut_def)
  ultimately show ?thesis
    using False assms by (auto simp: closed_off_def table_ok_def nth_list_update)
qed (use assms in \<open>simp add: closed_off_def\<close>)

lemma table_ok_open:
  assumes "table_ok mux" "own = nextId mux + 1" "ownId st = own" "\<not> stream_done st" "pump_fits st"
  shows "table_ok (mux\<lparr>nextId := own, stream_heap := stream_heap mux @ [st],
           streams := (streams mux)(own \<mapsto> length (stream_heap mux))\<rparr>)"
proof -
  let ?n = "length (stream_heap mux)"
  let ?mux = "mux\<lparr>nextId := own, stream_heap := stream_heap mux @ [st], streams := (streams mux)(own \<mapsto> ?n)\<rparr>"
  have ids: "fresh_ids mux" using assms(1) by (simp add: table_ok_def)
  then have own: "own = word_of_nat (Suc ?n)" using assms(2) by (simp add: fresh_ids_def add.commute)
  have new: "ownId (stream_heap mux ! s) \<noteq> own" if "Suc ?n < 2 ^ 32" "s < ?n" for s
  proof
    assume "ownId (stream_heap mux ! s) = own"
    then have "unat (word_of_nat (Suc s) :: u32) = unat (word_of_nat (Suc ?n) :: u32)"
      using ids that(2) own by (simp add: fresh_ids_def del: of_nat_Suc)
    moreover have "Suc s < 4294967296" "Suc ?n < 4294967296" using that by simp_all
    ultimately show False using that(2) by (simp only: unat_u32_of_nat)
  qed
  have "fresh_ids ?mux"
    using ids own assms(3) by (simp add: fresh_ids_def nth_append less_Suc_eq del: of_nat_Suc)
  moreover have "\<forall>k s. streams mux k = Some s \<longrightarrow> s < ?n" using assms(1) by (auto simp: table_ok_def)
  ultimately show ?thesis
    using assms(1,3-) new by (auto simp: table_ok_def nth_append less_Suc_eq)
qed

lemma table_ok_New: "table_ok (NewOwnerMultiplexer device c)"
  by (simp add: table_ok_def fresh_ids_def NewOwnerMultiplexer_def)

section \<open>Every operation, over a client that keeps the contract\<close>

text \<open>The bytes by which an ADB message reaches the transporter.\<close>

definition adb_frame :: "u32 \<Rightarrow> u32 \<Rightarrow> u32 \<Rightarrow> bytes \<Rightarrow> bytes" where
  "adb_frame command arg1 arg2 data =
     encode_frame CommandAdbTransport (adb_wire command arg1 arg2 (checksum data) data)"

text \<open>A new stream, with the result of acknowledging it.\<close>

definition opened :: "u32 \<Rightarrow> net_conn \<Rightarrow> 'c OwnerMultiplexer \<Rightarrow> 'c OwnerMultiplexer" where
  "opened guest conn mux = mux\<lparr>nextId := nextId mux + 1,
     stream_heap := stream_heap mux @ [\<lparr>guestId = guest, ownId = nextId mux + 1, stream_conn = conn,
       sendPermit = True, stream_done = False, pump = PumpNotStarted\<rparr>],
     streams := (streams mux)(nextId mux + 1 \<mapsto> length (stream_heap mux))\<rparr>"

text \<open>Whatever the client's sender guarantees for the message, sending from the pool guarantees.\<close>

lemma mux_send_returns:
  assumes "good_pool adb_wf (adbMessagePool mux)" "length data \<le> 0x8000"
    and "\<And>m. adb_holds m command arg1 arg2 (checksum data) data \<Longrightarrow> returns Q (send (m :: AdbMessage) (tclient mux))"
  shows "returns (\<lambda>(mux', e). Q (tclient mux', e) \<and> good_pool adb_wf (adbMessagePool mux') \<and> same_table mux' mux)
     (mux_send send (AdbSet command arg1 arg2 data) mux)"
proof -
  have body: "returns (\<lambda>(m', r). adb_wf m' \<and> Q r) (case AdbSet command arg1 arg2 data m of (m1, err) \<Rightarrow>
      (case err of Some e \<Rightarrow> Ret (m1, tclient mux, Some e)
       | None \<Rightarrow> andThen (send m1 (tclient mux)) (\<lambda>(c, err). Ret (m1, c, err))))"
    if m: "adb_wf m" for m
  proof -
    obtain m1 where m1: "AdbSet command arg1 arg2 data m = (m1, None)" "adb_wf m1"
      "adb_holds m1 command arg1 arg2 (checksum data) data"
      using AdbSet_holds [OF m assms(2)] by blast
    from assms(3) [OF m1(3)] show ?thesis by (auto simp: m1(1,2) outcome_simps elim!: returns_mono)
  qed
  have "returns (\<lambda>(p', r). good_pool adb_wf p' \<and> same_leases (adbMessagePool mux) p' \<and> Q r)
      (withPooled (adbMessagePool mux) (\<lambda>e. (tclient mux, Some e))
        (\<lambda>m. case AdbSet command arg1 arg2 data m of (m1, err) \<Rightarrow>
          (case err of Some e \<Rightarrow> Ret (m1, tclient mux, Some e)
           | None \<Rightarrow> andThen (send m1 (tclient mux)) (\<lambda>(c, err). Ret (m1, c, err)))))"
    by (rule withPooled_returns [OF assms(1) body])
  then show ?thesis
    unfolding mux_send_def returns_andThen
    by (rule returns_mono) (auto simp: same_table_def)
qed

context transport_client
begin

lemma mux_send:
  assumes "can_send ok mux" "length data \<le> 0x8000"
  shows "returns (\<lambda>(mux', e). can_send ok mux' \<and> same_table mux' mux \<and>
     (e = None \<longrightarrow> wire (tclient mux') = wire (tclient mux) @ adb_frame command arg1 arg2 data))
     (mux_send send_adb (AdbSet command arg1 arg2 data) mux)"
proof -
  let ?Q = "\<lambda>(c, e). ok c \<and> (e = None \<longrightarrow> wire c = wire (tclient mux) @ adb_frame command arg1 arg2 data)"
  have ok: "ok (tclient mux)" and pool: "good_pool adb_wf (adbMessagePool mux)"
    using assms(1) by (simp_all add: can_send_def)
  have "returns ?Q (send_adb m (tclient mux))" if "adb_holds m command arg1 arg2 (checksum data) data" for m
    by (rule send_set [OF ok that assms(2)]) (simp add: adb_frame_def)
  from mux_send_returns [OF pool assms(2), of command arg1 arg2 ?Q send_adb, OF this] show ?thesis
    by (rule returns_mono) (auto simp: can_send_def)
qed

lemmas mux_sends =
  mux_send [where command = AdbCommandOkay and data = "[]", folded sendOkay_def, simplified]
  mux_send [where command = AdbCommandClose and data = "[]", folded sendClose_def, simplified]
  mux_send [where command = AdbCommandWrite, folded sendWrite_def]

text \<open>Closing a stream closes it exactly once; a notification is one CLSE.\<close>

lemma closeStream:
  assumes "can_send ok mux"
  shows "returns (\<lambda>mux'. can_send ok mux' \<and> same_table mux' (closed_off s mux) \<and>
     (\<not> notify \<longrightarrow> mux' = closed_off s mux)) (closeStream send_adb s notify mux)"
  using mux_sends(2) [of "shut_stream s mux" "ownId (stream_heap mux ! s)" "guestId (stream_heap mux ! s)"] assms
  by (cases notify) (auto simp: closeStream_def closed_off_def Let_def outcome_simps elim!: returns_mono)

lemma close_streams:
  "can_send ok mux \<Longrightarrow> close_streams send_adb ss mux = Ret (fold closed_off ss mux)"
proof (induction ss arbitrary: mux)
  case (Cons s ss)
  have "closeStream send_adb s False mux = Ret (closed_off s mux)"
    by (simp add: closeStream_def closed_off_def Let_def)
  with Cons show ?case by simp
qed simp

lemma handleOpen:
  assumes "can_send ok mux"
  shows "returns (\<lambda>mux'. can_send ok mux' \<and> (case OpenStream (deviceId mux) (trim_nul raw) of
       Inl e \<Rightarrow> same_table mux' mux
     | Inr conn \<Rightarrow> (let s = length (stream_heap mux); mux1 = opened guest conn mux in
         same_table mux' (set_pump s PumpReading mux1) \<or> same_table mux' (closed_off s mux1))))
     (handleOpen send_adb OpenStream guest raw mux)"
proof (cases "OpenStream (deviceId mux) (trim_nul raw)")
  case (Inl e)
  then show ?thesis
    using mux_sends(2) [OF assms, of 0 guest]
    by (auto simp: handleOpen_def outcome_simps elim!: returns_mono)
next
  case (Inr conn)
  let ?s = "length (stream_heap mux)" and ?mux1 = "opened guest conn mux"
  have "can_send ok ?mux1" using assms by (simp add: can_send_def opened_def)
  from mux_sends(1) [OF this, of "nextId mux + 1" guest]
  obtain mux2 e where s: "sendOkay send_adb (nextId mux + 1) guest ?mux1 = Ret (mux2, e)"
    "can_send ok mux2" "same_table mux2 ?mux1"
    by (auto elim!: returnsE)
  have "returns (\<lambda>mux'. can_send ok mux' \<and> same_table mux' (closed_off ?s ?mux1)) (closeStream send_adb ?s False mux2)"
    using closeStream [OF s(2), of ?s False] same_table_closed_off [OF s(3), of ?s]
    by (auto elim!: returns_mono intro: same_table_trans)
  moreover have "same_table (upd_stream ?s (\<lambda>st. st\<lparr>pump := PumpReading\<rparr>) mux2) (set_pump ?s PumpReading ?mux1)"
    unfolding set_pump_def by (rule same_table_upd_stream [OF s(3)])
  ultimately show ?thesis
    using Inr s(1,2) by (cases e) (auto simp: handleOpen_def Let_def opened_def elim!: returns_mono)
qed

lemma handleWrite:
  assumes "can_send ok mux" "streams mux own = Some s"
    and "conn_Write (stream_conn (stream_heap mux ! s)) data = (c1, n, err)"
  defines "mux1 \<equiv> upd_stream s (\<lambda>st. st\<lparr>stream_conn := c1\<rparr>) mux"
  shows "returns (\<lambda>mux'. can_send ok mux' \<and> (same_table mux' (closed_off s mux1) \<or>
     err = None \<and> same_table mux' mux1 \<and>
     wire (tclient mux') = wire (tclient mux) @ adb_frame AdbCommandOkay own guest []))
     (handleWrite send_adb guest own data mux)"
proof -
  have mux1: "can_send ok mux1" using assms(1) by (simp add: mux1_def)
  have eq: "handleWrite send_adb guest own data mux =
      (case err of Some e \<Rightarrow> closeStream send_adb s True mux1
       | None \<Rightarrow> andThen (sendOkay send_adb own guest mux1) (\<lambda>(mux2, err).
           case err of Some e \<Rightarrow> closeStream send_adb s False mux2 | None \<Rightarrow> Ret mux2))"
    unfolding mux1_def by (simp add: handleWrite_def lookup_stream_def assms(2,3) Let_def)
  show ?thesis
  proof (cases err)
    case (Some e)
    then show ?thesis using closeStream [OF mux1, of s True] by (auto simp: eq elim!: returns_mono)
  next
    case None
    from mux_sends(1) [OF mux1, of own guest] obtain mux2 e where m2: "sendOkay send_adb own guest mux1 = Ret (mux2, e)"
      "can_send ok mux2" "same_table mux2 mux1"
      "e = None \<longrightarrow> wire (tclient mux2) = wire (tclient mux) @ adb_frame AdbCommandOkay own guest []"
      by (auto simp: mux1_def elim!: returnsE)
    show ?thesis
    proof (cases e)
      case (Some e')
      with None m2 show ?thesis
        using closeStream [OF m2(2), of s False] same_table_closed_off [OF m2(3), of s]
        by (auto simp: eq elim!: returns_mono intro: same_table_trans)
    qed (use None m2 in \<open>simp add: eq\<close>)
  qed
qed

lemma pump_after:
  assumes "can_send ok mux"
  shows "returns (\<lambda>mux'. can_send ok mux' \<and> same_table mux'
     (if readErr = None then set_pump s PumpReading mux else set_pump s PumpStopped (closed_off s mux)))
     (pump_after send_adb s readErr mux)"
proof (cases readErr)
  case None
  then show ?thesis using assms by (simp add: pump_after_def set_pump_def)
next
  case (Some e)
  with closeStream [OF assms, of s True] show ?thesis
    by (auto simp: pump_after_def outcome_simps set_pump_def elim!: returns_mono intro: same_table_upd_stream)
qed

lemma pump_read:
  assumes "can_send ok mux"
    and "conn_Read (unat MaxPayloadLength) seg eager (stream_conn (stream_heap mux ! s)) = (c1, bs, readErr)"
  defines "mux1 \<equiv> upd_stream s (\<lambda>st. st\<lparr>stream_conn := c1\<rparr>) mux"
  shows "returns (\<lambda>mux'. can_send ok mux' \<and> same_table mux'
     (if bs \<noteq> [] then set_pump s (PumpHolding bs readErr) mux1
      else if readErr = None then set_pump s PumpReading mux1
      else set_pump s PumpStopped (closed_off s mux1))) (pump_read send_adb s seg eager mux)"
proof -
  have "can_send ok mux1" using assms(1) by (simp add: mux1_def)
  from pump_after [OF this, of readErr s] this show ?thesis
    by (auto simp: pump_read_def assms(2) Let_def simp flip: mux1_def) (simp add: set_pump_def)
qed

lemma pump_send:
  fixes s :: nat
  assumes "can_send ok mux" "length bs \<le> 0x8000"
  defines "mux1 \<equiv> upd_stream s (\<lambda>st. st\<lparr>sendPermit := False\<rparr>) mux"
  shows "returns (\<lambda>mux'. can_send ok mux' \<and> (same_table mux' (set_pump s PumpStopped (closed_off s mux1)) \<or>
     readErr = None \<and> same_table mux' (set_pump s PumpReading mux1) \<and>
     wire (tclient mux') = wire (tclient mux) @
       adb_frame AdbCommandWrite (ownId (stream_heap mux ! s)) (guestId (stream_heap mux ! s)) bs))
     (pump_send send_adb s bs readErr mux)"
proof -
  let ?st = "stream_heap mux ! s"
  have mux1: "can_send ok mux1" using assms(1) by (simp add: mux1_def)
  from mux_sends(3) [OF mux1 assms(2), of "ownId ?st" "guestId ?st"] obtain mux2 e where
    m2: "sendWrite send_adb (ownId ?st) (guestId ?st) bs mux1 = Ret (mux2, e)" "can_send ok mux2" "same_table mux2 mux1"
      "e = None \<longrightarrow> wire (tclient mux2) = wire (tclient mux) @ adb_frame AdbCommandWrite (ownId ?st) (guestId ?st) bs"
    by (auto simp: mux1_def elim!: returnsE)
  have stop: "same_table (set_pump s PumpStopped mux') (set_pump s PumpStopped (closed_off s mux1))"
    if "same_table mux' (closed_off s mux2)" for mux'
    unfolding set_pump_def
    by (rule same_table_upd_stream [OF same_table_trans [OF that same_table_closed_off [OF m2(3)]]])
  have eq: "pump_send send_adb s bs readErr mux = (case e of
       Some e \<Rightarrow> andThen (closeStream send_adb s False mux2) (\<lambda>mux3. Ret (set_pump s PumpStopped mux3))
     | None \<Rightarrow> pump_after send_adb s readErr mux2)"
    using m2(1) by (simp add: pump_send_def Let_def mux1_def)
  show ?thesis
  proof (cases e)
    case (Some e')
    with closeStream [OF m2(2), of s False] stop show ?thesis
      by (auto simp: eq outcome_simps elim!: returns_mono) (simp add: set_pump_def)
  next
    case None
    show ?thesis
    proof (cases readErr)
      case (Some e')
      with None closeStream [OF m2(2), of s True] stop show ?thesis
        by (auto simp: eq [unfolded Some] pump_after_def outcome_simps elim!: returns_mono) (simp_all add: set_pump_def)
    next
      case r: None
      show ?thesis
        using r None m2 by (auto simp: eq [unfolded r] pump_after_def set_pump_def intro: same_table_upd_stream)
    qed
  qed
qed

end

section \<open>What a step does to one stream\<close>

text \<open>
  \<open>st\<close> becomes \<open>st'\<close> under an event: left alone, closed, or changed by the event's own operation and
  possibly closed by it.
\<close>

definition same_or_shut :: "ownerStream \<Rightarrow> ownerStream \<Rightarrow> bool" where
  "same_or_shut st st' \<longleftrightarrow> st' = st \<or> \<not> stream_done st \<and> st' = shut st"

definition pump_stops :: "ownerStream \<Rightarrow> ownerStream \<Rightarrow> bool" where
  "pump_stops st st' \<longleftrightarrow> (\<exists>st1. same_or_shut st st1 \<and> st' = st1\<lparr>pump := PumpStopped\<rparr>)"

definition stream_moves :: "nat \<Rightarrow> bool \<Rightarrow> mux_event \<Rightarrow> ownerStream \<Rightarrow> ownerStream \<Rightarrow> bool" where
  "stream_moves s registered e st st' \<longleftrightarrow> (case e of
     GuestWrote own data \<Rightarrow>
       if own = ownId st \<and> registered
       then \<exists>c1 n err. conn_Write (stream_conn st) data = (c1, n, err) \<and>
         (same_or_shut (st\<lparr>stream_conn := c1\<rparr>) st' \<and> (err \<noteq> None \<longrightarrow> stream_done st'))
       else st' = st
   | GuestOkayed own \<Rightarrow> st' = (if own = ownId st \<and> registered then st\<lparr>sendPermit := True\<rparr> else st)
   | DeviceRead t \<Rightarrow>
       if t = s then pump st = PumpReading \<and> (\<exists>seg eager c1 bs err.
         conn_Read (unat MaxPayloadLength) seg eager (stream_conn st) = (c1, bs, err) \<and>
         (if bs \<noteq> [] then st' = st\<lparr>stream_conn := c1, pump := PumpHolding bs err\<rparr>
          else if err = None then st' = st\<lparr>stream_conn := c1, pump := PumpReading\<rparr>
          else pump_stops (st\<lparr>stream_conn := c1\<rparr>) st'))
       else st' = st
   | SentWrite t bs \<Rightarrow>
       if t = s then sendPermit st \<and> (\<exists>err. pump st = PumpHolding bs err \<and>
         (pump_stops (st\<lparr>sendPermit := False\<rparr>) st' \<or>
          err = None \<and> st' = st\<lparr>sendPermit := False, pump := PumpReading\<rparr>))
       else st' = st
   | PumpGaveUp t \<Rightarrow> if t = s then stream_done st \<and> pump_stops st st' else st' = st
   | GuestClosed own \<Rightarrow> same_or_shut st st'
   | ClosedAll \<Rightarrow> same_or_shut st st'
   | GuestOpened g r \<Rightarrow> st' = st
   | ClientMoved \<Rightarrow> st' = st)"

lemma same_or_shut_refl [simp]: "same_or_shut st st"
  by (simp add: same_or_shut_def)

lemma closed_off_nth:
  "s < length (stream_heap mux) \<Longrightarrow> stream_heap (closed_off t mux) ! s =
     (if t = s \<and> \<not> stream_done (stream_heap mux ! s) then shut (stream_heap mux ! s) else stream_heap mux ! s)"
  by (cases "t = s") (auto simp: closed_off_def)

lemma same_or_shut_closed_off:
  "s < length (stream_heap mux) \<Longrightarrow> same_or_shut (stream_heap mux ! s) (stream_heap (closed_off t mux) ! s)"
  by (simp add: closed_off_nth same_or_shut_def)

lemma same_or_shut_trans: "same_or_shut a b \<Longrightarrow> same_or_shut b c \<Longrightarrow> same_or_shut a c"
  by (auto simp: same_or_shut_def shut_def)

lemma length_fold_closed_off:
  "length (stream_heap (fold closed_off ss mux)) = length (stream_heap mux)"
  by (induction ss arbitrary: mux) simp_all

lemma fold_closed_off:
  "s < length (stream_heap mux) \<Longrightarrow> same_or_shut (stream_heap mux ! s) (stream_heap (fold closed_off ss mux) ! s)"
proof (induction ss arbitrary: mux)
  case (Cons t ss)
  with same_or_shut_closed_off [OF Cons.prems, of t] show ?case
    by (auto intro: same_or_shut_trans)
qed simp

lemma table_ok_fold_closed_off:
  "table_ok mux \<Longrightarrow> (\<forall>s \<in> set ss. s < length (stream_heap mux)) \<Longrightarrow> table_ok (fold closed_off ss mux)"
  by (induction ss arbitrary: mux) (simp_all add: table_ok_closed_off)

lemma can_send_fold_closed_off: "can_send ok mux \<Longrightarrow> can_send ok (fold closed_off ss mux)"
  by (induction ss arbitrary: mux) simp_all

text \<open>
  The step lemma: the invariant is kept, no stream is forgotten, and each stream moves as
  described.
\<close>

definition mux_moves :: "('c \<Rightarrow> bool) \<Rightarrow> 'c OwnerMultiplexer \<Rightarrow> mux_event \<Rightarrow> 'c OwnerMultiplexer \<Rightarrow> bool" where
  "mux_moves ok mux e mux' \<longleftrightarrow> mux_ok ok mux' \<and> length (stream_heap mux) \<le> length (stream_heap mux') \<and>
     (\<forall>s < length (stream_heap mux). stream_moves s (streams mux (ownId (stream_heap mux ! s)) = Some s) e
        (stream_heap mux ! s) (stream_heap mux' ! s)) \<and>
     (\<forall>s < length (stream_heap mux'). length (stream_heap mux) \<le> s \<longrightarrow>
        sendPermit (stream_heap mux' ! s) \<and> pump (stream_heap mux' ! s) \<in> {PumpNotStarted, PumpReading})"

lemma mux_movesI:
  assumes "same_table mux' mux1" "can_send ok mux'" "table_ok mux1"
    and "length (stream_heap mux1) = length (stream_heap mux)"
    and "\<And>s. s < length (stream_heap mux) \<Longrightarrow> stream_moves s (streams mux (ownId (stream_heap mux ! s)) = Some s) e
        (stream_heap mux ! s) (stream_heap mux1 ! s)"
  shows "mux_moves ok mux e mux'"
proof -
  have "stream_heap mux' = stream_heap mux1" using assms(1) by (simp add: same_table_def)
  then show ?thesis
    using assms same_table_ok [OF assms(1,3)] by (auto simp: mux_moves_def mux_ok_def)
qed

lemma length_set_pump [simp]: "length (stream_heap (set_pump s ph mux)) = length (stream_heap mux)"
  by (simp add: set_pump_def)

lemma table_ok_set_pump:
  "table_ok mux \<Longrightarrow> s < length (stream_heap mux) \<Longrightarrow> (\<And>bs err. ph = PumpHolding bs err \<Longrightarrow> length bs \<le> 0x8000) \<Longrightarrow>
   table_ok (set_pump s ph mux)"
  unfolding set_pump_def by (rule table_ok_upd_stream) (simp_all add: pump_fits_def)

lemma set_pump_nth:
  "s < length (stream_heap mux) \<Longrightarrow> stream_heap (set_pump s ph mux) ! t =
     (if t = s then (stream_heap mux ! s)\<lparr>pump := ph\<rparr> else stream_heap mux ! t)"
  by (simp add: set_pump_def stream_heap_upd_stream)

end
