(* ===== verification/Client_Steps.thy ===== *)
theory Client_Steps
  imports Client_Reader
begin

text \<open>
  Everything the client does beside relaying ADB messages, as one step relation: its reader, its
  receiver, the answers to join requests, the passing of time, \<open>Close\<close>.  No step of it breaks what
  sending relies on.
\<close>

inductive client_step :: "Client \<Rightarrow> Client \<Rightarrow> bool" where
  reads: "reader c = Reading \<Longrightarrow> startReader c = Ret c' \<Longrightarrow> client_step c c'"
| receives: "reader c = Offering a \<Longrightarrow> Messages c = Ret (c', Some a) \<Longrightarrow> client_step c c'"
| gives_up: "reader c = Offering a \<Longrightarrow> ctx_done c \<Longrightarrow> a < length (objects (messagePool c)) \<Longrightarrow>
     client_step c (startReader_cancelled a c)"
| disposes: "a < length (objects (messagePool c)) \<Longrightarrow>
     client_step c (c\<lparr>messagePool := fst (Dispose a (messagePool c))\<rparr>)"
| answers: "length key < 0xFFFF0000 \<Longrightarrow> Client_SendJoinRoomResponse accepted key c = Ret (c', e) \<Longrightarrow> client_step c c'"
| refuses: "length msg < 0xFFFF0000 \<Longrightarrow> SendError command code msg c = Ret (c', e) \<Longrightarrow> client_step c c'"
| time_passes: "client_step c (c\<lparr>wall_clock := t\<rparr>)"
| closes: "client_step c (Client_Close c)"

lemma good_pool_Dispose:
  assumes "good_pool P p" "a < length (objects p)"
  shows "good_pool P (fst (Dispose a p))"
proof (cases "live p a")
  case True
  with assms(1) Dispose_live [of p a] show ?thesis
    by (auto simp: good_pool_def)
qed (use assms in \<open>simp add: good_pool_def Dispose_dead\<close>)

lemma SendError_fill:
  "SendError command code msg = withMessage (\<lambda>m. then_write (fill_error (command, code, msg) m))"
  by (simp add: SendError_def fill_error_def)

lemma SendJoinRoomResponse_fill:
  "Client_SendJoinRoomResponse accepted key = withMessage (\<lambda>m. then_write (fill_join_answer (accepted, [], key) m))"
  by (simp add: Client_SendJoinRoomResponse_def fill_join_answer_def)

lemma SendConnect_fill:
  "SendConnect = withMessage (\<lambda>m. then_write (fill_connect ProtocolVersion m))"
  by (simp add: SendConnect_def fill_connect_def)

lemma SendJoinRoom_fill:
  "SendJoinRoom roomId key = withMessage (\<lambda>m. then_write (fill_join_request (roomId, [], key) m))"
  by (simp add: SendJoinRoom_def fill_join_request_def)

lemma client_step_ok:
  assumes "client_step c c'" "client_ok c"
  shows "client_ok c'"
  using assms
proof cases
  case (reads)
  with startReader_returns [OF assms(2)] show ?thesis by auto
next
  case (receives a)
  with assms(2) show ?thesis by (auto simp: Messages_def client_ok_def)
next
  case (answers key accepted e)
  with join_answer_sender.client_send_any [OF assms(2), of "(accepted, [], key)"] show ?thesis
    by (simp add: SendJoinRoomResponse_fill)
next
  case (refuses msg command code e)
  with error_sender.client_send_any [OF assms(2), of "(command, code, msg)"] show ?thesis
    by (simp add: SendError_fill)
qed (auto simp: client_ok_def startReader_cancelled_def Client_Close_def Let_def good_pool_Dispose)

end
