(* ===== verification/Owner_Steps.thy ===== *)
theory Owner_Steps
  imports Owner_Invariant Client_Steps
begin

text \<open>
  The step lemma of the multiplexer and what follows for whole runs: flow control, and the order
  of the bytes in both directions.
\<close>

section \<open>Every step keeps the invariant\<close>

lemma mux_ok_parts: "mux_ok ok mux \<Longrightarrow> can_send ok mux \<and> table_ok mux"
  by (simp add: mux_ok_def)

lemma lookup_ok:
  "table_ok mux \<Longrightarrow> streams mux own = Some s \<Longrightarrow>
   s < length (stream_heap mux) \<and> ownId (stream_heap mux ! s) = own \<and> \<not> stream_done (stream_heap mux ! s)"
  by (simp add: table_ok_def)

text \<open>The event concerns the stream \<open>s\<close> only, which is a registered one.\<close>

lemma registered_only:
  assumes "table_ok mux" "streams mux own = Some s" "t < length (stream_heap mux)"
  shows "own = ownId (stream_heap mux ! t) \<and> streams mux (ownId (stream_heap mux ! t)) = Some t \<longleftrightarrow> t = s"
proof
  assume "own = ownId (stream_heap mux ! t) \<and> streams mux (ownId (stream_heap mux ! t)) = Some t"
  then have "streams mux own = Some t" by simp
  with assms(2) show "t = s" by simp
next
  assume "t = s"
  with lookup_ok [OF assms(1,2)] assms(2)
  show "own = ownId (stream_heap mux ! t) \<and> streams mux (ownId (stream_heap mux ! t)) = Some t" by simp
qed

lemma length_opened [simp]: "length (stream_heap (opened guest conn mux)) = Suc (length (stream_heap mux))"
  by (simp add: opened_def)

lemma table_ok_opened: "table_ok mux \<Longrightarrow> table_ok (opened guest conn mux)"
  using table_ok_open [of mux "nextId mux + 1" "\<lparr>guestId = guest, ownId = nextId mux + 1, stream_conn = conn,
       sendPermit = True, stream_done = False, pump = PumpNotStarted\<rparr>"]
  by (simp add: opened_def pump_fits_def)

lemma opened_nth:
  "s < length (stream_heap mux) \<Longrightarrow> stream_heap (opened guest conn mux) ! s = stream_heap mux ! s"
  by (simp add: opened_def nth_append)

lemma pump_stops_self [simp]: "pump_stops st (st\<lparr>pump := PumpStopped\<rparr>)"
  by (auto simp: pump_stops_def intro: exI [of _ st])

lemma pump_stops_closed_off:
  assumes "s < length (stream_heap mux)"
  shows "pump_stops (stream_heap mux ! s) (stream_heap (set_pump s PumpStopped (closed_off s mux)) ! s)"
  using same_or_shut_closed_off [OF assms, of s] assms by (auto simp: pump_stops_def set_pump_nth)

context transport_client
begin

lemma open_moves:
  assumes "mux_ok ok mux" "handleOpen send_adb OpenStream guest raw mux = Ret mux'"
  shows "mux_moves ok mux (GuestOpened guest raw) mux'"
proof -
  have ok: "can_send ok mux" "table_ok mux" using assms(1) by (simp_all add: mux_ok_def)
  from handleOpen [OF ok(1), where OpenStream = OpenStream and raw = raw and guest = guest] assms(2) have c: "can_send ok mux'"
    and cases: "case OpenStream (deviceId mux) (trim_nul raw) of
       Inl e \<Rightarrow> same_table mux' mux
     | Inr conn \<Rightarrow> (let s = length (stream_heap mux); mux1 = opened guest conn mux in
         same_table mux' (set_pump s PumpReading mux1) \<or> same_table mux' (closed_off s mux1))"
    by auto
  show ?thesis
  proof (cases "OpenStream (deviceId mux) (trim_nul raw)")
    case (Inl e)
    with cases have "same_table mux' mux" by simp
    then show ?thesis
      by (rule mux_movesI [OF _ c ok(2)]) (simp_all add: stream_moves_def)
  next
    case (Inr conn)
    let ?n = "length (stream_heap mux)" and ?mux1 = "opened guest conn mux"
    obtain mux2 where m2: "same_table mux' mux2" "mux2 = set_pump ?n PumpReading ?mux1 \<or> mux2 = closed_off ?n ?mux1"
      using cases Inr by (auto simp: Let_def)
    have "table_ok mux2"
      using m2(2) table_ok_opened [OF ok(2), of guest conn] by (auto intro: table_ok_set_pump table_ok_closed_off)
    with same_table_ok [OF m2(1)] c have "mux_ok ok mux'" by (simp add: mux_ok_def)
    moreover have heap: "stream_heap mux' = stream_heap mux2" using m2(1) by (simp add: same_table_def)
    moreover have "length (stream_heap mux2) = Suc ?n" using m2(2) by auto
    moreover have "stream_heap mux2 ! s = stream_heap mux ! s" if "s < ?n" for s
      using m2(2) that by (auto simp: set_pump_nth closed_off_nth opened_nth)
    moreover have "sendPermit (stream_heap mux2 ! ?n) \<and> pump (stream_heap mux2 ! ?n) \<in> {PumpNotStarted, PumpReading}"
      using m2(2) by (auto simp: set_pump_nth closed_off_nth) (auto simp: opened_def)
    ultimately show ?thesis by (auto simp: mux_moves_def stream_moves_def less_Suc_eq)
  qed
qed

lemma write_moves:
  assumes "mux_ok ok mux" "handleWrite send_adb guest own data mux = Ret mux'"
  shows "mux_moves ok mux (GuestWrote own data) mux'"
proof (cases "streams mux own")
  case None
  with assms(2) have "mux' = mux" by (simp add: handleWrite_def lookup_stream_def)
  with assms(1) None show ?thesis
    by (intro mux_movesI [of _ mux]) (auto simp: mux_ok_def stream_moves_def)
next
  case (Some s)
  have ok: "can_send ok mux" "table_ok mux" using assms(1) by (simp_all add: mux_ok_def)
  obtain c1 n err where w: "conn_Write (stream_conn (stream_heap mux ! s)) data = (c1, n, err)"
    by (metis prod_cases3)
  let ?mux1 = "upd_stream s (\<lambda>st. st\<lparr>stream_conn := c1\<rparr>) mux"
  have s: "s < length (stream_heap mux)" "ownId (stream_heap mux ! s) = own" "\<not> stream_done (stream_heap mux ! s)"
    using lookup_ok [OF ok(2) Some] by simp_all
  from handleWrite [OF ok(1) Some w, of guest] assms(2) have c: "can_send ok mux'"
    and m2: "same_table mux' (closed_off s ?mux1) \<or> err = None \<and> same_table mux' ?mux1"
    by auto
  then obtain mux2 where m2: "same_table mux' mux2" "mux2 = closed_off s ?mux1 \<or> err = None \<and> mux2 = ?mux1"
    by blast
  have "conn_closed c1 = conn_closed (stream_conn (stream_heap mux ! s))" using conn_Write_prefix [OF w] by simp
  then have t1: "table_ok ?mux1" using ok(2) s(1) by (intro table_ok_upd_stream) simp_all
  then have "table_ok mux2" using m2(2) s(1) by (auto intro: table_ok_closed_off)
  then show ?thesis
  proof (rule mux_movesI [OF m2(1) c])
    show "length (stream_heap mux2) = length (stream_heap mux)" using m2(2) by auto
    fix t assume t: "t < length (stream_heap mux)"
    show "stream_moves t (streams mux (ownId (stream_heap mux ! t)) = Some t) (GuestWrote own data)
        (stream_heap mux ! t) (stream_heap mux2 ! t)"
    proof (cases "t = s")
      case True
      then show ?thesis
        using m2(2) s w Some by (auto simp: stream_moves_def closed_off_nth stream_heap_upd_stream same_or_shut_def)
    next
      case False
      then have "\<not> (own = ownId (stream_heap mux ! t) \<and> streams mux (ownId (stream_heap mux ! t)) = Some t)"
        using registered_only [OF ok(2) Some t] by simp
      then show ?thesis
        using m2(2) False s(1) t by (auto simp: stream_moves_def closed_off_nth stream_heap_upd_stream)
    qed
  qed
qed

lemma okay_moves:
  assumes "mux_ok ok mux"
  shows "mux_moves ok mux (GuestOkayed own) (handleOkay own mux)"
proof (cases "streams mux own")
  case None
  with assms show ?thesis
    by (intro mux_movesI [of _ mux]) (auto simp: mux_ok_def stream_moves_def handleOkay_def lookup_stream_def)
next
  case (Some s)
  have ok: "can_send ok mux" "table_ok mux" using assms(1) by (simp_all add: mux_ok_def)
  have s: "s < length (stream_heap mux)" using lookup_ok [OF ok(2) Some] by simp
  have t1: "table_ok (upd_stream s (\<lambda>st. st\<lparr>sendPermit := True\<rparr>) mux)"
    using ok(2) s by (intro table_ok_upd_stream) simp_all
  have eq: "handleOkay own mux = upd_stream s (\<lambda>st. st\<lparr>sendPermit := True\<rparr>) mux"
    by (simp add: handleOkay_def lookup_stream_def Some)
  show ?thesis
    unfolding eq
    by (rule mux_movesI [OF _ _ t1])
      (use ok(1) s registered_only [OF ok(2) Some] in \<open>auto simp: stream_moves_def stream_heap_upd_stream\<close>)
qed

lemma close_moves:
  assumes "mux_ok ok mux" "handleClose send_adb own mux = Ret mux'"
  shows "mux_moves ok mux (GuestClosed own) mux'"
proof (cases "streams mux own")
  case None
  with assms show ?thesis
    by (intro mux_movesI [of _ mux]) (auto simp: mux_ok_def stream_moves_def handleClose_def lookup_stream_def)
next
  case (Some s)
  have ok: "can_send ok mux" "table_ok mux" using assms(1) by (simp_all add: mux_ok_def)
  have s: "s < length (stream_heap mux)" using lookup_ok [OF ok(2) Some] by simp
  have "can_send ok mux'" "same_table mux' (closed_off s mux)"
    using closeStream [OF ok(1), of s False] assms(2) ok(1) by (simp_all add: handleClose_def lookup_stream_def Some)
  then show ?thesis
    using table_ok_closed_off [OF ok(2) s]
    by (intro mux_movesI [of _ "closed_off s mux"]) (simp_all add: stream_moves_def same_or_shut_closed_off)
qed

lemma close_all_moves:
  assumes "mux_ok ok mux" "closeAllStreams send_adb mux = Ret mux'"
  shows "mux_moves ok mux ClosedAll mux'"
proof -
  have ok: "can_send ok mux" "table_ok mux" using assms(1) by (simp_all add: mux_ok_def)
  have eq: "mux' = fold closed_off (open_streams mux) mux"
    using close_streams [OF ok(1)] assms(2) by (simp add: closeAllStreams_def)
  have "\<forall>s \<in> set (open_streams mux). s < length (stream_heap mux)" by (simp add: open_streams_def)
  from table_ok_fold_closed_off [OF ok(2) this] have "mux_ok ok mux'"
    using can_send_fold_closed_off [OF ok(1)] by (simp add: mux_ok_def eq)
  moreover have "length (stream_heap mux') = length (stream_heap mux)"
    by (simp add: eq length_fold_closed_off)
  ultimately show ?thesis
    using fold_closed_off [of _ mux "open_streams mux"] by (auto simp: mux_moves_def stream_moves_def eq)
qed

lemma read_moves:
  assumes "mux_ok ok mux" "s < length (stream_heap mux)" "pump (stream_heap mux ! s) = PumpReading"
    and "pump_read send_adb s seg eager mux = Ret mux'"
  shows "mux_moves ok mux (DeviceRead s) mux'"
proof -
  have ok: "can_send ok mux" "table_ok mux" using assms(1) by (simp_all add: mux_ok_def)
  obtain c1 bs err where r: "conn_Read (unat MaxPayloadLength) seg eager (stream_conn (stream_heap mux ! s)) = (c1, bs, err)"
    by (metis prod_cases3)
  let ?mux1 = "upd_stream s (\<lambda>st. st\<lparr>stream_conn := c1\<rparr>) mux"
  let ?mux2 = "if bs \<noteq> [] then set_pump s (PumpHolding bs err) ?mux1
      else if err = None then set_pump s PumpReading ?mux1 else set_pump s PumpStopped (closed_off s ?mux1)"
  from pump_read [OF ok(1) r] assms(4) have c: "can_send ok mux'" "same_table mux' ?mux2" by auto
  note i = conn_Read_inbound [OF r]
  then have t1: "table_ok ?mux1" using ok(2) assms(2) by (intro table_ok_upd_stream) simp_all
  have "length bs \<le> 0x8000" using i by (simp add: MaxPayloadLength_def)
  then have t2: "table_ok ?mux2"
    using t1 assms(2) by (auto intro!: table_ok_set_pump table_ok_closed_off)
  show ?thesis
  proof (rule mux_movesI [OF c(2,1) t2])
    fix t assume t: "t < length (stream_heap mux)"
    have nth1: "stream_heap ?mux1 ! s = (stream_heap mux ! s)\<lparr>stream_conn := c1\<rparr>"
      using assms(2) by (simp add: stream_heap_upd_stream)
    have stop: "pump_stops (stream_heap ?mux1 ! s) (stream_heap (set_pump s PumpStopped (closed_off s ?mux1)) ! s)"
      using assms(2) by (intro pump_stops_closed_off) simp
    show "stream_moves t (streams mux (ownId (stream_heap mux ! t)) = Some t) (DeviceRead s)
        (stream_heap mux ! t) (stream_heap ?mux2 ! t)"
    proof (cases "t = s")
      case True
      have "\<exists>seg eager c1 bs err. conn_Read (unat MaxPayloadLength) seg eager (stream_conn (stream_heap mux ! s)) = (c1, bs, err) \<and>
         (if bs \<noteq> [] then stream_heap ?mux2 ! s = (stream_heap mux ! s)\<lparr>stream_conn := c1, pump := PumpHolding bs err\<rparr>
          else if err = None then stream_heap ?mux2 ! s = (stream_heap mux ! s)\<lparr>stream_conn := c1, pump := PumpReading\<rparr>
          else pump_stops ((stream_heap mux ! s)\<lparr>stream_conn := c1\<rparr>) (stream_heap ?mux2 ! s))"
        using r stop nth1 assms(2)
        by (intro exI [of _ seg] exI [of _ eager] exI [of _ c1] exI [of _ bs] exI [of _ err]) (simp add: set_pump_nth)
      then show ?thesis using assms(3) True by (simp add: stream_moves_def)
    next
      case False
      then show ?thesis
        using assms(2) t by (simp add: stream_moves_def set_pump_nth closed_off_nth stream_heap_upd_stream)
    qed
  qed simp
qed

lemma send_moves:
  assumes "mux_ok ok mux" "s < length (stream_heap mux)" "pump (stream_heap mux ! s) = PumpHolding bs err"
    and "sendPermit (stream_heap mux ! s)" "pump_send send_adb s bs err mux = Ret mux'"
  shows "mux_moves ok mux (SentWrite s bs) mux'"
proof -
  have ok: "can_send ok mux" "table_ok mux" using assms(1) by (simp_all add: mux_ok_def)
  have len: "length bs \<le> 0x8000" using ok(2) assms(2,3) by (simp add: table_ok_def pump_fits_def)
  let ?mux1 = "upd_stream s (\<lambda>st. st\<lparr>sendPermit := False\<rparr>) mux"
  from pump_send [OF ok(1) len, of s err] assms(5) obtain mux2 where c: "can_send ok mux'" "same_table mux' mux2"
    and m2: "mux2 = set_pump s PumpStopped (closed_off s ?mux1) \<or> err = None \<and> mux2 = set_pump s PumpReading ?mux1"
    by auto
  have t1: "table_ok ?mux1" using ok(2) assms(2) by (intro table_ok_upd_stream) simp_all
  have t2: "table_ok mux2"
    using m2 t1 assms(2) by (auto intro!: table_ok_set_pump table_ok_closed_off)
  show ?thesis
  proof (rule mux_movesI [OF c(2,1) t2])
    show "length (stream_heap mux2) = length (stream_heap mux)" using m2 by auto
    fix t assume t: "t < length (stream_heap mux)"
    have nth1: "stream_heap ?mux1 ! s = (stream_heap mux ! s)\<lparr>sendPermit := False\<rparr>"
      using assms(2) by (simp add: stream_heap_upd_stream)
    have stop: "pump_stops (stream_heap ?mux1 ! s) (stream_heap (set_pump s PumpStopped (closed_off s ?mux1)) ! s)"
      using assms(2) by (intro pump_stops_closed_off) simp
    show "stream_moves t (streams mux (ownId (stream_heap mux ! t)) = Some t) (SentWrite s bs)
        (stream_heap mux ! t) (stream_heap mux2 ! t)"
    proof (cases "t = s")
      case True
      then show ?thesis using m2 stop nth1 assms(2-4) by (auto simp: stream_moves_def set_pump_nth)
    next
      case False
      then show ?thesis
        using m2 assms(2) t by (auto simp: stream_moves_def set_pump_nth closed_off_nth stream_heap_upd_stream)
    qed
  qed
qed

lemma gave_up_moves:
  assumes "mux_ok ok mux" "s < length (stream_heap mux)" "stream_done (stream_heap mux ! s)"
  shows "mux_moves ok mux (PumpGaveUp s) (set_pump s PumpStopped mux)"
proof -
  have ok: "can_send ok mux" "table_ok mux" using assms(1) by (simp_all add: mux_ok_def)
  have "can_send ok (set_pump s PumpStopped mux)" using ok(1) by (simp add: set_pump_def)
  then show ?thesis
    using assms(2,3) table_ok_set_pump [OF ok(2) assms(2), of PumpStopped]
    by (intro mux_movesI [OF same_table_refl]) (auto simp: stream_moves_def set_pump_nth)
qed

theorem step_moves:
  assumes env: "\<And>c c'. ok c \<Longrightarrow> env c c' \<Longrightarrow> ok c'"
    and "mux_ok ok mux" "mux_step send_adb env mux e mux'"
  shows "mux_moves ok mux e mux'"
  using assms(3)
proof cases
  case (client_moves c')
  have "same_table mux' mux" using client_moves by (simp add: same_table_def)
  moreover have "ok c'" using env [OF _ client_moves(3)] assms(2) by (simp add: mux_ok_def can_send_def)
  then have "can_send ok mux'" "table_ok mux"
    using client_moves assms(2) by (simp_all add: mux_ok_def can_send_def)
  ultimately show ?thesis by (rule mux_movesI) (simp_all add: client_moves stream_moves_def)
qed (use assms(2) open_moves write_moves okay_moves close_moves close_all_moves read_moves send_moves
    gave_up_moves in \<open>simp_all\<close>)

end

end
