(* ===== verification/Owner_Runs.thy ===== *)
theory Owner_Runs
  imports Owner_Steps
begin

text \<open>
  Runs of the owner's multiplexer over the program's own client: what a run does to one stream,
  step by step and as a whole.
\<close>

section \<open>What a run sent and received\<close>

definition held_bytes :: "ownerStream \<Rightarrow> bytes" where
  "held_bytes st = (case pump st of PumpHolding bs err \<Rightarrow> bs | _ \<Rightarrow> [])"

text \<open>What the device has still to deliver: read but not relayed yet, then not read yet.\<close>

definition unsent :: "ownerStream \<Rightarrow> bytes" where
  "unsent st = held_bytes st @ inbound (stream_conn st)"

fun relayed_by :: "nat \<Rightarrow> mux_event \<Rightarrow> bytes" where
  "relayed_by s (SentWrite t bs) = (if t = s then bs else [])"
| "relayed_by s _ = []"

fun written_by :: "u32 \<Rightarrow> mux_event \<Rightarrow> bytes" where
  "written_by own (GuestWrote k data) = (if k = own then data else [])"
| "written_by own _ = []"

fun is_write :: "nat \<Rightarrow> mux_event \<Rightarrow> bool" where
  "is_write s (SentWrite t bs) = (t = s)"
| "is_write s _ = False"

definition relayed :: "nat \<Rightarrow> mux_event list \<Rightarrow> bytes" where
  "relayed s es = concat (map (relayed_by s) es)"

definition written :: "u32 \<Rightarrow> mux_event list \<Rightarrow> bytes" where
  "written own es = concat (map (written_by own) es)"

definition writes_sent :: "nat \<Rightarrow> mux_event list \<Rightarrow> nat" where
  "writes_sent s es = length (filter (is_write s) es)"

definition okays_received :: "u32 \<Rightarrow> mux_event list \<Rightarrow> nat" where
  "okays_received own es = length (filter (\<lambda>e. e = GuestOkayed own) es)"

section \<open>One stream, one step\<close>

lemma same_or_shut_fields:
  "same_or_shut st st' \<Longrightarrow> ownId st' = ownId st \<and> guestId st' = guestId st \<and> sendPermit st' = sendPermit st \<and>
     pump st' = pump st \<and> inbound (stream_conn st') = inbound (stream_conn st) \<and>
     outbound (stream_conn st') = outbound (stream_conn st) \<and> (\<not> stream_done st' \<longrightarrow> st' = st)"
  by (auto simp: same_or_shut_def)

lemma pump_stops_fields:
  "pump_stops st st' \<Longrightarrow> ownId st' = ownId st \<and> guestId st' = guestId st \<and> sendPermit st' = sendPermit st \<and>
     pump st' = PumpStopped \<and> inbound (stream_conn st') = inbound (stream_conn st) \<and>
     outbound (stream_conn st') = outbound (stream_conn st) \<and> (\<not> stream_done st' \<longrightarrow> \<not> stream_done st)"
  by (auto simp: pump_stops_def dest: same_or_shut_fields)

lemmas stream_fields = same_or_shut_fields pump_stops_fields

lemma moves_ids:
  "stream_moves s reg e st st' \<Longrightarrow> ownId st' = ownId st \<and> guestId st' = guestId st"
  by (cases e) (auto simp: stream_moves_def dest!: stream_fields split: if_splits)

lemma moves_flow:
  assumes "stream_moves s reg e st st'"
  shows "(if is_write s e then 1 else 0) + (if sendPermit st' then 1 else 0) \<le>
     (if sendPermit st then 1 else 0) + (if e = GuestOkayed (ownId st) then 1 else (0 :: nat))"
  using assms by (cases e) (auto simp: stream_moves_def dest!: stream_fields split: if_splits)

text \<open>Every event but three leaves the pump and the device's bytes alone.\<close>

lemma moves_quiet:
  assumes "stream_moves s reg e st st'"
    and "e \<noteq> DeviceRead s" "\<And>bs. e \<noteq> SentWrite s bs" "e \<noteq> PumpGaveUp s"
  shows "pump st' = pump st \<and> unsent st' = unsent st \<and> relayed_by s e = []"
proof (cases e)
  case (GuestWrote own data)
  show ?thesis
  proof (cases "own = ownId st \<and> reg")
    case True
    with assms(1) GuestWrote obtain c1 n err where "conn_Write (stream_conn st) data = (c1, n, err)"
      "same_or_shut (st\<lparr>stream_conn := c1\<rparr>) st'"
      by (auto simp: stream_moves_def)
    with conn_Write_prefix [OF this(1)] same_or_shut_fields [OF this(2)] GuestWrote
    show ?thesis by (simp add: unsent_def held_bytes_def)
  qed (use assms GuestWrote in \<open>auto simp: stream_moves_def\<close>)
next
  case (GuestClosed own)
  with assms(1) same_or_shut_fields [of st st'] show ?thesis
    by (simp add: stream_moves_def unsent_def held_bytes_def)
next
  case ClosedAll
  with assms(1) same_or_shut_fields [of st st'] show ?thesis
    by (simp add: stream_moves_def unsent_def held_bytes_def)
next
  case (GuestOkayed own)
  with assms(1) show ?thesis by (simp add: stream_moves_def unsent_def held_bytes_def)
next
  case (SentWrite t bs)
  with assms(3) [of bs] assms(1) show ?thesis by (simp add: stream_moves_def)
qed (use assms in \<open>simp_all add: stream_moves_def\<close>)

lemma moves_read:
  assumes "stream_moves s reg (DeviceRead s) st st'"
  shows "pump st = PumpReading \<and> outbound (stream_conn st') = outbound (stream_conn st) \<and>
     (pump st' = PumpStopped \<or> unsent st' = unsent st) \<and> (\<not> stream_done st' \<longrightarrow> \<not> stream_done st)"
proof -
  obtain seg eager c1 bs err where r: "pump st = PumpReading"
    "conn_Read (unat MaxPayloadLength) seg eager (stream_conn st) = (c1, bs, err)"
    and st': "if bs \<noteq> [] then st' = st\<lparr>stream_conn := c1, pump := PumpHolding bs err\<rparr>
      else if err = None then st' = st\<lparr>stream_conn := c1, pump := PumpReading\<rparr>
      else pump_stops (st\<lparr>stream_conn := c1\<rparr>) st'"
    using assms by (auto simp: stream_moves_def)
  note i = conn_Read_inbound [OF r(2)]
  show ?thesis
  proof (cases "bs = [] \<and> err \<noteq> None")
    case True
    with st' i r(1) pump_stops_fields [of "st\<lparr>stream_conn := c1\<rparr>" st'] show ?thesis by simp
  next
    case False
    with st' i r(1) show ?thesis by (auto simp: unsent_def held_bytes_def split: if_splits)
  qed
qed

lemma moves_send:
  assumes "stream_moves s reg (SentWrite s bs) st st'"
  shows "outbound (stream_conn st') = outbound (stream_conn st) \<and> (\<not> stream_done st' \<longrightarrow> \<not> stream_done st) \<and>
     pump st \<noteq> PumpStopped \<and> (\<exists>rest. unsent st = bs @ rest \<and> (pump st' \<noteq> PumpStopped \<longrightarrow> rest = unsent st'))"
proof -
  obtain err where h: "pump st = PumpHolding bs err"
    "pump_stops (st\<lparr>sendPermit := False\<rparr>) st' \<or> st' = st\<lparr>sendPermit := False, pump := PumpReading\<rparr>"
    using assms by (auto simp: stream_moves_def)
  from h(2) show ?thesis
  proof
    assume "pump_stops (st\<lparr>sendPermit := False\<rparr>) st'"
    with pump_stops_fields [OF this] h(1) show ?thesis by (simp add: unsent_def held_bytes_def)
  qed (use h(1) in \<open>simp add: unsent_def held_bytes_def\<close>)
qed

lemma moves_relay:
  assumes "stream_moves s reg e st st'"
  shows "\<exists>rest. unsent st = relayed_by s e @ rest \<and> (pump st' \<noteq> PumpStopped \<longrightarrow> rest = unsent st')" (is ?A)
    and "pump st = PumpStopped \<Longrightarrow> pump st' = PumpStopped \<and> relayed_by s e = []" (is "?P \<Longrightarrow> ?B")
proof -
  consider "e = DeviceRead s" | bs where "e = SentWrite s bs" | "e = PumpGaveUp s"
    | "e \<noteq> DeviceRead s" "\<And>bs. e \<noteq> SentWrite s bs" "e \<noteq> PumpGaveUp s"
    by blast
  then have "?A \<and> (?P \<longrightarrow> ?B)"
  proof cases
    case 1
    with moves_read [of s reg st st'] assms show ?thesis by auto
  next
    case (2 bs)
    with moves_send [of s reg bs st st'] assms show ?thesis by auto
  next
    case 3
    with assms pump_stops_fields [of st st'] show ?thesis by (simp add: stream_moves_def)
  next
    case 4
    from moves_quiet [OF assms 4] show ?thesis by simp
  qed
  then show ?A "?P \<Longrightarrow> ?B" by simp_all
qed

lemma moves_write:
  assumes "stream_moves s True e st st'" "\<not> stream_done st'"
  shows "\<not> stream_done st \<and> outbound (stream_conn st') = outbound (stream_conn st) @ written_by (ownId st) e"
proof (cases e)
  case (GuestWrote own data)
  show ?thesis
  proof (cases "own = ownId st")
    case True
    with assms GuestWrote obtain c1 n err where w: "conn_Write (stream_conn st) data = (c1, n, err)"
      "same_or_shut (st\<lparr>stream_conn := c1\<rparr>) st'" "err = None"
      by (auto simp: stream_moves_def)
    have st': "st' = st\<lparr>stream_conn := c1\<rparr>" using same_or_shut_fields [OF w(2)] assms(2) by simp
    have "n = length data" using w(1,3) conn_Write_count by simp
    with conn_Write_prefix [OF w(1)] st' True GuestWrote assms(2) show ?thesis by simp
  qed (use assms GuestWrote in \<open>simp add: stream_moves_def\<close>)
next
  case (DeviceRead t)
  show ?thesis
  proof (cases "t = s")
    case True
    with moves_read [of s True st st'] assms DeviceRead show ?thesis by simp
  qed (use assms DeviceRead in \<open>simp add: stream_moves_def\<close>)
next
  case (SentWrite t bs)
  show ?thesis
  proof (cases "t = s")
    case True
    with moves_send [of s True bs st st'] assms SentWrite show ?thesis by simp
  qed (use assms SentWrite in \<open>simp add: stream_moves_def\<close>)
next
  case (PumpGaveUp t)
  with assms pump_stops_fields [of st st'] show ?thesis by (simp add: stream_moves_def split: if_splits)
next
  case (GuestClosed own)
  with assms same_or_shut_fields [of st st'] show ?thesis by (simp add: stream_moves_def)
next
  case ClosedAll
  with assms same_or_shut_fields [of st st'] show ?thesis by (simp add: stream_moves_def)
next
  case (GuestOkayed own)
  with assms show ?thesis by (simp add: stream_moves_def split: if_splits)
qed (use assms in \<open>simp_all add: stream_moves_def\<close>)

section \<open>Runs\<close>

abbreviation owner_run :: "Client OwnerMultiplexer \<Rightarrow> mux_event list \<Rightarrow> Client OwnerMultiplexer \<Rightarrow> bool" where
  "owner_run \<equiv> mux_run SendAdbMessage client_step"

lemma owner_step_moves:
  "mux_ok client_ok mux \<Longrightarrow> mux_step SendAdbMessage client_step mux e mux' \<Longrightarrow> mux_moves client_ok mux e mux'"
  using client.step_moves client_step_ok by blast

lemma owner_run_ok:
  "owner_run mux es mux' \<Longrightarrow> mux_ok client_ok mux \<Longrightarrow>
   mux_ok client_ok mux' \<and> length (stream_heap mux) \<le> length (stream_heap mux')"
proof (induction rule: mux_run.induct)
  case (run_snoc mux es mux1 e mux2)
  with owner_step_moves [OF _ run_snoc.hyps(2)] show ?case by (auto simp: mux_moves_def)
qed simp

lemma mux_ok_New: "client_ok c \<Longrightarrow> mux_ok client_ok (NewOwnerMultiplexer device c)"
  using table_ok_New [of device c]
  by (simp add: mux_ok_def can_send_def) (simp add: NewOwnerMultiplexer_def good_pool_New)

text \<open>The step lemma for one stream of a run's last step.\<close>

lemma run_step_stream:
  assumes "owner_run mux es mux1" "mux_step SendAdbMessage client_step mux1 e mux2"
    and "mux_ok client_ok mux" "s < length (stream_heap mux)"
  shows "stream_moves s (streams mux1 (ownId (stream_heap mux1 ! s)) = Some s) e
     (stream_heap mux1 ! s) (stream_heap mux2 ! s)"
  using owner_run_ok [OF assms(1,3)] owner_step_moves [OF _ assms(2)] assms(4)
  by (auto simp: mux_moves_def)

lemma run_stream:
  assumes "owner_run mux es mux'" "mux_ok client_ok mux" "s < length (stream_heap mux)"
  defines "st \<equiv> stream_heap mux ! s" and "st' \<equiv> stream_heap mux' ! s"
  shows "ownId st' = ownId st \<and> guestId st' = guestId st \<and>
     writes_sent s es + (if sendPermit st' then 1 else 0) \<le>
       (if sendPermit st then 1 else 0) + okays_received (ownId st) es \<and>
     (\<exists>rest. unsent st = relayed s es @ rest \<and> (pump st' \<noteq> PumpStopped \<longrightarrow> rest = unsent st'))"
  using assms(1-3) unfolding st_def st'_def
proof (induction rule: mux_run.induct)
  case (run_nil mux)
  show ?case by (simp add: writes_sent_def okays_received_def relayed_def)
next
  case (run_snoc mux es mux1 e mux2)
  let ?st = "stream_heap mux ! s" and ?st1 = "stream_heap mux1 ! s" and ?st2 = "stream_heap mux2 ! s"
  note IH = run_snoc.IH [OF run_snoc.prems]
  note m = run_step_stream [OF run_snoc.hyps run_snoc.prems]
  have flow: "writes_sent s (es @ [e]) + (if sendPermit ?st2 then 1 else 0) \<le>
      (if sendPermit ?st then 1 else 0) + okays_received (ownId ?st) (es @ [e])"
    using IH moves_flow [OF m] by (simp add: writes_sent_def okays_received_def split: if_splits)
  obtain rest where rest: "unsent ?st = relayed s es @ rest" "pump ?st1 \<noteq> PumpStopped \<longrightarrow> rest = unsent ?st1"
    using IH by blast
  have "\<exists>rest. unsent ?st = relayed s (es @ [e]) @ rest \<and> (pump ?st2 \<noteq> PumpStopped \<longrightarrow> rest = unsent ?st2)"
  proof (cases "pump ?st1 = PumpStopped")
    case True
    with moves_relay(2) [OF m] rest(1) show ?thesis by (simp add: relayed_def)
  next
    case False
    with moves_relay(1) [OF m] rest show ?thesis by (auto simp: relayed_def)
  qed
  with flow IH moves_ids [OF m] show ?case by simp
qed

lemma run_written:
  assumes "owner_run mux es mux'" "mux_ok client_ok mux" "s < length (stream_heap mux)"
    and "\<not> stream_done (stream_heap mux' ! s)" "length (stream_heap mux') < 2 ^ 32"
  shows "\<not> stream_done (stream_heap mux ! s) \<and> outbound (stream_conn (stream_heap mux' ! s)) =
     outbound (stream_conn (stream_heap mux ! s)) @ written (ownId (stream_heap mux ! s)) es"
  using assms
proof (induction rule: mux_run.induct)
  case (run_nil mux)
  then show ?case by (simp add: written_def)
next
  case (run_snoc mux es mux1 e mux2)
  let ?st1 = "stream_heap mux1 ! s"
  note m = run_step_stream [OF run_snoc.hyps run_snoc.prems(1,2)]
  note ok = owner_run_ok [OF run_snoc.hyps(1) run_snoc.prems(1)]
  have len: "length (stream_heap mux1) \<le> length (stream_heap mux2)"
    using owner_step_moves [OF _ run_snoc.hyps(2)] ok by (simp add: mux_moves_def)
  have m': "stream_moves s True e ?st1 (stream_heap mux2 ! s)" if "\<not> stream_done ?st1"
  proof -
    have "streams mux1 (ownId ?st1) = Some s"
      using ok that run_snoc.prems(2,4) len by (auto simp: mux_ok_def table_ok_def)
    with m show ?thesis by simp
  qed
  have live: "\<not> stream_done ?st1"
  proof
    assume "stream_done ?st1"
    then have "stream_done (stream_heap mux2 ! s)"
      using m by (cases e) (auto simp: stream_moves_def pump_stops_def same_or_shut_def split: if_splits)
    with run_snoc.prems(3) show False by simp
  qed
  have "length (stream_heap mux1) < 2 ^ 32" using len run_snoc.prems(4) by simp
  from run_snoc.IH [OF run_snoc.prems(1,2) live this] moves_write [OF m' [OF live] run_snoc.prems(3)]
    run_stream [OF run_snoc.hyps(1) run_snoc.prems(1,2)]
  show ?case by (simp add: written_def)
qed

end
