(* ===== verification/Owner_Properties.thy ===== *)
theory Owner_Properties
  imports Owner_Runs
begin

text \<open>
  What the owner's multiplexer guarantees, over the program's own client: the invariant of every
  reachable state, one unacknowledged WRTE per stream at most, the order of the bytes in both
  directions, the answer to each request of the guest, and the message that makes it panic.
\<close>

section \<open>A client whose connection takes every write\<close>

locale transport_client_up = transport_client +
  fixes up :: "'a \<Rightarrow> bool"
  assumes send_up: "ok c \<Longrightarrow> up c \<Longrightarrow> AdbBytes m = Ret bs \<Longrightarrow> length bs \<le> 0xF000 \<Longrightarrow>
      \<exists>c'. send_adb m c = Ret (c', None) \<and> up c'"
begin

lemma send_set_up:
  assumes "ok c" "up c" "adb_holds m command arg1 arg2 chk data" "length data \<le> 0x8000"
  shows "\<exists>c'. send_adb m c = Ret (c', None) \<and> ok c' \<and> up c' \<and>
     wire c' = wire c @ encode_frame CommandAdbTransport (adb_wire command arg1 arg2 chk data)"
proof -
  obtain c' where c': "send_adb m c = Ret (c', None)" "up c'"
    using send_up [OF assms(1,2) adb_holds_fields(9) [OF assms(3)]] assms(4) by auto
  obtain c'' e where "send_adb m c = Ret (c'', e)" "ok c''"
    "e = None \<longrightarrow> wire c'' = wire c @ encode_frame CommandAdbTransport (adb_wire command arg1 arg2 chk data)"
    by (rule send_set [OF assms(1,3,4)]) blast
  with c' show ?thesis by simp
qed

lemma mux_send_up:
  assumes "can_send ok mux" "up (tclient mux)" "length data \<le> 0x8000"
  shows "\<exists>mux'. mux_send send_adb (AdbSet command arg1 arg2 data) mux = Ret (mux', None) \<and> can_send ok mux' \<and> up (tclient mux') \<and>
     same_table mux' mux \<and> wire (tclient mux') = wire (tclient mux) @ adb_frame command arg1 arg2 data"
proof -
  let ?Q = "\<lambda>(c, e :: error option). ok c \<and> up c \<and> e = None \<and>
     wire c = wire (tclient mux) @ adb_frame command arg1 arg2 data"
  have ok: "ok (tclient mux)" and pool: "good_pool adb_wf (adbMessagePool mux)"
    using assms(1) by (simp_all add: can_send_def)
  have "returns ?Q (send_adb m (tclient mux))" if "adb_holds m command arg1 arg2 (checksum data) data" for m
    using send_set_up [OF ok assms(2) that assms(3)] by (auto simp: adb_frame_def)
  from mux_send_returns [OF pool assms(3), of command arg1 arg2 ?Q send_adb, OF this] show ?thesis
    by (auto simp: can_send_def elim!: returnsE)
qed

lemmas mux_sends_up =
  mux_send_up [where command = AdbCommandOkay and data = "[]", folded sendOkay_def, simplified]
  mux_send_up [where command = AdbCommandClose and data = "[]", folded sendClose_def, simplified]
  mux_send_up [where command = AdbCommandWrite, folded sendWrite_def]

text \<open>The first close of a stream notifies the guest with one CLSE; a second does nothing.\<close>

lemma close_once:
  assumes "can_send ok mux" "up (tclient mux)" "s < length (stream_heap mux)"
  defines "st \<equiv> stream_heap mux ! s"
  shows "\<exists>mux'. closeStream send_adb s True mux = Ret mux' \<and> same_table mux' (closed_off s mux) \<and>
     wire (tclient mux') = wire (tclient mux) @
       (if stream_done st then [] else adb_frame AdbCommandClose (ownId st) (guestId st) []) \<and>
     (\<forall>notify. closeStream send_adb s notify mux' = Ret mux')"
proof (cases "stream_done st")
  case True
  then show ?thesis using assms(3) by (simp add: closeStream_def closed_off_def st_def)
next
  case False
  obtain mux' where m: "sendClose send_adb (ownId st) (guestId st) (shut_stream s mux) = Ret (mux', None)"
    "same_table mux' (shut_stream s mux)"
    "wire (tclient mux') = wire (tclient mux) @ adb_frame AdbCommandClose (ownId st) (guestId st) []"
    using mux_sends_up(2) [of "shut_stream s mux" "ownId st" "guestId st"] assms(1,2) by auto
  moreover have "stream_done (stream_heap mux' ! s)"
    using m(2) assms(3) by (simp add: same_table_def)
  ultimately show ?thesis
    using False by (simp add: closeStream_def closed_off_def st_def)
qed

lemma open_answer:
  assumes "can_send ok mux" "up (tclient mux)"
  shows "\<exists>mux'. handleOpen send_adb OpenStream guest raw mux = Ret mux' \<and> up (tclient mux') \<and>
     (case OpenStream (deviceId mux) (trim_nul raw) of
        Inl e \<Rightarrow> same_table mux' mux \<and> wire (tclient mux') = wire (tclient mux) @ adb_frame AdbCommandClose 0 guest []
      | Inr conn \<Rightarrow> same_table mux' (set_pump (length (stream_heap mux)) PumpReading (opened guest conn mux)) \<and>
          wire (tclient mux') = wire (tclient mux) @ adb_frame AdbCommandOkay (nextId mux + 1) guest [])"
proof (cases "OpenStream (deviceId mux) (trim_nul raw)")
  case (Inl e)
  with mux_sends_up(2) [OF assms, of 0 guest] show ?thesis by (auto simp: handleOpen_def)
next
  case (Inr conn)
  have o: "can_send ok (opened guest conn mux)" "up (tclient (opened guest conn mux))"
    "wire (tclient (opened guest conn mux)) = wire (tclient mux)"
    using assms by (simp_all add: can_send_def opened_def)
  obtain mux2 where m: "sendOkay send_adb (nextId mux + 1) guest (opened guest conn mux) = Ret (mux2, None)"
    "up (tclient mux2)" "same_table mux2 (opened guest conn mux)"
    "wire (tclient mux2) = wire (tclient mux) @ adb_frame AdbCommandOkay (nextId mux + 1) guest []"
    using mux_sends_up(1) [OF o(1,2), of "nextId mux + 1" guest] o(3) by auto
  then show ?thesis
    using Inr same_table_upd_stream [OF m(3), of "length (stream_heap mux)" "\<lambda>st. st\<lparr>pump := PumpReading\<rparr>"]
    by (simp add: handleOpen_def Let_def set_pump_def opened_def)
qed

lemma write_answer:
  assumes "can_send ok mux" "up (tclient mux)" "streams mux own = Some s" "s < length (stream_heap mux)"
    and "ownId (stream_heap mux ! s) = own" "\<not> stream_done (stream_heap mux ! s)"
    and "conn_Write (stream_conn (stream_heap mux ! s)) data = (c1, n, err)"
  defines "mux1 \<equiv> upd_stream s (\<lambda>st. st\<lparr>stream_conn := c1\<rparr>) mux"
  shows "\<exists>mux'. handleWrite send_adb guest own data mux = Ret mux' \<and>
     (if err = None
      then same_table mux' mux1 \<and> up (tclient mux') \<and>
        wire (tclient mux') = wire (tclient mux) @ adb_frame AdbCommandOkay own guest []
      else same_table mux' (shut_stream s mux1) \<and> wire (tclient mux') =
        wire (tclient mux) @ adb_frame AdbCommandClose own (guestId (stream_heap mux ! s)) [])"
proof -
  have mux1: "can_send ok mux1" "up (tclient mux1)" "s < length (stream_heap mux1)"
    and st1: "stream_heap mux1 ! s = (stream_heap mux ! s)\<lparr>stream_conn := c1\<rparr>"
    using assms(1,2,4) by (simp_all add: mux1_def stream_heap_upd_stream)
  have eq: "handleWrite send_adb guest own data mux =
      (case err of Some e \<Rightarrow> closeStream send_adb s True mux1
       | None \<Rightarrow> andThen (sendOkay send_adb own guest mux1) (\<lambda>(mux2, err).
           case err of Some e \<Rightarrow> closeStream send_adb s False mux2 | None \<Rightarrow> Ret mux2))"
    unfolding mux1_def by (simp add: handleWrite_def lookup_stream_def assms(3,7) Let_def)
  show ?thesis
  proof (cases err)
    case None
    with mux_sends_up(1) [OF mux1(1,2), of own guest] show ?thesis by (auto simp: eq mux1_def)
  next
    case (Some e)
    with close_once [OF mux1] st1 assms(5,6) show ?thesis
      by (auto simp: eq closed_off_def) (auto simp: mux1_def)
  qed
qed

lemma pump_relay:
  fixes s :: nat
  assumes "can_send ok mux" "up (tclient mux)" "s < length (stream_heap mux)" "length bs \<le> 0x8000"
  defines "st \<equiv> stream_heap mux ! s" and "mux1 \<equiv> upd_stream s (\<lambda>st. st\<lparr>sendPermit := False\<rparr>) mux"
  shows "\<exists>mux'. pump_send send_adb s bs readErr mux = Ret mux' \<and>
     same_table mux' (if readErr = None then set_pump s PumpReading mux1 else set_pump s PumpStopped (closed_off s mux1)) \<and>
     wire (tclient mux') = wire (tclient mux) @ adb_frame AdbCommandWrite (ownId st) (guestId st) bs @
       (if readErr = None \<or> stream_done st then [] else adb_frame AdbCommandClose (ownId st) (guestId st) [])"
proof -
  have mux1: "can_send ok mux1" "up (tclient mux1)" "wire (tclient mux1) = wire (tclient mux)"
    using assms(1,2) by (simp_all add: mux1_def)
  obtain mux2 where m2: "sendWrite send_adb (ownId st) (guestId st) bs mux1 = Ret (mux2, None)" "can_send ok mux2"
    "up (tclient mux2)" "same_table mux2 mux1"
    "wire (tclient mux2) = wire (tclient mux) @ adb_frame AdbCommandWrite (ownId st) (guestId st) bs"
    using mux_sends_up(3) [OF mux1(1,2) assms(4), of "ownId st" "guestId st"] mux1(3) by auto
  have eq: "pump_send send_adb s bs readErr mux = pump_after send_adb s readErr mux2"
    using m2(1) by (simp add: pump_send_def Let_def mux1_def st_def)
  have st2: "s < length (stream_heap mux2)" "stream_heap mux2 ! s = st\<lparr>sendPermit := False\<rparr>"
    using m2(4) assms(3) by (simp_all add: same_table_def mux1_def stream_heap_upd_stream st_def)
  show ?thesis
  proof (cases readErr)
    case None
    then show ?thesis
      using m2(5) same_table_upd_stream [OF m2(4)] by (simp add: eq [unfolded None] pump_after_def set_pump_def)
  next
    case (Some e)
    obtain mux3 where m3: "closeStream send_adb s True mux2 = Ret mux3" "same_table mux3 (closed_off s mux2)"
      "wire (tclient mux3) = wire (tclient mux2) @
        (if stream_done st then [] else adb_frame AdbCommandClose (ownId st) (guestId st) [])"
      using close_once [OF m2(2,3) st2(1)] st2(2) by auto
    have "same_table (set_pump s PumpStopped mux3) (set_pump s PumpStopped (closed_off s mux1))"
      unfolding set_pump_def
      by (rule same_table_upd_stream [OF same_table_trans [OF m3(2) same_table_closed_off [OF m2(4)]]])
    then show ?thesis
      using m3(1,3) m2(5) by (simp add: eq [unfolded Some] Some pump_after_def) (simp add: set_pump_def)
  qed
qed

end

interpretation client_up: transport_client_up client_ok SendAdbMessage client_wire client_writable
  by unfold_locales (use SendAdbMessage_up in fast)

text \<open>Every message of the guest, over any client that keeps the contract.\<close>

context transport_client
begin

lemma dispatch_outcome:
  assumes "mux_ok ok mux" "Payload message = Ret p" "length p \<le> 0xF000"
  shows "if \<exists>m. DecodeMessage p = Ret (Inr m) \<and> AdbCommand m \<in> {AdbCommandOpen, AdbCommandWrite} \<and> DataLength m \<ge> 0xFFFFFFE8
     then dispatch_data send_adb OpenStream (Inr message) mux = Panic
     else \<exists>mux'. dispatch_data send_adb OpenStream (Inr message) mux = Ret mux' \<and> mux_ok ok mux'"
proof -
  have c: "can_send ok mux" "table_ok mux" using assms(1) by (simp_all add: mux_ok_def)
  obtain res where res: "DecodeMessage p = Ret res" using DecodeMessage_returns by blast
  show ?thesis
  proof (cases res)
    case (Inl e)
    then show ?thesis using assms(1,2) res by (simp add: dispatch_data_def)
  next
    case (Inr m)
    have d: "dispatch_data send_adb OpenStream (Inr message) mux = dispatch_adb send_adb OpenStream m mux"
      using assms(2) res Inr by (simp add: dispatch_data_def)
    have data: "if DataLength m \<ge> 0xFFFFFFE8 then AdbData m = Panic \<and> DataString m = Panic
        else \<exists>bs. AdbData m = Ret bs \<and> DataString m = Ret (string_of_bytes bs)"
      using res Inr assms(3) by (intro decoded_data_iff) simp_all
    have "\<exists>mux'. handleOpen send_adb OpenStream guest raw mux = Ret mux' \<and> mux_ok ok mux'" for guest raw
      using handleOpen [OF c(1), where OpenStream = OpenStream and guest = guest and raw = raw]
        open_moves [OF assms(1), of OpenStream guest raw]
      by (auto simp: mux_moves_def elim!: returnsE)
    moreover have "\<exists>mux'. handleWrite send_adb guest own data mux = Ret mux' \<and> mux_ok ok mux'" for guest own data
    proof (cases "streams mux own")
      case None
      with assms(1) show ?thesis by (simp add: handleWrite_def lookup_stream_def)
    next
      case (Some s)
      obtain c1 n err where w: "conn_Write (stream_conn (stream_heap mux ! s)) data = (c1, n, err)"
        by (metis prod_cases3)
      from handleWrite [OF c(1) Some w, of guest] write_moves [OF assms(1), of guest own data]
      show ?thesis by (auto simp: mux_moves_def elim!: returnsE)
    qed
    moreover have "mux_ok ok (handleOkay own mux)" for own
      using okay_moves [OF assms(1)] by (simp add: mux_moves_def)
    moreover have "\<exists>mux'. handleClose send_adb own mux = Ret mux' \<and> mux_ok ok mux'" for own
    proof -
      have "\<exists>mux'. handleClose send_adb own mux = Ret mux'"
        using closeStream [OF c(1), of _ False] assms(1)
        by (auto simp: handleClose_def closeStream_def Let_def split: option.splits)
      with close_moves [OF assms(1)] show ?thesis by (auto simp: mux_moves_def)
    qed
    ultimately show ?thesis
      using data res Inr assms(1) unfolding d dispatch_adb_def by (auto simp: adb_command_defs split: if_splits)
  qed
qed

end

section \<open>A sample run for the witnesses\<close>

definition sample_client :: Client where
  "sample_client = fst (Start (Inr (fresh_conn [])) (CreateClient \<lparr>unix_seconds = 0, nanoseconds = 0\<rparr>))"

definition sample_mux :: "Client OwnerMultiplexer" where
  "sample_mux = NewOwnerMultiplexer ''emulator-5554'' sample_client"

definition sample_device :: open_stream where
  "sample_device device service = Inr (fresh_conn (bytes_of_string ''hi''))"

definition sample_stream :: ownerStream where
  "sample_stream = \<lparr>guestId = 7, ownId = 1, stream_conn = fresh_conn (bytes_of_string ''hi''), sendPermit = True,
     stream_done = False, pump = PumpReading\<rparr>"

lemma sample_client_ok: "client_ok sample_client" "client_writable sample_client" "client_wire sample_client = []"
  by (simp_all add: sample_client_def Start_def CreateClient_def client_ok_def client_writable_def client_wire_def
      good_pool_New) (simp add: fresh_conn_def)

lemma sample_mux_ok: "mux_ok client_ok sample_mux"
  by (simp add: sample_mux_def mux_ok_New sample_client_ok)

lemma sample_opened:
  obtains mux where "owner_run sample_mux [GuestOpened 7 ''shell:''] mux" "mux_ok client_ok mux"
    "stream_heap mux = [sample_stream]" "streams mux 1 = Some 0" "client_writable (tclient mux)"
proof -
  have parts: "can_send client_ok sample_mux" "client_writable (tclient sample_mux)" "stream_heap sample_mux = []" "nextId sample_mux = 0"
    using sample_mux_ok sample_client_ok by (simp_all add: mux_ok_def) (simp_all add: sample_mux_def NewOwnerMultiplexer_def)
  obtain mux where m: "handleOpen SendAdbMessage sample_device 7 ''shell:'' sample_mux = Ret mux"
    "same_table mux (set_pump 0 PumpReading (opened 7 (fresh_conn (bytes_of_string ''hi'')) sample_mux))"
    "client_writable (tclient mux)"
    using client_up.open_answer [OF parts(1,2), of sample_device 7 "''shell:''"] parts(3) by (auto simp: sample_device_def)
  have run: "owner_run sample_mux ([] @ [GuestOpened 7 ''shell:'']) mux"
    by (rule run_snoc [OF run_nil guest_open [OF m(1)]])
  then have "mux_ok client_ok mux" using owner_run_ok sample_mux_ok by blast
  with run m(2,3) parts(3,4) show ?thesis
    by (intro that) (auto simp: same_table_def set_pump_def upd_stream_def opened_def sample_stream_def)
qed

lemma sample_relay:
  assumes "mux_ok client_ok mux" "stream_heap mux = [sample_stream]"
  obtains mux' where "owner_run mux [DeviceRead 0, SentWrite 0 (bytes_of_string ''hi'')] mux'"
proof -
  have c: "can_send client_ok mux" using assms(1) by (simp add: mux_ok_def)
  let ?c1 = "(fresh_conn (bytes_of_string ''hi''))\<lparr>inbound := []\<rparr>" and ?hi = "bytes_of_string ''hi''"
  have r: "conn_Read (unat Adb_Message.MaxPayloadLength) 2 False (stream_conn (stream_heap mux ! 0)) = (?c1, ?hi, None)"
    using assms(2) by (simp add: conn_Read_def sample_stream_def fresh_conn_def Adb_Message.MaxPayloadLength_def)
  obtain mux1 where m1: "pump_read SendAdbMessage 0 2 False mux = Ret mux1" "can_send client_ok mux1"
    "same_table mux1 (set_pump 0 (PumpHolding ?hi None) (upd_stream 0 (\<lambda>st. st\<lparr>stream_conn := ?c1\<rparr>) mux))"
    using client.pump_read [OF c r] by (auto elim!: returnsE)
  have st1: "stream_heap mux1 = [sample_stream\<lparr>stream_conn := ?c1, pump := PumpHolding ?hi None\<rparr>]"
    using m1(3) assms(2) by (simp add: same_table_def set_pump_def upd_stream_def)
  obtain mux2 where m2: "pump_send SendAdbMessage 0 ?hi None mux1 = Ret mux2"
    using client.pump_send [OF m1(2), of ?hi 0 None] by (auto elim!: returnsE)
  have "mux_step SendAdbMessage client_step mux (DeviceRead 0) mux1"
    using assms(2) by (intro device_read [OF _ _ m1(1)]) (simp_all add: sample_stream_def)
  moreover have "mux_step SendAdbMessage client_step mux1 (SentWrite 0 ?hi) mux2"
    by (rule device_send [OF _ _ _ m2]) (simp_all add: st1 sample_stream_def)
  ultimately have "owner_run mux (([] @ [DeviceRead 0]) @ [SentWrite 0 ?hi]) mux2"
    by (blast intro: run_nil run_snoc)
  then show ?thesis by (intro that) simp
qed

section \<open>Properties\<close>

text \<open>
  C17.  In every state the owner can reach, whatever the order of dispatcher, pumps and client: ids
  are handed out in order, an id in the table leads to a live stream with that id, a finished
  stream has its connection closed, and, as long as the 32-bit counter has not wrapped, every
  live stream is in the table.
\<close>

theorem owner_invariant:
  assumes "client_ok c" "owner_run (NewOwnerMultiplexer device c) es mux"
  shows "client_ok (tclient mux) \<and>
     (\<forall>s < length (stream_heap mux). ownId (stream_heap mux ! s) = word_of_nat (Suc s)) \<and>
     (\<forall>own s. streams mux own = Some s \<longrightarrow> s < length (stream_heap mux) \<and>
        ownId (stream_heap mux ! s) = own \<and> \<not> stream_done (stream_heap mux ! s)) \<and>
     (\<forall>s < length (stream_heap mux). stream_done (stream_heap mux ! s) \<longrightarrow> conn_closed (stream_conn (stream_heap mux ! s))) \<and>
     (length (stream_heap mux) < 2 ^ 32 \<longrightarrow> (\<forall>s < length (stream_heap mux).
        \<not> stream_done (stream_heap mux ! s) \<longrightarrow> streams mux (ownId (stream_heap mux ! s)) = Some s))"
  using owner_run_ok [OF assms(2) mux_ok_New [OF assms(1)]]
  unfolding mux_ok_def can_send_def table_ok_def fresh_ids_def by blast

theorem owner_invariant_witness:
  "\<exists>mux. owner_run sample_mux [GuestOpened 7 ''shell:''] mux \<and> length (stream_heap mux) = 1 \<and>
     ownId (stream_heap mux ! 0) = 1 \<and> streams mux (ownId (stream_heap mux ! 0)) = Some 0"
proof -
  obtain mux where m: "owner_run sample_mux [GuestOpened 7 ''shell:''] mux" "stream_heap mux = [sample_stream]"
    by (rule sample_opened)
  from owner_invariant [OF sample_client_ok(1) m(1) [unfolded sample_mux_def]] m(2)
  have "ownId (stream_heap mux ! 0) = 1" "streams mux (ownId (stream_heap mux ! 0)) = Some 0"
    by (simp_all add: sample_stream_def)
  with m show ?thesis by auto
qed

text \<open>
  C18.  Flow control: over any stretch of a run, the owner relays at most one WRTE of a stream, plus
  one for each OKAY the guest sent for it meanwhile.
\<close>

theorem one_write_per_okay:
  assumes "client_ok c" "owner_run (NewOwnerMultiplexer device c) es0 mux" "owner_run mux es mux'"
    and "s < length (stream_heap mux)"
  shows "writes_sent s es \<le> (if sendPermit (stream_heap mux ! s) then 1 else 0) +
     okays_received (ownId (stream_heap mux ! s)) es"
  using run_stream [OF assms(3) _ assms(4)] owner_run_ok [OF assms(2) mux_ok_New [OF assms(1)]]
  by (simp split: if_splits)

theorem one_write_per_okay_witness:
  "\<exists>mux mux' es. owner_run sample_mux [GuestOpened 7 ''shell:''] mux \<and> owner_run mux es mux' \<and>
     writes_sent 0 es = 1 \<and> okays_received 1 es = 0 \<and> sendPermit (stream_heap mux ! 0)"
proof -
  let ?es = "[DeviceRead 0, SentWrite 0 (bytes_of_string ''hi'')]"
  obtain mux where m: "owner_run sample_mux [GuestOpened 7 ''shell:''] mux" "mux_ok client_ok mux"
    "stream_heap mux = [sample_stream]"
    by (rule sample_opened)
  obtain mux' where m': "owner_run mux ?es mux'" by (rule sample_relay [OF m(2,3)])
  from one_write_per_okay [OF sample_client_ok(1) m(1) [unfolded sample_mux_def] m', of 0] m(3)
  have "writes_sent 0 ?es \<le> 1 + okays_received 1 ?es" by (simp add: sample_stream_def)
  moreover have "writes_sent 0 ?es = 1" "okays_received 1 ?es = 0" by (simp_all add: writes_sent_def okays_received_def)
  ultimately show ?thesis using m m' by (intro exI [of _ mux] exI [of _ mux'] exI [of _ ?es]) (simp add: sample_stream_def)
qed



text \<open>
  C20.  The guest's bytes reach the device in order: while a stream is live, what was written to its
  connection grows by exactly the data of the WRTE messages for its id, in the order they came.
\<close>

theorem guest_bytes_in_order:
  assumes "client_ok c" "owner_run (NewOwnerMultiplexer device c) es0 mux" "owner_run mux es mux'"
    and "s < length (stream_heap mux)" "\<not> stream_done (stream_heap mux' ! s)" "length (stream_heap mux') < 2 ^ 32"
  shows "outbound (stream_conn (stream_heap mux' ! s)) =
     outbound (stream_conn (stream_heap mux ! s)) @ written (ownId (stream_heap mux ! s)) es"
  using run_written [OF assms(3) _ assms(4-6)] owner_run_ok [OF assms(2) mux_ok_New [OF assms(1)]] by blast

theorem guest_bytes_in_order_witness:
  "\<exists>mux mux'. owner_run sample_mux [GuestOpened 7 ''shell:''] mux \<and>
     owner_run mux [GuestWrote 1 (bytes_of_string ''ls'')] mux' \<and>
     outbound (stream_conn (stream_heap mux' ! 0)) = bytes_of_string ''ls''"
proof -
  let ?ls = "bytes_of_string ''ls''"
  obtain mux where m: "owner_run sample_mux [GuestOpened 7 ''shell:''] mux" "mux_ok client_ok mux"
    "stream_heap mux = [sample_stream]" "streams mux 1 = Some 0" "client_writable (tclient mux)"
    by (rule sample_opened)
  let ?c1 = "(fresh_conn (bytes_of_string ''hi''))\<lparr>outbound := ?ls\<rparr>"
  have c: "can_send client_ok mux" using m(2) by (simp add: mux_ok_def)
  have w: "conn_Write (stream_conn (stream_heap mux ! 0)) ?ls = (?c1, 2, None)"
    using m(3) by (simp add: sample_stream_def conn_Write_def fresh_conn_def)
  obtain mux' where m': "handleWrite SendAdbMessage 7 1 ?ls mux = Ret mux'"
    "same_table mux' (upd_stream 0 (\<lambda>st. st\<lparr>stream_conn := ?c1\<rparr>) mux)"
    using client_up.write_answer [OF c m(5,4) _ _ _ w, of 7] m(3) by (auto simp: sample_stream_def)
  have heap: "stream_heap mux' = [sample_stream\<lparr>stream_conn := ?c1\<rparr>]"
    using m'(2) m(3) by (simp add: same_table_def upd_stream_def)
  have run: "owner_run mux ([] @ [GuestWrote 1 ?ls]) mux'"
    by (rule run_snoc [OF run_nil guest_write [OF m'(1)]])
  from guest_bytes_in_order [OF sample_client_ok(1) m(1) [unfolded sample_mux_def] run, of 0] heap m(3)
  have "outbound (stream_conn (stream_heap mux' ! 0)) = ?ls"
    by (simp add: sample_stream_def written_def fresh_conn_def)
  with m(1) run show ?thesis by auto
qed

text \<open>
  A pump that holds data and the permit writes exactly one WRTE frame with these bytes to the
  transporter, gives the permit up, and reads on; if the device had ended it also closes the stream
  and sends one CLSE, unless the stream was closed already.
\<close>

theorem pump_sends_one_write:
  fixes s :: nat
  assumes "mux_ok client_ok mux" "client_writable (tclient mux)" "s < length (stream_heap mux)"
    and "pump (stream_heap mux ! s) = PumpHolding bs readErr"
  shows "\<exists>mux'. pump_send SendAdbMessage s bs readErr mux = Ret mux' \<and>
     \<not> sendPermit (stream_heap mux' ! s) \<and>
     pump (stream_heap mux' ! s) = (if readErr = None then PumpReading else PumpStopped) \<and>
     stream_done (stream_heap mux' ! s) = (stream_done (stream_heap mux ! s) \<or> readErr \<noteq> None) \<and>
     client_wire (tclient mux') = client_wire (tclient mux) @
       adb_frame AdbCommandWrite (ownId (stream_heap mux ! s)) (guestId (stream_heap mux ! s)) bs @
       (if readErr = None \<or> stream_done (stream_heap mux ! s) then []
        else adb_frame AdbCommandClose (ownId (stream_heap mux ! s)) (guestId (stream_heap mux ! s)) [])"
proof -
  have c: "can_send client_ok mux" "length bs \<le> 0x8000"
    using assms(1,3,4) by (simp_all add: mux_ok_def table_ok_def pump_fits_def)
  from client_up.pump_relay [OF c(1) assms(2,3) c(2), of readErr] show ?thesis
    using assms(3) by (auto simp: same_table_def set_pump_nth closed_off_nth stream_heap_upd_stream)
qed

theorem pump_sends_one_write_witness:
  "\<exists>mux mux'. stream_heap mux = [sample_stream\<lparr>pump := PumpHolding [1] None\<rparr>] \<and>
     pump_send SendAdbMessage 0 [1] None mux = Ret mux' \<and> \<not> sendPermit (stream_heap mux' ! 0) \<and>
     client_wire (tclient mux') = client_wire (tclient mux) @ adb_frame AdbCommandWrite 1 7 [1]"
proof -
  obtain mux where m: "mux_ok client_ok mux" "stream_heap mux = [sample_stream]" "client_writable (tclient mux)"
    by (rule sample_opened)
  let ?mux = "set_pump 0 (PumpHolding [1] None) mux"
  have ok: "mux_ok client_ok ?mux"
    using m(1,2) table_ok_set_pump [of mux 0 "PumpHolding [1] None"] by (simp add: mux_ok_def) (simp add: set_pump_def)
  have heap: "stream_heap ?mux = [sample_stream\<lparr>pump := PumpHolding [1] None\<rparr>]" "tclient ?mux = tclient mux"
    using m(2) by (simp_all add: set_pump_def upd_stream_def)
  from pump_sends_one_write [OF ok, of 0 "[1]" None] m(3) heap
  have "\<exists>mux'. pump_send SendAdbMessage 0 [1] None ?mux = Ret mux' \<and> \<not> sendPermit (stream_heap mux' ! 0) \<and>
     client_wire (tclient mux') = client_wire (tclient ?mux) @ adb_frame AdbCommandWrite 1 7 [1]"
    by (auto simp: sample_stream_def)
  with heap(1) show ?thesis by blast
qed

text \<open>
  An OPEN is answered.  If the adb server opens the service, the stream gets the next id, is in
  the table with its permit and a running pump, and the guest gets OKAY with both ids; if not,
  the table stays and the guest gets CLSE with id 0 for its own id.
\<close>

theorem open_is_answered:
  assumes "mux_ok client_ok mux" "client_writable (tclient mux)"
  shows "\<exists>mux'. handleOpen SendAdbMessage OpenStream guest raw mux = Ret mux' \<and> mux_ok client_ok mux' \<and>
     (case OpenStream (deviceId mux) (trim_nul raw) of
        Inl e \<Rightarrow> streams mux' = streams mux \<and> stream_heap mux' = stream_heap mux \<and>
          client_wire (tclient mux') = client_wire (tclient mux) @ adb_frame AdbCommandClose 0 guest []
      | Inr conn \<Rightarrow> (let own = nextId mux + 1; s = length (stream_heap mux) in
          streams mux' = (streams mux)(own \<mapsto> s) \<and>
          stream_heap mux' = stream_heap mux @ [\<lparr>guestId = guest, ownId = own, stream_conn = conn,
            sendPermit = True, stream_done = False, pump = PumpReading\<rparr>] \<and>
          client_wire (tclient mux') = client_wire (tclient mux) @ adb_frame AdbCommandOkay own guest []))"
proof -
  have c: "can_send client_ok mux" using assms(1) by (simp add: mux_ok_def)
  obtain mux' where m: "handleOpen SendAdbMessage OpenStream guest raw mux = Ret mux'"
    "case OpenStream (deviceId mux) (trim_nul raw) of
        Inl e \<Rightarrow> same_table mux' mux \<and> client_wire (tclient mux') = client_wire (tclient mux) @ adb_frame AdbCommandClose 0 guest []
      | Inr conn \<Rightarrow> same_table mux' (set_pump (length (stream_heap mux)) PumpReading (opened guest conn mux)) \<and>
          client_wire (tclient mux') = client_wire (tclient mux) @ adb_frame AdbCommandOkay (nextId mux + 1) guest []"
    using client_up.open_answer [OF c assms(2), of OpenStream guest raw] by blast
  have "mux_ok client_ok mux'" using client.open_moves [OF assms(1) m(1)] by (simp add: mux_moves_def)
  with m show ?thesis
    by (cases "OpenStream (deviceId mux) (trim_nul raw)")
      (auto simp: same_table_def set_pump_def upd_stream_def opened_def Let_def)
qed

theorem open_is_answered_witness:
  "\<exists>mux'. handleOpen SendAdbMessage (\<lambda>d s. Inl (ErrSmartSocket s)) 7 ''shell:'' sample_mux = Ret mux' \<and>
     stream_heap mux' = [] \<and> client_wire (tclient mux') = adb_frame AdbCommandClose 0 7 []"
proof -
  have s: "client_writable (tclient sample_mux)" "stream_heap sample_mux = []" "client_wire (tclient sample_mux) = []"
    using sample_client_ok by (simp_all add: sample_mux_def NewOwnerMultiplexer_def)
  from open_is_answered [OF sample_mux_ok s(1), of "\<lambda>d s. Inl (ErrSmartSocket s)" 7 "''shell:''"] s
  show ?thesis by auto
qed

text \<open>
  A WRTE is delivered and answered.  For an id that is not in the table nothing happens.  For a
  stream, its data go to the device in full and the guest gets OKAY; if the device refuses them,
  the stream leaves the table, its connection is closed, and the guest gets CLSE.
\<close>

theorem write_is_answered:
  assumes "mux_ok client_ok mux" "client_writable (tclient mux)"
  shows "\<exists>mux'. handleWrite SendAdbMessage guest own data mux = Ret mux' \<and> mux_ok client_ok mux' \<and>
     (case streams mux own of
        None \<Rightarrow> mux' = mux
      | Some s \<Rightarrow>
         (case conn_Write (stream_conn (stream_heap mux ! s)) data of (c1, n, err) \<Rightarrow>
            if err = None
            then streams mux' = streams mux \<and>
              stream_heap mux' = (stream_heap mux)[s := (stream_heap mux ! s)\<lparr>stream_conn := c1\<rparr>] \<and>
              outbound c1 = outbound (stream_conn (stream_heap mux ! s)) @ data \<and>
              client_wire (tclient mux') = client_wire (tclient mux) @ adb_frame AdbCommandOkay own guest []
            else streams mux' own = None \<and> conn_closed (stream_conn (stream_heap mux' ! s)) \<and>
              client_wire (tclient mux') = client_wire (tclient mux) @
                adb_frame AdbCommandClose own (guestId (stream_heap mux ! s)) []))"
proof (cases "streams mux own")
  case None
  with assms(1) show ?thesis by (simp add: handleWrite_def lookup_stream_def)
next
  case (Some s)
  have c: "can_send client_ok mux" "table_ok mux" using assms(1) by (simp_all add: mux_ok_def)
  have s: "s < length (stream_heap mux)" "ownId (stream_heap mux ! s) = own" "\<not> stream_done (stream_heap mux ! s)"
    using lookup_ok [OF c(2) Some] by simp_all
  obtain c1 n err where w: "conn_Write (stream_conn (stream_heap mux ! s)) data = (c1, n, err)"
    by (metis prod_cases3)
  let ?mux1 = "upd_stream s (\<lambda>st. st\<lparr>stream_conn := c1\<rparr>) mux"
  obtain mux' where m: "handleWrite SendAdbMessage guest own data mux = Ret mux'"
    "if err = None
      then same_table mux' ?mux1 \<and> client_writable (tclient mux') \<and> client_wire (tclient mux') = client_wire (tclient mux) @ adb_frame AdbCommandOkay own guest []
      else same_table mux' (shut_stream s ?mux1) \<and> client_wire (tclient mux') =
        client_wire (tclient mux) @ adb_frame AdbCommandClose own (guestId (stream_heap mux ! s)) []"
    using client_up.write_answer [OF c(1) assms(2) Some s w, of guest] by blast
  have ok: "mux_ok client_ok mux'" using client.write_moves [OF assms(1) m(1)] by (simp add: mux_moves_def)
  show ?thesis
  proof (cases err)
    case None
    then have "n = length data" using w conn_Write_count by simp
    with conn_Write_prefix [OF w] None m ok Some w show ?thesis
      by (simp add: same_table_def) (simp add: upd_stream_def)
  next
    case (Some e)
    with m ok w \<open>streams mux own = Some s\<close> s show ?thesis
      by (simp add: same_table_def) (simp add: upd_stream_def)
  qed
qed

theorem write_is_answered_witness:
  "\<exists>mux mux'. owner_run sample_mux [GuestOpened 7 ''shell:''] mux \<and>
     handleWrite SendAdbMessage 7 1 (bytes_of_string ''ls'') mux = Ret mux' \<and>
     client_wire (tclient mux') = client_wire (tclient mux) @ adb_frame AdbCommandOkay 1 7 []"
proof -
  obtain mux where m: "owner_run sample_mux [GuestOpened 7 ''shell:''] mux" "mux_ok client_ok mux"
    "stream_heap mux = [sample_stream]" "streams mux 1 = Some 0" "client_writable (tclient mux)"
    by (rule sample_opened)
  have "conn_Write (stream_conn sample_stream) (bytes_of_string ''ls'') =
      ((fresh_conn (bytes_of_string ''hi''))\<lparr>outbound := bytes_of_string ''ls''\<rparr>, 2, None)"
    by (simp add: sample_stream_def conn_Write_def fresh_conn_def)
  with write_is_answered [OF m(2,5), of 7 1 "bytes_of_string ''ls''"] m(3,4)
  have "\<exists>mux'. handleWrite SendAdbMessage 7 1 (bytes_of_string ''ls'') mux = Ret mux' \<and>
     client_wire (tclient mux') = client_wire (tclient mux) @ adb_frame AdbCommandOkay 1 7 []"
    by (auto simp del: bytes_of_string_simps)
  with m(1) show ?thesis by blast
qed

text \<open>
  A stream is closed once: whoever comes first closes the connection, takes the id out of the
  table and sends at most one CLSE; whoever comes later changes nothing and sends nothing.
\<close>

theorem stream_closes_once:
  assumes "mux_ok client_ok mux" "client_writable (tclient mux)" "streams mux own = Some s"
  shows "\<exists>mux'. closeStream SendAdbMessage s True mux = Ret mux' \<and> mux_ok client_ok mux' \<and>
     streams mux' own = None \<and> conn_closed (stream_conn (stream_heap mux' ! s)) \<and>
     client_wire (tclient mux') = client_wire (tclient mux) @
       adb_frame AdbCommandClose own (guestId (stream_heap mux ! s)) [] \<and>
     (\<forall>notify. closeStream SendAdbMessage s notify mux' = Ret mux')"
proof -
  have c: "can_send client_ok mux" "table_ok mux" using assms(1) by (simp_all add: mux_ok_def)
  have s: "s < length (stream_heap mux)" "ownId (stream_heap mux ! s) = own" "\<not> stream_done (stream_heap mux ! s)"
    using lookup_ok [OF c(2) assms(3)] by simp_all
  obtain mux' where m: "closeStream SendAdbMessage s True mux = Ret mux'" "same_table mux' (closed_off s mux)"
    "client_wire (tclient mux') = client_wire (tclient mux) @
       adb_frame AdbCommandClose own (guestId (stream_heap mux ! s)) []"
    "\<forall>notify. closeStream SendAdbMessage s notify mux' = Ret mux'"
    using client_up.close_once [OF c(1) assms(2) s(1)] s by auto
  have "can_send client_ok mux'" using client.closeStream [OF c(1), of s True] m(1) by simp
  with same_table_ok [OF m(2) table_ok_closed_off [OF c(2) s(1)]] have "mux_ok client_ok mux'"
    by (simp add: mux_ok_def)
  with m s show ?thesis by (simp add: same_table_def closed_off_def)
qed

theorem stream_closes_once_witness:
  "\<exists>mux mux'. owner_run sample_mux [GuestOpened 7 ''shell:''] mux \<and>
     closeStream SendAdbMessage 0 True mux = Ret mux' \<and> streams mux' 1 = None \<and>
     closeStream SendAdbMessage 0 True mux' = Ret mux'"
proof -
  obtain mux where m: "owner_run sample_mux [GuestOpened 7 ''shell:''] mux" "mux_ok client_ok mux"
    "streams mux 1 = Some 0" "client_writable (tclient mux)"
    by (rule sample_opened)
  with stream_closes_once [OF m(2,4,3)] show ?thesis by blast
qed

text \<open>
  C21.  A message from the transporter makes the owner panic exactly when it decodes to an OPEN or a WRTE
  whose declared length is at least 0xFFFFFFE8, where the length check has wrapped; every other
  message is handled, invalid ones included, and the invariant is kept.
\<close>

theorem dispatch_panics_iff:
  assumes "mux_ok client_ok mux" "Payload message = Ret p" "length p \<le> 0xF000"
  shows "if \<exists>m. DecodeMessage p = Ret (Inr m) \<and> AdbCommand m \<in> {AdbCommandOpen, AdbCommandWrite} \<and> DataLength m \<ge> 0xFFFFFFE8
     then dispatch_data SendAdbMessage OpenStream (Inr message) mux = Panic
     else \<exists>mux'. dispatch_data SendAdbMessage OpenStream (Inr message) mux = Ret mux' \<and> mux_ok client_ok mux'"
  by (rule client.dispatch_outcome [OF assms])

theorem dispatch_panics_iff_witness:
  "\<exists>message. dispatch_data SendAdbMessage sample_device (Inr message) sample_mux = Panic"
proof -
  let ?p = "PutUint32 AdbCommandOpen @ PutUint32 1 @ PutUint32 0 @ PutUint32 0xFFFFFFE8 @
       PutUint32 0 @ PutUint32 (AdbCommandOpen XOR magicConstant)"
  let ?m = "\<lparr>adbBuffer = ?p\<rparr>"
  obtain message where "holds_frame message CommandAdbTransport ?p"
    using SetRawPayload_ok [of "SetDirectCommand CommandAdbTransport CreateTransporterMessage" ?p] by auto
  then have payload: "Payload message = Ret ?p"
    using Payload_ok [of message] by (auto simp: holds_frame_def)
  have f: "AdbCommand ?m = AdbCommandOpen" "DataLength ?m = 0xFFFFFFE8" "Magic ?m = AdbCommandOpen XOR magicConstant"
    by (simp_all add: AdbCommand_def DataLength_def Magic_def slice_def)
  have "DecodeMessage ?p = Ret (Inr ?m)"
    by (rule DecodeMessage_accepts [OF _ _ _ f]) (simp_all add: AdbHeaderSize_def)
  with f have "\<exists>m. DecodeMessage ?p = Ret (Inr m) \<and> AdbCommand m \<in> {AdbCommandOpen, AdbCommandWrite} \<and> DataLength m \<ge> 0xFFFFFFE8"
    by (intro exI [of _ ?m]) simp
  with dispatch_panics_iff [OF sample_mux_ok payload, of sample_device] show ?thesis by auto
qed

end
