(* ===== verification/Relay.thy ===== *)
theory Relay
  imports Client_Steps
begin

text \<open>
  \<open>client/relay/relay.go\<close>: the two pumps between a local ADB connection and the transporter client,
  and \<open>Run\<close>, which starts them, waits for the first to end and then stops the other.  A turn
  of a pump's loop is one step; \<open>pumpLocalToRemote\<close> and \<open>pumpRemoteToLocal\<close> are the loops run on
  their own, \<open>relay_step\<close> any interleaving of both with the client's reader.
\<close>

section \<open>The pumps\<close>

definition dispose_received :: "nat \<Rightarrow> Client \<Rightarrow> Client \<times> error option" where
  "dispose_received a c = (case Dispose a (messagePool c) of (pool, err) \<Rightarrow> (c\<lparr>messagePool := pool\<rparr>, err))"

definition handleIncoming :: "net_conn \<Rightarrow> nat \<Rightarrow> Client \<Rightarrow> ((net_conn \<times> Client) \<times> error option) outcome" where
  "handleIncoming conn a c =
     (case Data a (messagePool c) of
        Inl e \<Rightarrow> Ret ((conn, c), Some e)
      | Inr message \<Rightarrow>
        if Command message \<noteq> CommandAdbTransport
        then (case dispose_received a c of (c1, err) \<Rightarrow> Ret ((conn, c1), err))
        else andThen (Payload message) (\<lambda>payload.
          andThen (DecodeMessage payload) (\<lambda>decoded.
            case decoded of
              Inl e \<Rightarrow> (case dispose_received a c of (c1, err) \<Rightarrow> Ret ((conn, c1), err))
            | Inr adbMessage \<Rightarrow>
              andThen (AdbWrite adbMessage conn) (\<lambda>(conn1, writeErr).
                case dispose_received a c of (c1, disposeErr) \<Rightarrow>
                if disposeErr \<noteq> None \<and> writeErr = None then Ret ((conn1, c1), disposeErr)
                else Ret ((conn1, c1), writeErr)))))"

text \<open>
  One turn of each loop; \<open>stopped\<close> is what \<open>ctx.Err()\<close> says, or whether \<open>select\<close> took the
  \<open>Done\<close> arm.  \<open>pumpLocalToRemote\<close> reuses one message buffer.
\<close>

definition local_turn ::
  "bool \<Rightarrow> AdbMessage \<times> net_conn \<times> Client \<Rightarrow> ((AdbMessage \<times> net_conn \<times> Client) \<times> error option) outcome" where
  "local_turn stopped = (\<lambda>(message, conn, c).
     if stopped then Ret ((message, conn, c), Some ErrContextCancelled)
     else andThen (AdbRead message conn) (\<lambda>(message1, conn1, err).
       case err of Some e \<Rightarrow> Ret ((message1, conn1, c), Some e)
       | None \<Rightarrow> andThen (SendAdbMessage message1 c) (\<lambda>(c1, err). Ret ((message1, conn1, c1), err))))"

definition remote_turn ::
  "bool \<Rightarrow> net_conn \<times> Client \<Rightarrow> ((net_conn \<times> Client) \<times> error option) outcome" where
  "remote_turn stopped = (\<lambda>(conn, c).
     if stopped then Ret ((conn, c), Some ErrContextCancelled)
     else andThen (Messages c) (\<lambda>(c1, received).
       case received of None \<Rightarrow> Ret ((conn, c1), Some ErrTransportClosed)
       | Some a \<Rightarrow> handleIncoming conn a c1))"

text \<open>A message that was read: header and data, taken off the connection one after the other.\<close>

lemma AdbRead_cases:
  assumes "AdbRead m conn = Ret (m1, conn1, None)"
  obtains c1 h body place where "ReadFull conn 24 = (c1, h, None)" "adb_command_ok (AdbCommand (adb_write_at 0 h m))"
    "DataLength (adb_write_at 0 h m) \<le> MaxPayloadLength"
    "go_slice 0 (unat (DataLength (adb_write_at 0 h m))) (adbDataBuffer (adb_write_at 0 h m)) = Ret place"
    "ReadFull c1 (length place) = (conn1, body, None)" "m1 = adb_write_at 24 body (adb_write_at 0 h m)"
proof -
  obtain c1 h e where h: "ReadFull conn 24 = (c1, h, e)" by (metis prod_cases3)
  let ?m = "adb_write_at 0 h m"
  have none: "e = None" "adb_command_ok (AdbCommand ?m)" "\<not> DataLength ?m > MaxPayloadLength"
    using assms h by (auto simp: AdbRead_def Let_def adb_command_ok_def split: option.splits if_splits)
  obtain place where p: "go_slice 0 (unat (DataLength ?m)) (adbDataBuffer ?m) = Ret place"
    "(case ReadFull c1 (length place) of (c2, body, e2) \<Rightarrow> Ret (adb_write_at 24 body ?m, c2, e2)) = Ret (m1, conn1, None)"
    using assms h none by (auto simp: AdbRead_def Let_def andThen_eq_Ret split: option.splits)
  obtain c2 body e2 where "ReadFull c1 (length place) = (c2, body, e2)" by (metis prod_cases3)
  with p h none show thesis by (intro that [of c1 h place body]) auto
qed

text \<open>Every turn of the local loop that goes on has taken at least a header off the connection.\<close>

lemma AdbRead_consumes:
  assumes "AdbRead m conn = Ret (m1, conn1, None)"
  shows "length (inbound conn1) < length (inbound conn)"
proof -
  obtain c1 h place body where r: "ReadFull conn 24 = (c1, h, None)" "ReadFull c1 (length (place :: bytes)) = (conn1, body, None)"
    by (rule AdbRead_cases [OF assms])
  have "length (inbound c1) < length (inbound conn)" using r(1) by (auto simp: ReadFull_def split: if_splits)
  with ReadFull_inbound [OF r(2)] show ?thesis by simp
qed

function pumpLocalToRemote ::
  "(nat \<Rightarrow> bool) \<Rightarrow> nat \<Rightarrow> AdbMessage \<times> net_conn \<times> Client \<Rightarrow> ((AdbMessage \<times> net_conn \<times> Client) \<times> error) outcome" where
  "pumpLocalToRemote stopped i st =
     andThen (local_turn (stopped i) st) (\<lambda>(st1, err).
       case err of Some e \<Rightarrow> Ret (st1, e) | None \<Rightarrow> pumpLocalToRemote stopped (Suc i) st1)"
  by pat_completeness auto

lemma local_turn_consumes:
  assumes "local_turn b (m, conn, c) = Ret ((m1, conn1, c1), None)"
  shows "length (inbound conn1) < length (inbound conn)"
  using assms by (auto simp: local_turn_def andThen_eq_Ret dest: AdbRead_consumes split: if_splits option.splits)

termination pumpLocalToRemote
  by (relation "measure (\<lambda>(stopped, i, m, conn, c). length (inbound conn))")
    (auto dest: local_turn_consumes)

declare pumpLocalToRemote.simps [simp del]

text \<open>
  The other loop ends because every message takes a header off the transporter connection, but only if
  the pooled buffers are well-formed; \<open>None\<close> would be a loop that never ends.
\<close>

partial_function (option) pumpRemoteToLocal ::
  "(nat \<Rightarrow> bool) \<Rightarrow> nat \<Rightarrow> net_conn \<times> Client \<Rightarrow> ((net_conn \<times> Client) \<times> error) outcome option" where
  "pumpRemoteToLocal stopped i st =
     (case remote_turn (stopped i) st of
        Ret (st1, err) \<Rightarrow>
          (case err of Some e \<Rightarrow> Some (Ret (st1, e)) | None \<Rightarrow> pumpRemoteToLocal stopped (Suc i) st1)
      | Panic \<Rightarrow> Some Panic
      | Blocked \<Rightarrow> Some Blocked)"

section \<open>\<open>Run\<close>\<close>

text \<open>
  \<open>Run\<close> with its two goroutines.  \<open>local_end\<close> and \<open>remote_end\<close> are what the pumps put into the
  error channel, \<open>run_error\<close> the first value \<open>Run\<close> took out of it; then it cancels the context,
  closes the connection and waits for the other pump.
\<close>

record relay =
  relay_message :: AdbMessage
  relay_conn :: net_conn
  relay_client :: Client
  ctx_over :: bool
  local_end :: "error option"
  remote_end :: "error option"
  run_error :: "error option"

definition Run_start :: "net_conn \<Rightarrow> Client \<Rightarrow> relay" where
  "Run_start conn c =
     \<lparr>relay_message = CreateMessage, relay_conn = conn, relay_client = c, ctx_over = False,
      local_end = None, remote_end = None, run_error = None\<rparr>"

definition Run_stop :: "error \<Rightarrow> relay \<Rightarrow> relay" where
  "Run_stop e r = r\<lparr>run_error := Some e, ctx_over := True, relay_conn := fst (conn_Close (relay_conn r))\<rparr>"

definition Run_returns :: "relay \<Rightarrow> error option" where
  "Run_returns r = (if local_end r \<noteq> None \<and> remote_end r \<noteq> None then run_error r else None)"

datatype relay_event =
    Forwarded bytes
  | LocalEnded error
  | Delivered u32 bytes
  | RemoteEnded error
  | ReaderTurn
  | ContextOver
  | Stopping error

definition local_state :: "relay \<Rightarrow> AdbMessage \<times> net_conn \<times> Client" where
  "local_state r = (relay_message r, relay_conn r, relay_client r)"

inductive relay_step :: "relay \<Rightarrow> relay_event \<Rightarrow> relay \<Rightarrow> bool" where
  forwards: "local_end r = None \<Longrightarrow> local_turn (ctx_over r) (local_state r) = Ret ((m, conn, c), None) \<Longrightarrow>
     AdbBytes m = Ret bs \<Longrightarrow>
     relay_step r (Forwarded bs) (r\<lparr>relay_message := m, relay_conn := conn, relay_client := c\<rparr>)"
| local_ends: "local_end r = None \<Longrightarrow> local_turn (ctx_over r) (local_state r) = Ret ((m, conn, c), Some e) \<Longrightarrow>
     relay_step r (LocalEnded e)
       (r\<lparr>relay_message := m, relay_conn := conn, relay_client := c, local_end := Some e\<rparr>)"
| delivers: "remote_end r = None \<Longrightarrow> Messages (relay_client r) = Ret (c1, Some a) \<Longrightarrow>
     Data a (messagePool c1) = Inr message \<Longrightarrow> Payload message = Ret payload \<Longrightarrow>
     remote_turn False (relay_conn r, relay_client r) = Ret ((conn, c), None) \<Longrightarrow>
     relay_step r (Delivered (Command message) payload) (r\<lparr>relay_conn := conn, relay_client := c\<rparr>)"
| remote_ends: "remote_end r = None \<Longrightarrow> done_arm \<longrightarrow> ctx_over r \<Longrightarrow>
     remote_turn done_arm (relay_conn r, relay_client r) = Ret ((conn, c), Some e) \<Longrightarrow>
     relay_step r (RemoteEnded e) (r\<lparr>relay_conn := conn, relay_client := c, remote_end := Some e\<rparr>)"
| reader_turn: "reader (relay_client r) = Reading \<Longrightarrow> startReader (relay_client r) = Ret c \<Longrightarrow>
     relay_step r ReaderTurn (r\<lparr>relay_client := c\<rparr>)"
| context_over: "relay_step r ContextOver (r\<lparr>ctx_over := True\<rparr>)"
| stopping: "run_error r = None \<Longrightarrow> local_end r = Some e \<or> remote_end r = Some e \<Longrightarrow>
     relay_step r (Stopping e) (Run_stop e r)"

inductive relay_run :: "relay \<Rightarrow> relay_event list \<Rightarrow> relay \<Rightarrow> bool" where
  relay_nil: "relay_run r [] r"
| relay_snoc: "relay_run r es r1 \<Longrightarrow> relay_step r1 e r2 \<Longrightarrow> relay_run r (es @ [e]) r2"

inductive_cases relay_stepE: "relay_step r e r'"

end
