(* ===== verification/Relay_Properties.thy ===== *)
theory Relay_Properties
  imports Relay
begin

text \<open>
  What the relay guarantees: no turn of a pump panics, each pump ends, ADB messages cross in both
  directions unchanged and in order, every received buffer goes back to the pool, and nothing is
  relayed once \<open>Run\<close> has decided to stop.
\<close>

section \<open>Reading an ADB message\<close>

lemma adb_wf_write_at: "adb_wf m \<Longrightarrow> i + length bs \<le> 0x8018 \<Longrightarrow> adb_wf (adb_write_at i bs m)"
  by (simp add: adb_wf_def adb_write_at_def)

text \<open>On every stream; a message that was read holds exactly the bytes it took off the stream.\<close>

lemma AdbRead_returns:
  assumes "adb_wf m"
  shows "returns (\<lambda>(m1, conn1, e). adb_wf m1 \<and> outbound conn1 = outbound conn \<and> conn_closed conn1 = conn_closed conn) (AdbRead m conn)"
proof -
  obtain c1 h e where h: "ReadFull conn 24 = (c1, h, e)" by (metis prod_cases3)
  let ?m = "adb_write_at 0 h m"
  have wf: "adb_wf ?m" using adb_wf_write_at [OF assms, of 0 h] ReadFull_le [OF h] by simp
  have "unat (DataLength ?m) \<le> length (adbDataBuffer ?m)" if "\<not> DataLength ?m > MaxPayloadLength"
    using that wf by (simp add: adb_wf_def adbDataBuffer_def MaxPayloadLength_def word_less_nat_alt)
  then have slice: "go_slice 0 (unat (DataLength ?m)) (adbDataBuffer ?m) = Ret (take (unat (DataLength ?m)) (adbDataBuffer ?m))"
    if "\<not> DataLength ?m > MaxPayloadLength"
    using that by (simp add: slice_0)
  have body: "adb_wf (adb_write_at 24 body ?m) \<and> outbound c2 = outbound conn \<and> conn_closed c2 = conn_closed conn"
    if "ReadFull c1 n = (c2, body, e2)" "n \<le> 0x8000" for n c2 body e2
    using adb_wf_write_at [OF wf, of 24 body] ReadFull_le [OF that(1)] that(2) ReadFull_outbound [OF that(1)]
      ReadFull_outbound [OF h] by simp
  have "length (take (unat (DataLength ?m)) (adbDataBuffer ?m)) \<le> 0x8000" using wf by (simp add: adb_wf_def adbDataBuffer_def)
  with wf slice body ReadFull_outbound [OF h] show ?thesis
    by (auto simp: AdbRead_def h Let_def simp del: length_take split: option.split prod.split)
qed

lemma AdbRead_frame:
  assumes "adb_wf m" "AdbRead m conn = Ret (m1, conn1, None)"
  shows "\<exists>bs. AdbBytes m1 = Ret bs \<and> inbound conn = bs @ inbound conn1 \<and> length bs \<le> 0x8018"
proof -
  obtain c1 h body place where r: "ReadFull conn 24 = (c1, h, None)"
    "DataLength (adb_write_at 0 h m) \<le> MaxPayloadLength"
    "go_slice 0 (unat (DataLength (adb_write_at 0 h m))) (adbDataBuffer (adb_write_at 0 h m)) = Ret place"
    "ReadFull c1 (length place) = (conn1, body, None)" "m1 = adb_write_at 24 body (adb_write_at 0 h m)"
    by (rule AdbRead_cases [OF assms(2)])
  let ?m = "adb_write_at 0 h m" and ?n = "unat (DataLength (adb_write_at 0 h m))"
  have h: "length h = 24" using ReadFull_length [OF r(1)] .
  have n: "?n \<le> 0x8000" using r(2) by (simp add: MaxPayloadLength_def word_le_nat_alt)
  have "length place = ?n" using r(3) by (auto simp: go_slice_def split: if_splits)
  then have body: "length body = ?n" using ReadFull_length [OF r(4)] by simp
  have len: "length (adbBuffer m) = 0x8018" using assms(1) by (simp add: adb_wf_def)
  have buf: "adbBuffer m1 = (h @ body) @ drop (24 + ?n) (adbBuffer m)"
    using h body len n by (simp add: r(5) adb_write_at_def put_at_def add.commute)
  have "slice 12 16 (adbBuffer m1) = slice 12 16 (adbBuffer ?m)"
    using h body len n by (simp add: buf slice_append_left) (simp add: adb_write_at_def put_at_def slice_append_left)
  then have "DataLength m1 = DataLength ?m" by (simp add: DataLength_def)
  then have "unat (AdbHeaderSize + DataLength m1) = 24 + ?n"
    using n by (subst unat_add_no_wrap) (simp_all add: AdbHeaderSize_def)
  then have "AdbBytes m1 = Ret (h @ body)"
    using h body len n by (simp add: AdbBytes_def buf slice_0)
  moreover have "inbound conn = (h @ body) @ inbound conn1"
    using ReadFull_inbound [OF r(1)] ReadFull_inbound [OF r(4)] by simp
  ultimately show ?thesis using h body n by auto
qed

section \<open>The received message\<close>

text \<open>What a transporter message puts on the local connection: nothing, unless it carries a decodable ADB message.\<close>

definition adb_payload :: "u32 \<Rightarrow> bytes \<Rightarrow> bytes" where
  "adb_payload command payload =
     (if command \<noteq> CommandAdbTransport then []
      else (case DecodeMessage payload of
          Ret (Inr m) \<Rightarrow> (case AdbBytes m of Ret bs \<Rightarrow> bs | _ \<Rightarrow> [])
        | _ \<Rightarrow> []))"

lemma decoded_bytes:
  assumes "DecodeMessage p = Ret (Inr m)" "length p \<le> 0xF000"
  shows "\<exists>bs. AdbBytes m = Ret bs"
proof -
  have m: "adbBuffer m = p" "\<not> AdbHeaderSize + DataLength m > word_of_nat (length p)"
    using assms(1) by (auto simp: DecodeMessage_def newMessageFromBuffer_def AdbHeaderSize_def Let_def
        split: if_splits option.splits)
  have "unat (word_of_nat (length p) :: u32) = length p" using assms(2) by simp
  with m have "unat (AdbHeaderSize + DataLength m) \<le> length (adbBuffer m)" by (simp add: word_less_nat_alt)
  then show ?thesis by (simp add: AdbBytes_def)
qed

lemma adb_payload_wire:
  assumes "adb_command_ok command" "length data < 2 ^ 32 - 24"
  shows "adb_payload CommandAdbTransport (adb_wire command arg1 arg2 chk data) = adb_wire command arg1 arg2 chk data"
proof -
  obtain m where "DecodeMessage (adb_wire command arg1 arg2 chk data) = Ret (Inr m)"
    "adb_holds m command arg1 arg2 chk data"
    using DecodeMessage_wire [OF assms] by blast
  then show ?thesis by (simp add: adb_payload_def adb_holds_fields)
qed

text \<open>The containers in use are \<open>p0\<close>'s and the one the reader offers.\<close>

definition client_recv :: "TransporterMessage ObjectPool \<Rightarrow> Client \<Rightarrow> bool" where
  "client_recv p0 c \<longleftrightarrow> client_ok c \<and>
     (case reader c of
        Offering a \<Rightarrow> pool_holds a p0 (messagePool c) \<and> (\<exists>m. Data a (messagePool c) = Inr m \<and> clean_message m)
      | _ \<Rightarrow> same_leases p0 (messagePool c))"

lemma pool_holds_leases:
  "pool_holds a p0 p \<Longrightarrow> same_leases p p' \<Longrightarrow> good_pool wf_message p' \<Longrightarrow>
   pool_holds a p0 p' \<and> Data a p' = Data a p"
  by (auto simp: pool_holds_def same_leases_def)

lemma leases_pool_holds:
  "same_leases p0 p \<Longrightarrow> pool_holds a p p' \<Longrightarrow> pool_holds a p0 p'"
  by (auto simp: pool_holds_def same_leases_def)

lemma client_recv_send:
  assumes "client_recv p0 c" "client_ok c'" "reader c' = reader c" "same_leases (messagePool c) (messagePool c')"
  shows "client_recv p0 c'"
proof -
  have "good_pool wf_message (messagePool c')" using assms(2) by (simp add: client_ok_def)
  with assms pool_holds_leases [of _ p0 "messagePool c" "messagePool c'"] show ?thesis
    by (auto simp: client_recv_def split: reader_phase.splits intro: same_leases_trans)
qed

lemma client_recv_reads:
  assumes "client_recv p0 c" "reader c = Reading"
  shows "returns (\<lambda>c'. client_recv p0 c' \<and> reader c' \<noteq> Reading \<and> reader c' \<noteq> NotStarted \<and>
    client_wire c' = client_wire c) (startReader c)"
proof -
  have c: "client_ok c" "same_leases p0 (messagePool c)" using assms by (simp_all add: client_recv_def)
  from startReader_returns [OF c(1)] show ?thesis
    by (rule returns_mono) (use c(2) in \<open>auto simp: client_recv_def intro: same_leases_trans leases_pool_holds\<close>)
qed

lemma client_recv_Messages:
  assumes "client_recv p0 c" "reader c \<noteq> NotStarted"
  shows "returns (\<lambda>(c', received). client_wire c' = client_wire c \<and> client_ok c' \<and>
     (case received of
        None \<Rightarrow> client_recv p0 c' \<and> reader c' \<noteq> NotStarted
      | Some a \<Rightarrow> reader c' = Reading \<and> pool_holds a p0 (messagePool c') \<and>
          (\<exists>m. Data a (messagePool c') = Inr m \<and> clean_message m))) (Messages c)"
proof (cases "reader c")
  case Reading
  from client_recv_reads [OF assms(1) Reading] show ?thesis
    by (auto simp: Messages_def Reading outcome_simps client_recv_def client_ok_def client_wire_def
        elim!: returns_mono split: reader_phase.splits)
next
  case (Offering a)
  with assms show ?thesis by (auto simp: Messages_def client_recv_def client_ok_def client_wire_def)
next
  case Ended
  with assms show ?thesis by (auto simp: Messages_def client_recv_def)
qed (use assms in simp)

lemma handleIncoming_delivers:
  assumes "client_ok c" "reader c = Reading" "pool_holds a p0 (messagePool c)"
    and "Data a (messagePool c) = Inr m" "clean_message m"
  shows "returns (\<lambda>((conn1, c1), e). client_recv p0 c1 \<and> reader c1 = Reading \<and> client_wire c1 = client_wire c \<and>
     inbound conn1 = inbound conn \<and> conn_closed conn1 = conn_closed conn \<and>
     (\<exists>k. outbound conn1 = outbound conn @ take k (adb_payload (Command m) (payload_bytes m))) \<and>
     (conn_closed conn \<longrightarrow> outbound conn1 = outbound conn) \<and>
     (e = None \<longrightarrow> outbound conn1 = outbound conn @ adb_payload (Command m) (payload_bytes m)) \<and>
     (writable conn \<longrightarrow> e = None \<and> writable conn1))
     (handleIncoming conn a c)"
proof -
  note d = pool_holds_dispose [OF assms(3)]
  let ?c1 = "c\<lparr>messagePool := fst (Dispose a (messagePool c))\<rparr>"
  have disp: "dispose_received a c = (?c1, None)"
    using d(3) by (cases "Dispose a (messagePool c)") (simp add: dispose_received_def)
  have c1: "client_recv p0 ?c1" "reader ?c1 = Reading" "client_wire ?c1 = client_wire c"
    using assms(1,2) d(1,2) by (simp_all add: client_recv_def client_ok_def)
  have payload: "Payload m = Ret (payload_bytes m)" "length (payload_bytes m) \<le> 0xF000"
    using assms(5) Payload_ok length_payload_bytes by (auto simp: clean_message_def payload_fits_nat)
  show ?thesis
  proof (cases "Command m = CommandAdbTransport")
    case False
    with assms(4) disp c1 show ?thesis
      by (simp add: handleIncoming_def adb_payload_def)
  next
    case True
    obtain res where res: "DecodeMessage (payload_bytes m) = Ret res" using DecodeMessage_returns by blast
    show ?thesis
    proof (cases res)
      case (Inl e)
      with True assms(4) payload res disp c1 show ?thesis by (simp add: handleIncoming_def adb_payload_def)
    next
      case (Inr am)
      obtain bs where bs: "AdbBytes am = Ret bs" using decoded_bytes [of "payload_bytes m" am] res Inr payload(2) by auto
      then have ap: "adb_payload (Command m) (payload_bytes m) = bs" using True res Inr by (simp add: adb_payload_def)
      obtain conn1 n err where w: "conn_Write conn bs = (conn1, n, err)" by (metis prod_cases3)
      have eq: "handleIncoming conn a c = Ret ((conn1, ?c1), err)"
        using True assms(4) payload(1) res Inr bs w disp by (simp add: handleIncoming_def AdbWrite_def)
      have "err = None \<Longrightarrow> n = length bs" using w conn_Write_count by simp
      moreover have "conn_closed conn \<Longrightarrow> n = 0" using w by (simp add: conn_Write_def)
      moreover have "writable conn \<Longrightarrow> err = None \<and> writable conn1" using w conn_Write_writable [of conn bs] by auto
      ultimately show ?thesis using eq c1 conn_Write_prefix [OF w] ap by auto
    qed
  qed
qed

section \<open>One turn of a pump\<close>

lemma local_turn_ok:
  assumes "adb_wf m" "client_recv p0 c"
  shows "returns (\<lambda>((m1, conn1, c1), e). adb_wf m1 \<and> client_recv p0 c1 \<and> reader c1 = reader c \<and>
     outbound conn1 = outbound conn \<and> conn_closed conn1 = conn_closed conn \<and>
     (stopped \<or> conn_closed conn \<longrightarrow> e \<noteq> None \<and> client_wire c1 = client_wire c) \<and>
     (e = None \<longrightarrow> (\<exists>bs. AdbBytes m1 = Ret bs \<and> inbound conn = bs @ inbound conn1 \<and>
        client_wire c1 = client_wire c @ encode_frame CommandAdbTransport bs)))
     (local_turn stopped (m, conn, c))"
proof (cases stopped)
  case True
  with assms show ?thesis by (simp add: local_turn_def)
next
  case False
  obtain m1 conn1 e where r: "AdbRead m conn = Ret (m1, conn1, e)" "adb_wf m1" "outbound conn1 = outbound conn"
    "conn_closed conn1 = conn_closed conn"
    using AdbRead_returns [OF assms(1), of conn] by (auto elim!: returnsE)
  have closed: "e \<noteq> None" if "conn_closed conn" using r(1) that by (auto simp: AdbRead_def ReadFull_def)
  show ?thesis
  proof (cases e)
    case (Some x)
    with False r assms(2) show ?thesis by (simp add: local_turn_def)
  next
    case None
    obtain bs where bs: "AdbBytes m1 = Ret bs" "inbound conn = bs @ inbound conn1" "length bs \<le> 0x8018"
      using AdbRead_frame [OF assms(1)] r(1) None by blast
    have ok: "client_ok c" using assms(2) by (simp add: client_recv_def)
    have short: "length bs < 2 ^ 32" using bs(3) by simp
    from adb_sender.client_send_any [OF ok short] have "returns (\<lambda>(c', e). client_ok c' \<and> reader c' = reader c \<and>
        same_leases (messagePool c) (messagePool c') \<and>
        (e = None \<longrightarrow> client_wire c' = client_wire c @ encode_frame CommandAdbTransport bs)) (SendAdbMessage m1 c)"
      by (simp add: SendAdbMessage_fill [OF bs(1)]) (auto elim!: returns_mono)
    then obtain c1 e1 where "SendAdbMessage m1 c = Ret (c1, e1)" "client_ok c1" "reader c1 = reader c"
      "same_leases (messagePool c) (messagePool c1)"
      "e1 = None \<longrightarrow> client_wire c1 = client_wire c @ encode_frame CommandAdbTransport bs"
      by (auto elim!: returnsE)
    with False r None bs(1,2) closed client_recv_send [OF assms(2)] show ?thesis by (auto simp: local_turn_def)
  qed
qed

lemma remote_turn_ok:
  assumes "client_recv p0 c" "reader c \<noteq> NotStarted"
  shows "returns (\<lambda>((conn1, c1), e). client_recv p0 c1 \<and> reader c1 \<noteq> NotStarted \<and> client_wire c1 = client_wire c \<and>
     inbound conn1 = inbound conn \<and> conn_closed conn1 = conn_closed conn \<and>
     (conn_closed conn \<longrightarrow> outbound conn1 = outbound conn) \<and>
     (e = None \<longrightarrow> (\<exists>c2 a m. Messages c = Ret (c2, Some a) \<and> Data a (messagePool c2) = Inr m \<and>
        Payload m = Ret (payload_bytes m) \<and>
        outbound conn1 = outbound conn @ adb_payload (Command m) (payload_bytes m))))
     (remote_turn stopped (conn, c))"
proof (cases stopped)
  case True
  with assms show ?thesis by (simp add: remote_turn_def)
next
  case False
  from client_recv_Messages [OF assms] obtain c2 received where r: "Messages c = Ret (c2, received)"
    "client_wire c2 = client_wire c" "client_ok c2"
    "case received of None \<Rightarrow> client_recv p0 c2 \<and> reader c2 \<noteq> NotStarted
      | Some a \<Rightarrow> reader c2 = Reading \<and> pool_holds a p0 (messagePool c2) \<and>
          (\<exists>m. Data a (messagePool c2) = Inr m \<and> clean_message m)"
    by (auto elim!: returnsE)
  show ?thesis
  proof (cases received)
    case None
    with False r show ?thesis by (simp add: remote_turn_def)
  next
    case (Some a)
    with r(4) obtain m where m: "reader c2 = Reading" "pool_holds a p0 (messagePool c2)"
      "Data a (messagePool c2) = Inr m" "clean_message m" by auto
    have "Payload m = Ret (payload_bytes m)" using m(4) Payload_ok by (simp add: clean_message_def)
    with handleIncoming_delivers [OF r(3) m, of conn] False r(1,2) Some m(3) show ?thesis
      by (auto simp: remote_turn_def elim!: returns_mono)
  qed
qed

section \<open>Runs\<close>

text \<open>What a run sent to the transporter and wrote to the local connection.\<close>

fun forwarded_by :: "relay_event \<Rightarrow> bytes list" where
  "forwarded_by (Forwarded bs) = [bs]"
| "forwarded_by _ = []"

fun delivered_by :: "relay_event \<Rightarrow> bytes" where
  "delivered_by (Delivered command payload) = adb_payload command payload"
| "delivered_by _ = []"

definition forwarded :: "relay_event list \<Rightarrow> bytes list" where
  "forwarded es = concat (map forwarded_by es)"

definition delivered :: "relay_event list \<Rightarrow> bytes" where
  "delivered es = concat (map delivered_by es)"

lemma event_lists [simp]:
  "forwarded [] = []" "forwarded (es @ [e]) = forwarded es @ forwarded_by e"
  "delivered [] = []" "delivered (es @ [e]) = delivered es @ delivered_by e"
  by (simp_all add: forwarded_def delivered_def)

definition relay_ok :: "TransporterMessage ObjectPool \<Rightarrow> relay \<Rightarrow> bool" where
  "relay_ok p0 r \<longleftrightarrow> adb_wf (relay_message r) \<and> client_recv p0 (relay_client r) \<and>
     reader (relay_client r) \<noteq> NotStarted \<and>
     (run_error r \<noteq> None \<longrightarrow> ctx_over r \<and> conn_closed (relay_conn r))"

text \<open>
  One step: the invariant is kept; as long as a pump has not ended, what it took off one side is on
  the other; after \<open>Stopping\<close> the local connection gets nothing more.
\<close>

lemma relay_step_ok:
  assumes "relay_step r e r'" "relay_ok p0 r"
  shows "relay_ok p0 r' \<and>
     (local_end r' = None \<longrightarrow> local_end r = None \<and>
        inbound (relay_conn r) = concat (forwarded_by e) @ inbound (relay_conn r') \<and>
        client_wire (relay_client r') = client_wire (relay_client r) @
          concat (map (encode_frame CommandAdbTransport) (forwarded_by e))) \<and>
     (remote_end r' = None \<longrightarrow> remote_end r = None \<and>
        outbound (relay_conn r') = outbound (relay_conn r) @ delivered_by e) \<and>
     (run_error r \<noteq> None \<longrightarrow> run_error r' = run_error r \<and> outbound (relay_conn r') = outbound (relay_conn r) \<and>
        client_wire (relay_client r') = client_wire (relay_client r))"
  using assms(1)
proof cases
  case (forwards m conn c bs)
  with local_turn_ok [of "relay_message r" p0 "relay_client r" "relay_conn r" "ctx_over r"] assms(2)
  show ?thesis by (auto simp: relay_ok_def local_state_def)
next
  case (local_ends m conn c x)
  with local_turn_ok [of "relay_message r" p0 "relay_client r" "relay_conn r" "ctx_over r"] assms(2)
  show ?thesis by (auto simp: relay_ok_def local_state_def)
next
  case (delivers c1 a message payload conn c)
  with remote_turn_ok [of p0 "relay_client r" "relay_conn r" False] assms(2)
  show ?thesis by (auto simp: relay_ok_def)
next
  case (remote_ends done_arm conn c x)
  with remote_turn_ok [of p0 "relay_client r" "relay_conn r" done_arm] assms(2)
  show ?thesis by (auto simp: relay_ok_def)
next
  case (reader_turn c)
  with client_recv_reads [of p0 "relay_client r"] assms(2) show ?thesis by (auto simp: relay_ok_def)
next
  case context_over
  with assms(2) show ?thesis by (auto simp: relay_ok_def)
next
  case (stopping x)
  with assms(2) show ?thesis by (auto simp: relay_ok_def Run_stop_def conn_Close_def)
qed

lemma relay_run_ok:
  "relay_run r es r' \<Longrightarrow> relay_ok p0 r \<Longrightarrow> relay_ok p0 r' \<and>
     (local_end r' = None \<longrightarrow> local_end r = None \<and>
        inbound (relay_conn r) = concat (forwarded es) @ inbound (relay_conn r') \<and>
        client_wire (relay_client r') = client_wire (relay_client r) @
          concat (map (encode_frame CommandAdbTransport) (forwarded es))) \<and>
     (remote_end r' = None \<longrightarrow> remote_end r = None \<and>
        outbound (relay_conn r') = outbound (relay_conn r) @ delivered es) \<and>
     (run_error r \<noteq> None \<longrightarrow> run_error r' = run_error r \<and> outbound (relay_conn r') = outbound (relay_conn r) \<and>
        client_wire (relay_client r') = client_wire (relay_client r))"
proof (induction rule: relay_run.induct)
  case (relay_snoc r es r1 e r2)
  from relay_snoc.IH [OF relay_snoc.prems] relay_step_ok [OF relay_snoc.hyps(2), of p0] show ?case
    by simp
qed simp

lemma relay_ok_start:
  assumes "client_ok c" "reader c = Reading"
  shows "relay_ok (messagePool c) (Run_start conn c)"
  using assms by (simp add: relay_ok_def Run_start_def client_recv_def)

section \<open>The loop that receives ends\<close>

definition backlog :: "Client \<Rightarrow> nat" where
  "backlog c = (case client_connection c of None \<Rightarrow> 0 | Some conn \<Rightarrow> length (inbound conn)) +
     (case reader c of Offering a \<Rightarrow> 1 | _ \<Rightarrow> 0)"

lemma decode_frame_consumes:
  "decode_frame end_error s = Inr (command, payload, rest) \<Longrightarrow> 12 + length rest \<le> length s"
  by (auto simp: decode_frame_def Let_def split: if_splits)

lemma startReader_backlog:
  assumes "client_ok c" "reader c = Reading" "startReader c = Ret c'" "reader c' = Offering a"
  shows "backlog c' < backlog c"
proof -
  obtain conn where conn: "client_connection c = Some conn" using assms(1) by (auto simp: client_ok_def)
  have "good_pool wf_message (messagePool c)" using assms(1) by (simp add: client_ok_def)
  then obtain p b m where o: "Obtain (messagePool c) = Ret (p, b)" "Data b p = Inr m" "wf_message m"
    by (rule pool_holds_obtain)
  have "\<not> ctx_done c" using assms(3,4) by (auto simp: startReader_def)
  moreover have "\<not> conn_closed conn"
  proof
    assume "conn_closed conn"
    with assms(3,4) \<open>\<not> ctx_done c\<close> conn o show False
      by (auto simp: startReader_def Read_closed Let_def)
  qed
  ultimately show ?thesis
    using startReader_decodes [OF assms(1) conn] assms(2-4) decode_frame_consumes [of "in_end conn" "inbound conn"]
    by (fastforce simp: reader_lost_def took_frame_def backlog_def conn split: sum.splits)
qed

lemma handleIncoming_client:
  "on_ret (\<lambda>((conn1, c1), e). client_connection c1 = client_connection c \<and> reader c1 = reader c \<and>
     ctx_done c1 = ctx_done c) (handleIncoming conn a c)"
proof -
  have d: "dispose_received a c = (c\<lparr>messagePool := fst (Dispose a (messagePool c))\<rparr>, snd (Dispose a (messagePool c)))"
    by (simp add: dispose_received_def split: prod.split)
  show ?thesis
    by (auto simp: handleIncoming_def d outcome_simps intro!: on_retI split: sum.split if_splits)
qed

lemma remote_turn_backlog:
  assumes "client_ok c" "reader c \<noteq> NotStarted" "remote_turn stopped (conn, c) = Ret ((conn1, c1), None)"
  shows "backlog c1 < backlog c"
proof -
  have "\<not> stopped" using assms(3) by (auto simp: remote_turn_def)
  with assms(3) obtain c2 a where m: "Messages c = Ret (c2, Some a)" "handleIncoming conn a c2 = Ret ((conn1, c1), None)"
    by (auto simp: remote_turn_def andThen_eq_Ret split: option.splits)
  have "client_connection c1 = client_connection c2" "reader c1 = reader c2"
    using handleIncoming_client [where conn = conn and a = a and c = c2] m(2) by simp_all
  then have "backlog c1 = backlog c2" by (simp add: backlog_def)
  also have "\<dots> < backlog c"
  proof (cases "reader c")
    case Reading
    then obtain c3 where s: "startReader c = Ret c3" "(case reader c3 of Offering a \<Rightarrow> Ret (c3\<lparr>reader := Reading\<rparr>, Some a)
        | _ \<Rightarrow> Ret (c3, None)) = Ret (c2, Some a)"
      using m(1) by (auto simp: Messages_def andThen_eq_Ret)
    then have c3: "startReader c = Ret c3" "reader c3 = Offering a" "c2 = c3\<lparr>reader := Reading\<rparr>"
      by (cases "reader c3"; simp)+
    have "backlog c2 \<le> backlog c3" using c3 by (simp add: backlog_def)
    with startReader_backlog [OF assms(1) Reading c3(1,2)] show ?thesis by simp
  qed (use m(1) assms(2) in \<open>auto simp: Messages_def backlog_def\<close>)
  finally show ?thesis .
qed

lemma pumpRemoteToLocal_unfold:
  "remote_turn (stopped i) st = Ret (st1, err) \<Longrightarrow> pumpRemoteToLocal stopped i st =
     (case err of Some e \<Rightarrow> Some (Ret (st1, e)) | None \<Rightarrow> pumpRemoteToLocal stopped (Suc i) st1)"
  by (subst pumpRemoteToLocal.simps) simp

lemma pumpRemoteToLocal_ends:
  "client_recv p0 c \<Longrightarrow> reader c \<noteq> NotStarted \<Longrightarrow>
   \<exists>conn1 c1 e. pumpRemoteToLocal stopped i (conn, c) = Some (Ret ((conn1, c1), e)) \<and> client_recv p0 c1"
proof (induction "backlog c" arbitrary: c conn i rule: less_induct)
  case less
  from remote_turn_ok [OF less.prems, of conn "stopped i"] obtain conn1 c1 e where
    t: "remote_turn (stopped i) (conn, c) = Ret ((conn1, c1), e)" "client_recv p0 c1" "reader c1 \<noteq> NotStarted"
    by (auto elim!: returnsE)
  show ?case
  proof (cases e)
    case (Some x)
    with t show ?thesis by (simp add: pumpRemoteToLocal_unfold)
  next
    case None
    have "client_ok c" using less.prems(1) by (simp add: client_recv_def)
    from remote_turn_backlog [OF this less.prems(2)] t(1) None have "backlog c1 < backlog c" by simp
    from less.hyps [OF this t(2,3), of "Suc i" conn1] None t(1) show ?thesis
      by (simp add: pumpRemoteToLocal_unfold)
  qed
qed

section \<open>A whole session\<close>

definition adb_wires :: "bytes list \<Rightarrow> bool" where
  "adb_wires ws \<longleftrightarrow> (\<forall>w \<in> set ws. \<exists>command arg1 arg2 chk data.
     adb_command_ok command \<and> length data \<le> 0x8000 \<and> w = adb_wire command arg1 arg2 chk data)"

lemma adb_wires_Cons:
  assumes "adb_wires (w # ws)"
  obtains command arg1 arg2 chk data where "adb_command_ok command" "length data \<le> 0x8000"
    "w = adb_wire command arg1 arg2 chk data" "adb_wires ws"
  using assms by (auto simp: adb_wires_def)

lemma pumpLocalToRemote_session:
  assumes "adb_wf m" "client_ok c" "client_writable c" "\<not> conn_closed conn" "adb_wires ws"
    and "inbound conn = concat ws" "in_end conn = ErrEOF"
  shows "\<exists>m' conn' c'. pumpLocalToRemote (\<lambda>_. False) i (m, conn, c) = Ret ((m', conn', c'), ErrEOF) \<and>
     client_wire c' = client_wire c @ concat (map (encode_frame CommandAdbTransport) ws)"
  using assms
proof (induction ws arbitrary: m conn c i)
  case Nil
  have "\<exists>m'. AdbRead m conn = Ret (m', conn\<lparr>inbound := []\<rparr>, Some ErrEOF)"
    using Nil.prems by (simp add: AdbRead_def ReadFull_def stream_error_def Let_def)
  then show ?case by (subst pumpLocalToRemote.simps) (auto simp: local_turn_def)
next
  case (Cons w ws)
  obtain command arg1 arg2 chk data where w: "adb_command_ok command" "length data \<le> 0x8000"
    "w = adb_wire command arg1 arg2 chk data" "adb_wires ws"
    by (rule adb_wires_Cons [OF Cons.prems(5)])
  obtain m1 where r: "AdbRead m conn = Ret (m1, conn\<lparr>inbound := concat ws\<rparr>, None)" "adb_wf m1"
    "adb_holds m1 command arg1 arg2 chk data"
    using AdbRead_wire [OF Cons.prems(1,4) w(1,2), of arg1 arg2 chk "concat ws"] Cons.prems(6) w(3) by auto
  obtain c1 where s: "SendAdbMessage m1 c = Ret (c1, None)" "client_ok c1" "client_writable c1"
    "client_wire c1 = client_wire c @ encode_frame CommandAdbTransport w"
    using SendAdbMessage_up [OF Cons.prems(2,3) adb_holds_fields(9) [OF r(3)]] w(2,3) by auto
  from Cons.IH [OF r(2) s(2,3) _ w(4), of "conn\<lparr>inbound := concat ws\<rparr>" "Suc i"] Cons.prems(4,7) r(1) s(1,4)
  show ?case by (subst pumpLocalToRemote.simps) (simp add: local_turn_def)
qed

lemma pumpRemoteToLocal_session:
  assumes "client_recv p0 c" "reader c = Reading" "\<not> ctx_done c" "client_connection c = Some tc"
    and "\<not> conn_closed tc" "adb_wires ws" "inbound tc = concat (map (encode_frame CommandAdbTransport) ws)" "writable conn"
  shows "\<exists>conn' c'. pumpRemoteToLocal (\<lambda>_. False) i (conn, c) = Some (Ret ((conn', c'), ErrTransportClosed)) \<and>
     outbound conn' = outbound conn @ concat ws \<and> same_leases p0 (messagePool c')"
  using assms
proof (induction ws arbitrary: c conn tc i)
  case Nil
  have ok: "client_ok c" using Nil.prems(1) by (simp add: client_recv_def)
  have "decode_frame (in_end tc) (inbound tc) = Inl (stream_error (in_end tc) [])"
    using Nil.prems(7) by (simp add: decode_frame_def)
  with Messages_decodes [OF ok Nil.prems(4,5,3,2)] obtain c' where c': "Messages c = Ret (c', None)" "reader_lost c c'"
    by auto
  have "same_leases p0 (messagePool c')"
    using c'(2) Nil.prems(1,2) by (auto simp: reader_lost_def client_recv_def intro: same_leases_trans)
  with c'(1) show ?case
    by (simp add: pumpRemoteToLocal_unfold remote_turn_def)
next
  case (Cons w ws)
  obtain command arg1 arg2 chk data where w: "adb_command_ok command" "length data \<le> 0x8000"
    "w = adb_wire command arg1 arg2 chk data" "adb_wires ws"
    by (rule adb_wires_Cons [OF Cons.prems(6)])
  have ok: "client_ok c" and leases: "same_leases p0 (messagePool c)"
    using Cons.prems(1,2) by (simp_all add: client_recv_def)
  have "decode_frame (in_end tc) (inbound tc) =
      Inr (CommandAdbTransport, w, concat (map (encode_frame CommandAdbTransport) ws))"
    using Cons.prems(7) decode_encode_frame [of w] w(2,3) by simp
  with Messages_decodes [OF ok Cons.prems(4,5,3,2)] obtain c2 a where m: "Messages c = Ret (c2, Some a)" "reader c2 = Reading"
    "took_frame c c2 a CommandAdbTransport w (concat (map (encode_frame CommandAdbTransport) ws))"
    by auto
  then obtain msg where msg: "Data a (messagePool c2) = Inr msg" "holds_frame msg CommandAdbTransport w"
    by (auto simp: took_frame_def)
  have held: "pool_holds a p0 (messagePool c2)"
    using m(3) leases leases_pool_holds by (auto simp: took_frame_def)
  have frame: "Command msg = CommandAdbTransport" "payload_bytes msg = w" "clean_message msg"
    using msg(2) by (simp_all add: holds_frame_def clean_message_def)
  have c2: "client_connection c2 = Some (tc\<lparr>inbound := concat (map (encode_frame CommandAdbTransport) ws)\<rparr>)" "\<not> ctx_done c2"
    using m(3) Cons.prems(3,4) by (simp_all add: took_frame_def)
  have "client_ok c2" using c2(1) held by (simp add: client_ok_def pool_holds_def)
  from handleIncoming_delivers [OF this m(2) held msg(1) frame(3), of conn] Cons.prems(8) frame(1,2)
  obtain conn1 c1 where h: "handleIncoming conn a c2 = Ret ((conn1, c1), None)" "client_recv p0 c1" "reader c1 = Reading"
    "outbound conn1 = outbound conn @ w" "writable conn1"
    using adb_payload_wire [OF w(1)] w(2,3) by (auto elim!: returnsE)
  have c1: "client_connection c1 = client_connection c2" "ctx_done c1 = ctx_done c2"
    using handleIncoming_client [where conn = conn and a = a and c = c2] h(1) by simp_all
  from Cons.IH [OF h(2,3) _ _ _ w(4) _ h(5), of _ "Suc i"] c1 c2 Cons.prems(5) m(1) h(1,4)
  show ?case by (simp add: pumpRemoteToLocal_unfold remote_turn_def)
qed

section \<open>After the stop\<close>


section \<open>Properties\<close>

text \<open>
  C23.  While a pump runs, whatever the interleaving, what was taken off the local connection is exactly the
  concatenation of the ADB messages sent to the transporter, each in one frame, and what was written to
  the local connection is exactly the ADB messages received, in order.
\<close>

theorem relay_in_order:
  assumes "client_ok c" "reader c = Reading" "relay_run (Run_start conn c) es r"
  shows "(local_end r = None \<longrightarrow> inbound conn = concat (forwarded es) @ inbound (relay_conn r) \<and>
       client_wire (relay_client r) = client_wire c @ concat (map (encode_frame CommandAdbTransport) (forwarded es))) \<and>
     (remote_end r = None \<longrightarrow> outbound (relay_conn r) = outbound conn @ delivered es)"
  using relay_run_ok [OF assms(3) relay_ok_start [OF assms(1,2)]] by (simp add: Run_start_def)


text \<open>
  The loop that receives always ends, without a panic, on every connection of the transporter and
  the local server, and leaves no buffer of the pool in use but the one the reader may still offer.
\<close>

theorem pumpRemoteToLocal_terminates:
  assumes "client_ok c" "reader c = Reading"
  shows "\<exists>conn1 c1 e. pumpRemoteToLocal stopped i (conn, c) = Some (Ret ((conn1, c1), e)) \<and>
     (\<forall>a. uses (messagePool c1) a = uses (messagePool c) a \<or> reader c1 = Offering a)"
proof -
  have "client_recv (messagePool c) c" using assms by (simp add: client_recv_def)
  from pumpRemoteToLocal_ends [OF this, of stopped i conn] assms(2) obtain conn1 c1 e where
    r: "pumpRemoteToLocal stopped i (conn, c) = Some (Ret ((conn1, c1), e))" "client_recv (messagePool c) c1" by auto
  have "uses (messagePool c1) a = uses (messagePool c) a \<or> reader c1 = Offering a" for a
    using r(2) by (cases "reader c1") (auto simp: client_recv_def same_leases_def pool_holds_def)
  with r(1) show ?thesis by blast
qed

text \<open>
  A session crosses unchanged: the ADB messages one client's local server writes before it
  closes are sent in one frame each, and a client that receives exactly these bytes writes exactly
  the same ADB messages to its local server, whatever their sizes up to the ADB limit.
\<close>

theorem adb_session_relayed_unchanged:
  assumes "adb_wires ws" "inbound conn = concat ws" "in_end conn = ErrEOF" "\<not> conn_closed conn"
    and "client_ok c" "client_writable c"
    and "client_ok d" "reader d = Reading" "\<not> ctx_done d" "client_connection d = Some tc" "\<not> conn_closed tc" "writable dest"
  shows "\<exists>st c'. pumpLocalToRemote (\<lambda>_. False) 0 (CreateMessage, conn, c) = Ret ((fst st, snd st, c'), ErrEOF) \<and>
     client_wire c' = client_wire c @ concat (map (encode_frame CommandAdbTransport) ws) \<and>
     (inbound tc = concat (map (encode_frame CommandAdbTransport) ws) \<longrightarrow>
      (\<exists>dest' d'. pumpRemoteToLocal (\<lambda>_. False) 0 (dest, d) = Some (Ret ((dest', d'), ErrTransportClosed)) \<and>
         outbound dest' = outbound dest @ inbound conn))"
proof -
  obtain m' conn' c' where s: "pumpLocalToRemote (\<lambda>_. False) 0 (CreateMessage, conn, c) = Ret ((m', conn', c'), ErrEOF)"
    "client_wire c' = client_wire c @ concat (map (encode_frame CommandAdbTransport) ws)"
    using pumpLocalToRemote_session [OF adb_wf_CreateMessage assms(5,6,4,1-3)] by blast
  have recv: "client_recv (messagePool d) d" using assms(7,8) by (simp add: client_recv_def)
  have "\<exists>dest' d'. pumpRemoteToLocal (\<lambda>_. False) 0 (dest, d) = Some (Ret ((dest', d'), ErrTransportClosed)) \<and>
      outbound dest' = outbound dest @ inbound conn" if "inbound tc = concat (map (encode_frame CommandAdbTransport) ws)"
    using pumpRemoteToLocal_session [OF recv assms(8-11,1) that assms(12), of 0] assms(2) by auto
  with s show ?thesis by (intro exI [of _ "(m', conn')"] exI [of _ c']) simp
qed

section \<open>Witnesses\<close>

definition sample_peer :: "bytes \<Rightarrow> Client" where
  "sample_peer bs = fst (Start (Inr (fresh_conn bs)) (CreateClient \<lparr>unix_seconds = 0, nanoseconds = 0\<rparr>))"

lemma sample_peer_ok:
  "client_ok (sample_peer bs)" "client_writable (sample_peer bs)" "client_wire (sample_peer bs) = []"
  "reader (sample_peer bs) = Reading" "\<not> ctx_done (sample_peer bs)"
  "client_connection (sample_peer bs) = Some (fresh_conn bs)"
  by (simp_all add: sample_peer_def Start_def CreateClient_def client_ok_def client_writable_def client_wire_def
      good_pool_New) (simp add: fresh_conn_def)

definition sample_wire :: bytes where
  "sample_wire = adb_wire AdbCommandOkay 1 2 0 [5]"

lemma sample_wires: "adb_wires [sample_wire]"
proof -
  have "adb_command_ok AdbCommandOkay \<and> length [5 :: byte] \<le> 0x8000 \<and> sample_wire = adb_wire AdbCommandOkay 1 2 0 [5]"
    by (simp add: sample_wire_def)
  then show ?thesis unfolding adb_wires_def by (simp only: list.set) blast
qed


theorem relay_in_order_witness:
  "\<exists>r. relay_run (Run_start (fresh_conn sample_wire) (sample_peer [])) [Forwarded sample_wire] r \<and>
     client_wire (relay_client r) = encode_frame CommandAdbTransport sample_wire"
proof -
  let ?r = "Run_start (fresh_conn sample_wire) (sample_peer [])"
  obtain m where m: "AdbRead CreateMessage (fresh_conn sample_wire) = Ret (m, (fresh_conn sample_wire)\<lparr>inbound := []\<rparr>, None)"
    "adb_holds m AdbCommandOkay 1 2 0 [5]"
    using AdbRead_wire [OF adb_wf_CreateMessage, of "fresh_conn sample_wire" AdbCommandOkay "[5]" 1 2 0 "[]"]
    by (auto simp: sample_wire_def fresh_conn_def)
  note bytes = adb_holds_fields(9) [OF m(2)]
  obtain c1 where s: "SendAdbMessage m (sample_peer []) = Ret (c1, None)"
    using SendAdbMessage_up [OF sample_peer_ok(1,2) bytes] by auto
  have "relay_step ?r (Forwarded sample_wire) (?r\<lparr>relay_message := m,
      relay_conn := (fresh_conn sample_wire)\<lparr>inbound := []\<rparr>, relay_client := c1\<rparr>)"
    using m(1) s bytes by (intro forwards) (simp_all add: Run_start_def local_state_def local_turn_def sample_wire_def)
  from relay_snoc [OF relay_nil this] obtain r where r: "relay_run ?r [Forwarded sample_wire] r" "local_end r = None"
    by (auto simp: Run_start_def)
  with relay_in_order [OF sample_peer_ok(1,4) r(1)] sample_peer_ok(3) show ?thesis by (auto simp: forwarded_def)
qed


theorem pumpRemoteToLocal_terminates_witness:
  "\<exists>res. pumpRemoteToLocal (\<lambda>_. False) 0 (fresh_conn [], sample_peer [1, 2, 3]) = Some (Ret res)"
  using pumpRemoteToLocal_terminates [OF sample_peer_ok(1,4)] by blast

theorem adb_session_relayed_unchanged_witness:
  "\<exists>dest d. pumpRemoteToLocal (\<lambda>_. False) 0 (fresh_conn [], sample_peer (encode_frame CommandAdbTransport sample_wire)) =
     Some (Ret ((dest, d), ErrTransportClosed)) \<and> outbound dest = sample_wire"
proof -
  let ?conn = "fresh_conn sample_wire" and ?d = "sample_peer (encode_frame CommandAdbTransport sample_wire)"
  have conn: "inbound ?conn = concat [sample_wire]" "in_end ?conn = ErrEOF" "\<not> conn_closed ?conn"
    "\<not> conn_closed (fresh_conn (encode_frame CommandAdbTransport sample_wire))"
    by (simp_all add: fresh_conn_def)
  from adb_session_relayed_unchanged [OF sample_wires conn(1-3) sample_peer_ok(1,2,1,4,5,6) conn(4) writable_fresh_conn]
  show ?thesis by (auto simp: fresh_conn_def)
qed

end
