(* ===== verification/Smart_Socket.thy ===== *)
theory Smart_Socket
  imports Go_IO
begin

text \<open>
  \<open>client/adb/smartSocket.go\<close> and \<open>device.go\<close>: the client of the local adb server.  Every request
  dials a fresh connection; what \<open>net.Dial\<close> returns is an argument.  The connection after the call
  is part of the result, so that closing it is visible.  Logging is left out.
\<close>

section \<open>Hexadecimal\<close>

definition hex_digit :: "nat \<Rightarrow> char" where
  "hex_digit d = (if d < 10 then char_of (48 + d) else char_of (55 + d))"

text \<open>\<open>%X\<close> on a non-negative number, and \<open>%04X\<close>, which pads to four digits but does not cut.\<close>

fun hex_upper :: "nat \<Rightarrow> string" where
  "hex_upper n = (if n < 16 then [hex_digit n] else hex_upper (n div 16) @ [hex_digit (n mod 16)])"

declare hex_upper.simps [simp del]

definition hex4 :: "nat \<Rightarrow> string" where
  "hex4 n = replicate (4 - length (hex_upper n)) CHR ''0'' @ hex_upper n"

text \<open>\<open>strconv.ParseInt(s, 16, 0)\<close> on a 64-bit machine: an optional sign, then at least one digit.\<close>

definition hex_value :: "char \<Rightarrow> nat option" where
  "hex_value c = (let n = of_char c :: nat in
     if 48 \<le> n \<and> n \<le> 57 then Some (n - 48)
     else if 65 \<le> n \<and> n \<le> 70 then Some (n - 55)
     else if 97 \<le> n \<and> n \<le> 102 then Some (n - 87)
     else None)"

fun hex_digits :: "nat \<Rightarrow> string \<Rightarrow> nat option" where
  "hex_digits acc [] = Some acc"
| "hex_digits acc (c # cs) = (case hex_value c of None \<Rightarrow> None | Some d \<Rightarrow> hex_digits (16 * acc + d) cs)"

definition ParseHex :: "string \<Rightarrow> error + int" where
  "ParseHex s =
     (let neg = (s \<noteq> [] \<and> hd s = CHR ''-'');
          digits = (if s \<noteq> [] \<and> hd s \<in> {CHR ''-'', CHR ''+''} then tl s else s) in
      if digits = [] then Inl (ErrParseInt s)
      else (case hex_digits 0 digits of
          None \<Rightarrow> Inl (ErrParseInt s)
        | Some n \<Rightarrow>
            if (if neg then n > 2 ^ 63 else n \<ge> 2 ^ 63) then Inl (ErrParseInt s)
            else Inr (if neg then - int n else int n)))"

section \<open>One request\<close>

definition responseOkay :: string where "responseOkay = ''OKAY''"
definition maxSmartSocketResponseSize :: int where "maxSmartSocketResponseSize = 1024 * 1024"

definition encode_request :: "string \<Rightarrow> bytes" where
  "encode_request command = bytes_of_string (hex4 (length command) @ command)"

definition sendCommand :: "string \<Rightarrow> net_conn \<Rightarrow> net_conn \<times> error option" where
  "sendCommand command conn =
     (case conn_Write conn (encode_request command) of (conn1, n, err) \<Rightarrow> (conn1, err))"

text \<open>\<open>make([]byte, n)\<close> panics when \<open>n\<close> is negative.\<close>

definition readResponse :: "net_conn \<Rightarrow> (net_conn \<times> (error + bytes)) outcome" where
  "readResponse conn =
     (case ReadFull conn 4 of (conn1, lengthBuffer, err) \<Rightarrow>
      (case err of Some e \<Rightarrow> Ret (conn1, Inl e) | None \<Rightarrow>
      (case ParseHex (string_of_bytes lengthBuffer) of
         Inl e \<Rightarrow> Ret (conn1, Inl e)
       | Inr responseLength \<Rightarrow>
         if responseLength > maxSmartSocketResponseSize then Ret (conn1, Inl (ErrResponseTooLong responseLength))
         else if responseLength < 0 then Panic
         else (case ReadFull conn1 (nat responseLength) of (conn2, body, err2) \<Rightarrow>
           (case err2 of Some e \<Rightarrow> Ret (conn2, Inl e) | None \<Rightarrow> Ret (conn2, Inr body))))))"

definition checkResult :: "net_conn \<Rightarrow> (net_conn \<times> error option) outcome" where
  "checkResult conn =
     (case ReadFull conn 4 of (conn1, statusBuffer, err) \<Rightarrow>
      (case err of Some e \<Rightarrow> Ret (conn1, Some e) | None \<Rightarrow>
       if string_of_bytes statusBuffer = responseOkay then Ret (conn1, None)
       else andThen (readResponse conn1) (\<lambda>(conn2, res).
         case res of Inl e \<Rightarrow> Ret (conn2, Some e)
         | Inr body \<Rightarrow> Ret (conn2, Some (ErrSmartSocket (string_of_bytes body))))))"

section \<open>The operations\<close>

definition selectTransport :: "string \<Rightarrow> net_conn \<Rightarrow> (net_conn \<times> error option) outcome" where
  "selectTransport targetSerial conn =
     (case sendCommand (''host:transport:'' @ targetSerial) conn of (conn1, err) \<Rightarrow>
      (case err of Some e \<Rightarrow> Ret (conn1, Some e) | None \<Rightarrow> checkResult conn1))"

definition conn_fails :: "error \<Rightarrow> net_conn \<Rightarrow> net_conn option \<times> error option" where
  "conn_fails e conn = (Some (fst (conn_Close conn)), Some e)"

definition Transport :: "error + net_conn \<Rightarrow> string \<Rightarrow> (net_conn option \<times> error option) outcome" where
  "Transport dialled targetSerial =
     (case dialled of Inl e \<Rightarrow> Ret (None, Some e)
      | Inr conn \<Rightarrow> andThen (selectTransport targetSerial conn) (\<lambda>(conn1, err).
          case err of Some e \<Rightarrow> Ret (conn_fails e conn1) | None \<Rightarrow> Ret (Some conn1, None)))"

definition OpenStream :: "error + net_conn \<Rightarrow> string \<Rightarrow> string \<Rightarrow> (net_conn option \<times> error option) outcome" where
  "OpenStream dialled targetSerial service =
     (case dialled of Inl e \<Rightarrow> Ret (None, Some e)
      | Inr conn \<Rightarrow> andThen (selectTransport targetSerial conn) (\<lambda>(conn1, err).
          case err of Some e \<Rightarrow> Ret (conn_fails e conn1)
          | None \<Rightarrow> (case sendCommand service conn1 of (conn2, err) \<Rightarrow>
             (case err of Some e \<Rightarrow> Ret (conn_fails e conn2)
              | None \<Rightarrow> andThen (checkResult conn2) (\<lambda>(conn3, err).
                  case err of Some e \<Rightarrow> Ret (conn_fails e conn3) | None \<Rightarrow> Ret (Some conn3, None))))))"

text \<open>The deferred \<open>Close\<close> of \<open>executeCommand\<close> runs on every path.\<close>

definition close_after :: "net_conn \<times> (error + 'a) \<Rightarrow> net_conn option \<times> (error + 'a)" where
  "close_after r = (Some (fst (conn_Close (fst r))), snd r)"

definition executeCommand :: "error + net_conn \<Rightarrow> string \<Rightarrow> (net_conn option \<times> (error + bytes)) outcome" where
  "executeCommand dialled command =
     (case dialled of Inl e \<Rightarrow> Ret (None, Inl e)
      | Inr conn \<Rightarrow>
        (case sendCommand command conn of (conn1, err) \<Rightarrow>
         (case err of Some e \<Rightarrow> Ret (close_after (conn1, Inl e)) | None \<Rightarrow>
          andThen (checkResult conn1) (\<lambda>(conn2, err).
            case err of Some e \<Rightarrow> Ret (close_after (conn2, Inl e))
            | None \<Rightarrow> andThen (readResponse conn2) (\<lambda>r. Ret (close_after r))))))"

definition only_error :: "net_conn option \<times> (error + 'a) \<Rightarrow> net_conn option \<times> error option" where
  "only_error r = (fst r, (case snd r of Inl e \<Rightarrow> Some e | Inr x \<Rightarrow> None))"

definition SmartSocket_Connect :: "error + net_conn \<Rightarrow> string \<Rightarrow> (net_conn option \<times> error option) outcome" where
  "SmartSocket_Connect dialled targetSerial =
     andThen (executeCommand dialled (''host:connect:'' @ targetSerial)) (\<lambda>r. Ret (only_error r))"

definition SmartSocket_Disconnect :: "error + net_conn \<Rightarrow> string \<Rightarrow> (net_conn option \<times> error option) outcome" where
  "SmartSocket_Disconnect dialled targetSerial =
     andThen (executeCommand dialled (''host:disconnect:'' @ targetSerial)) (\<lambda>r. Ret (only_error r))"

section \<open>The device list\<close>

record Device =
  Device_Id :: string
  Device_Type :: string

text \<open>The inner loops: the first index from \<open>i\<close> on that holds \<open>c\<close>, or the first one out of range.\<close>

function scan_to :: "byte \<Rightarrow> nat \<Rightarrow> bytes \<Rightarrow> nat" where
  "scan_to c i body = (if i < length body \<and> body ! i \<noteq> c then scan_to c (Suc i) body else i)"
  by pat_completeness auto
termination by (relation "measure (\<lambda>(c, i, body). length body - i)") auto

declare scan_to.simps [simp del]

lemma scan_to_le: "i \<le> scan_to c i body"
  by (induction c i body rule: scan_to.induct) (subst scan_to.simps, auto)

function parse_devices :: "nat \<Rightarrow> bytes \<Rightarrow> Device list outcome" where
  "parse_devices lastIndex body =
     (if lastIndex < length body
      then let deviceIdLastIndex = scan_to 0x09 lastIndex body;
               deviceTypeLastIndex = scan_to 0x0a (deviceIdLastIndex + 1) body in
        andThen (go_slice lastIndex deviceIdLastIndex body) (\<lambda>deviceId.
        andThen (go_slice (deviceIdLastIndex + 1) deviceTypeLastIndex body) (\<lambda>deviceType.
        andThen (parse_devices (deviceTypeLastIndex + 1) body) (\<lambda>devices.
          Ret (\<lparr>Device_Id = string_of_bytes deviceId, Device_Type = string_of_bytes deviceType\<rparr> # devices))))
      else Ret [])"
  by pat_completeness auto
termination
proof (relation "measure (\<lambda>(i, body). length body - i)", goal_cases)
  case (2 lastIndex body x xa xb xc)
  then have "lastIndex \<le> x" using scan_to_le by simp
  moreover have "x + 1 \<le> xa" using 2 scan_to_le by simp
  ultimately show ?case using 2(1) by simp
qed simp

declare parse_devices.simps [simp del]

definition DeviceList :: "error + net_conn \<Rightarrow> (net_conn option \<times> (error + Device list)) outcome" where
  "DeviceList dialled =
     andThen (executeCommand dialled ''host:devices'') (\<lambda>(conn, res).
       case res of Inl e \<Rightarrow> Ret (conn, Inl e)
       | Inr body \<Rightarrow> andThen (parse_devices 0 body) (\<lambda>devices. Ret (conn, Inr devices)))"

section \<open>The protocol, from the server's side\<close>

text \<open>How the adb server splits off a request, and how it answers one.\<close>

definition parse_request :: "bytes \<Rightarrow> (string \<times> bytes) option" where
  "parse_request bs =
     (case hex_digits 0 (string_of_bytes (take 4 bs)) of None \<Rightarrow> None
      | Some n \<Rightarrow> if length bs < 4 + n then None
          else Some (string_of_bytes (take n (drop 4 bs)), drop (4 + n) bs))"

definition status_reply :: "string option \<Rightarrow> bytes" where
  "status_reply r = (case r of None \<Rightarrow> bytes_of_string ''OKAY''
     | Some msg \<Rightarrow> bytes_of_string ''FAIL'' @ encode_request msg)"

definition short_string :: "string \<Rightarrow> bool" where
  "short_string s \<longleftrightarrow> length s \<le> 0xFFFF"

section \<open>Hexadecimal round trip\<close>

lemma hex_value_digit: "d < 16 \<Longrightarrow> hex_value (hex_digit d) = Some d"
  by (auto simp: hex_value_def hex_digit_def)

lemma hex_digits_append:
  "hex_digits acc (xs @ ys) = (case hex_digits acc xs of None \<Rightarrow> None | Some n \<Rightarrow> hex_digits n ys)"
  by (induction xs arbitrary: acc) (simp_all split: option.split)

lemma hex_digits_upper: "hex_digits 0 (hex_upper n) = Some n"
proof (induction n rule: hex_upper.induct)
  case (1 n)
  show ?case
  proof (cases "n < 16")
    case True
    then show ?thesis by (simp add: hex_upper.simps [of n] hex_value_digit)
  next
    case False
    with 1 show ?thesis
      by (simp add: hex_upper.simps [of n] hex_digits_append hex_value_digit)
  qed
qed

lemma hex_digits_zeros: "hex_digits 0 (replicate k CHR ''0'' @ s) = hex_digits 0 s"
  by (induction k) (simp_all add: hex_value_def)

lemma hex_digits_hex4 [simp]: "hex_digits 0 (hex4 n) = Some n"
  by (simp add: hex4_def hex_digits_zeros hex_digits_upper)

lemma length_hex_upper: "n < 16 ^ k \<Longrightarrow> 0 < k \<Longrightarrow> length (hex_upper n) \<le> k"
proof (induction k arbitrary: n)
  case (Suc k)
  show ?case
  proof (cases "n < 16")
    case False
    with Suc.prems(1) have "0 < k" by (cases k) simp_all
    moreover have "n div 16 < 16 ^ k" using Suc.prems(1) by (simp add: div_less_iff_less_mult mult.commute)
    ultimately show ?thesis using Suc.IH [of "n div 16"] False by (simp add: hex_upper.simps [of n])
  qed (simp add: hex_upper.simps [of n])
qed simp

lemma length_hex4: "n \<le> 0xFFFF \<Longrightarrow> length (hex4 n) = 4"
  using length_hex_upper [of n 4] by (simp add: hex4_def)

lemma hex_upper_no_sign: "hd (hex_upper n) \<notin> {CHR ''-'', CHR ''+''} \<and> hex_upper n \<noteq> []"
proof (induction n rule: hex_upper.induct)
  case (1 n)
  have d: "hex_digit d \<notin> {CHR ''-'', CHR ''+''}" if "d < 16" for d
    using hex_value_digit [OF that] by (auto simp: hex_value_def)
  show ?case
  proof (cases "n < 16")
    case True
    with d [OF True] show ?thesis by (simp add: hex_upper.simps [of n])
  next
    case False
    with 1 show ?thesis by (simp add: hex_upper.simps [of n] hd_append)
  qed
qed

lemma ParseHex_hex4: "n \<le> 0xFFFF \<Longrightarrow> ParseHex (hex4 n) = Inr (int n)"
proof -
  assume n: "n \<le> 0xFFFF"
  have "hd (hex4 n) \<notin> {CHR ''-'', CHR ''+''}" "hex4 n \<noteq> []"
    using hex_upper_no_sign [of n] by (cases "4 - length (hex_upper n)"; simp add: hex4_def)+
  then show ?thesis using n by (simp add: ParseHex_def Let_def)
qed

lemma length_encode_request: "short_string s \<Longrightarrow> length (encode_request s) = 4 + length s"
  by (simp add: encode_request_def short_string_def length_hex4)

end
