(* ===== verification/Smart_Socket_Properties.thy ===== *)
theory Smart_Socket_Properties
  imports Smart_Socket Owner_Properties
begin

text \<open>
  What the requests to the local adb server mean: the server reads back what was asked, the answers
  are taken off the connection exactly, a refused stream is closed, the device list is the
  server's, and an OPEN of the guest ends as a service request on a device connection.
\<close>

section \<open>One request and its answer\<close>

lemma parse_encode_request:
  assumes "short_string s"
  shows "parse_request (encode_request s @ rest) = Some (s, rest)"
proof -
  let ?h = "bytes_of_string (hex4 (length s))"
  have l: "length ?h = 4" using assms by (simp add: short_string_def length_hex4)
  have e: "encode_request s @ rest = ?h @ bytes_of_string s @ rest" by (simp add: encode_request_def)
  have "take 4 (encode_request s @ rest) = ?h" unfolding e using l by simp
  moreover have "drop 4 (encode_request s @ rest) = bytes_of_string s @ rest" unfolding e using l by simp
  moreover have "drop (4 + length s) (encode_request s @ rest) = rest"
    unfolding drop_drop [symmetric] add.commute [of 4] using calculation(2) by simp
  moreover have "\<not> length (encode_request s @ rest) < 4 + length s" using length_encode_request [OF assms] by simp
  ultimately show ?thesis by (simp add: parse_request_def)
qed

lemma sendCommand_writable:
  "writable conn \<Longrightarrow> sendCommand command conn = (conn\<lparr>outbound := outbound conn @ encode_request command\<rparr>, None)"
  by (simp add: sendCommand_def conn_Write_writable)

lemma readResponse_message:
  assumes "short_string msg" "\<not> conn_closed conn" "inbound conn = encode_request msg @ rest"
  shows "readResponse conn = Ret (conn\<lparr>inbound := rest\<rparr>, Inr (bytes_of_string msg))"
proof -
  let ?h = "bytes_of_string (hex4 (length msg))"
  have l: "length ?h = 4" "length msg \<le> 0xFFFF" using assms(1) by (simp_all add: short_string_def length_hex4)
  have r1: "ReadFull conn 4 = (conn\<lparr>inbound := bytes_of_string msg @ rest\<rparr>, ?h, None)"
    using assms(2,3) l(1) by (intro ReadFull_ok) (simp_all add: encode_request_def)
  have r2: "ReadFull (conn\<lparr>inbound := bytes_of_string msg @ rest\<rparr>) (length msg) =
      (conn\<lparr>inbound := rest\<rparr>, bytes_of_string msg, None)"
    using assms(2) by (simp add: ReadFull_ok)
  show ?thesis using l(2) by (simp add: readResponse_def r1 ParseHex_hex4 maxSmartSocketResponseSize_def r2)
qed

lemma checkResult_reply:
  assumes "pred_option short_string r" "\<not> conn_closed conn" "inbound conn = status_reply r @ rest"
  shows "checkResult conn = Ret (conn\<lparr>inbound := rest\<rparr>, map_option ErrSmartSocket r)"
proof (cases r)
  case None
  have "ReadFull conn 4 = (conn\<lparr>inbound := rest\<rparr>, bytes_of_string ''OKAY'', None)"
    using assms(2,3) None by (intro ReadFull_ok) (simp_all add: status_reply_def)
  with None show ?thesis by (simp add: checkResult_def responseOkay_def del: bytes_of_string_simps)
next
  case (Some msg)
  have f: "ReadFull conn 4 = (conn\<lparr>inbound := encode_request msg @ rest\<rparr>, bytes_of_string ''FAIL'', None)"
    using assms(2,3) Some by (intro ReadFull_ok) (simp_all add: status_reply_def)
  have "readResponse (conn\<lparr>inbound := encode_request msg @ rest\<rparr>) = Ret (conn\<lparr>inbound := rest\<rparr>, Inr (bytes_of_string msg))"
    using readResponse_message [of msg "conn\<lparr>inbound := encode_request msg @ rest\<rparr>" rest] assms(1,2) Some by simp
  with f Some show ?thesis by (simp add: checkResult_def responseOkay_def del: bytes_of_string_simps)
qed

lemma selectTransport_reply:
  assumes "pred_option short_string r" "writable conn" "inbound conn = status_reply r @ rest"
  shows "selectTransport serial conn = Ret (conn\<lparr>inbound := rest,
       outbound := outbound conn @ encode_request (''host:transport:'' @ serial)\<rparr>, map_option ErrSmartSocket r)"
proof -
  let ?conn = "conn\<lparr>outbound := outbound conn @ encode_request (''host:transport:'' @ serial)\<rparr>"
  have "checkResult ?conn = Ret (?conn\<lparr>inbound := rest\<rparr>, map_option ErrSmartSocket r)"
    using assms by (intro checkResult_reply) (simp_all add: writable_def)
  then show ?thesis by (simp add: selectTransport_def sendCommand_writable [OF assms(2)])
qed

section \<open>The device list\<close>

definition device_line :: "Device \<Rightarrow> bytes" where
  "device_line d = bytes_of_string (Device_Id d) @ [0x09] @ bytes_of_string (Device_Type d) @ [0x0a]"

definition plain_device :: "Device \<Rightarrow> bool" where
  "plain_device d \<longleftrightarrow> 0x09 \<notin> set (bytes_of_string (Device_Id d)) \<and> 0x0a \<notin> set (bytes_of_string (Device_Type d))"

lemma scan_to_found:
  "c \<notin> set ys \<Longrightarrow> scan_to c (length xs) (xs @ ys @ c # zs) = length xs + length ys"
proof (induction ys arbitrary: xs)
  case Nil
  then show ?case by (subst scan_to.simps) simp
next
  case (Cons y ys)
  from Cons.IH [of "xs @ [y]"] Cons.prems show ?case by (subst scan_to.simps) (auto simp: nth_append)
qed

lemma scan_to_missing:
  "c \<notin> set ys \<Longrightarrow> scan_to c (length xs) (xs @ ys) = length xs + length ys"
proof (induction ys arbitrary: xs)
  case Nil
  then show ?case by (subst scan_to.simps) simp
next
  case (Cons y ys)
  from Cons.IH [of "xs @ [y]"] Cons.prems show ?case by (subst scan_to.simps) (auto simp: nth_append)
qed

lemma parse_device_line:
  assumes "plain_device d"
  shows "parse_devices (length xs) (xs @ device_line d @ zs) =
     andThen (parse_devices (length (xs @ device_line d)) (xs @ device_line d @ zs)) (\<lambda>ds. Ret (d # ds))"
proof -
  let ?id = "bytes_of_string (Device_Id d)" and ?ty = "bytes_of_string (Device_Type d)"
  let ?body = "xs @ ?id @ 0x09 # ?ty @ 0x0a # zs"
  have tab: "scan_to 0x09 (length xs) ?body = length xs + length ?id"
    using assms by (intro scan_to_found) (simp add: plain_device_def)
  have "scan_to 0x0a (length (xs @ ?id @ [0x09])) ((xs @ ?id @ [0x09]) @ ?ty @ 0x0a # zs) =
      length (xs @ ?id @ [0x09]) + length ?ty"
    using assms by (intro scan_to_found) (simp add: plain_device_def)
  then have nl: "scan_to 0x0a (length xs + length ?id + 1) ?body = length xs + length ?id + 1 + length ?ty"
    by simp
  have s1: "go_slice (length xs) (length xs + length ?id) ?body = Ret ?id" by (simp add: slice_def)
  have s2: "go_slice (length xs + length ?id + 1) (length xs + length ?id + 1 + length ?ty) ?body = Ret ?ty"
    by (simp add: slice_def)
  have body: "xs @ device_line d @ zs = ?body" "length (xs @ device_line d) = length xs + length ?id + 1 + length ?ty + 1"
    by (simp_all add: device_line_def)
  have "parse_devices (length xs) ?body = andThen (parse_devices (length xs + length ?id + 1 + length ?ty + 1) ?body)
      (\<lambda>ds. Ret (d # ds))"
    using tab nl s1 s2 by (subst parse_devices.simps) (cases d, simp add: Let_def)
  then show ?thesis by (simp only: body)
qed

lemma parse_device_lines:
  assumes "\<forall>d \<in> set ds. plain_device d" "0x09 \<notin> set junk"
  shows "parse_devices (length xs) (xs @ concat (map device_line ds) @ junk) = (if junk = [] then Ret ds else Panic)"
  using assms(1)
proof (induction ds arbitrary: xs)
  case Nil
  show ?case
  proof (cases "junk = []")
    case True
    then show ?thesis by (subst parse_devices.simps) simp
  next
    case False
    have "scan_to 0x09 (length xs) (xs @ junk) = length (xs @ junk)" using scan_to_missing [OF assms(2)] by simp
    moreover have "go_slice (length (xs @ junk) + 1) (scan_to 0x0a (length (xs @ junk) + 1) (xs @ junk)) (xs @ junk) = Panic"
      using scan_to_le [where c = "0x0a" and i = "length (xs @ junk) + 1" and body = "xs @ junk"] by (simp add: go_slice_def)
    ultimately show ?thesis using False by (subst parse_devices.simps) (simp add: Let_def)
  qed
next
  case (Cons d ds)
  from Cons.IH [of "xs @ device_line d"] parse_device_line [where d = d and xs = xs and zs = "concat (map device_line ds) @ junk"] Cons.prems
  show ?case by simp
qed

section \<open>Properties\<close>

text \<open>
  The adb server finds the request again: it splits the length in four hexadecimal digits and the
  command off the stream, for every command of up to 65535 bytes.
\<close>

theorem request_round_trip:
  assumes "short_string command" "writable conn"
  shows "\<exists>conn'. sendCommand command conn = (conn', None) \<and>
     (\<exists>sent. outbound conn' = outbound conn @ sent \<and> (\<forall>later. parse_request (sent @ later) = Some (command, later)))"
  using assms parse_encode_request by (auto simp: sendCommand_writable)

theorem request_round_trip_witness:
  "\<exists>sent. outbound (fst (sendCommand ''host:devices'' (fresh_conn []))) = sent \<and>
     parse_request (sent @ [1]) = Some (''host:devices'', [1])"
proof -
  have "short_string ''host:devices''" by (simp add: short_string_def)
  from request_round_trip [OF this writable_fresh_conn, of "[]"] show ?thesis by (auto simp: fresh_conn_def)
qed

text \<open>
  C25.  Opening a service is a conversation of two requests, each sent only after the one before was
  granted.  If the server grants both, the connection is handed out with exactly the service's
  stream left to read; if it refuses one, its message is the error and the connection is closed.
\<close>

theorem OpenStream_conversation:
  assumes "writable conn" "inbound conn = status_reply r1 @ status_reply r2 @ stream"
    and "pred_option short_string r1" "pred_option short_string r2"
  shows "\<exists>conn'. OpenStream (Inr conn) serial service = Ret (Some conn', map_option ErrSmartSocket (case r1 of Some m \<Rightarrow> Some m | None \<Rightarrow> r2)) \<and>
     outbound conn' = outbound conn @ encode_request (''host:transport:'' @ serial) @
       (if r1 = None then encode_request service else []) \<and>
     (conn_closed conn' \<longleftrightarrow> r1 \<noteq> None \<or> r2 \<noteq> None) \<and>
     (r1 = None \<and> r2 = None \<longrightarrow> inbound conn' = stream)"
proof -
  note t = selectTransport_reply [OF assms(3,1,2), of serial]
  let ?conn = "conn\<lparr>inbound := status_reply r2 @ stream, outbound := outbound conn @ encode_request (''host:transport:'' @ serial)\<rparr>"
  have w: "writable ?conn" using assms(1) by (simp add: writable_def)
  have "checkResult (?conn\<lparr>outbound := outbound ?conn @ encode_request service\<rparr>) =
      Ret (?conn\<lparr>outbound := outbound ?conn @ encode_request service, inbound := stream\<rparr>, map_option ErrSmartSocket r2)"
    using checkResult_reply [OF assms(4), of "?conn\<lparr>outbound := outbound ?conn @ encode_request service\<rparr>" stream] w
    by (simp add: writable_def)
  with t sendCommand_writable [OF w, of service] assms(1) show ?thesis
    by (cases r1; cases r2) (simp_all add: OpenStream_def conn_fails_def conn_Close_def writable_def)
qed

theorem OpenStream_conversation_witness:
  "\<exists>conn'. OpenStream (Inr (fresh_conn (status_reply None @ status_reply (Some ''closed'') @ []))) ''emulator'' ''sync:'' =
     Ret (Some conn', Some (ErrSmartSocket ''closed'')) \<and> conn_closed conn'"
proof -
  have "pred_option short_string (Some ''closed'')" by (simp add: short_string_def)
  from OpenStream_conversation [OF writable_fresh_conn, where ?r1.0 = None and ?r2.0 = "Some ''closed''" and stream = "[]"] this
  show ?thesis by (fastforce simp: fresh_conn_def)
qed

text \<open>
  The device list is read back exactly: one entry per line, for any number of devices.  But a
  rest without a tab after the last line makes the parser panic instead of returning an error.
\<close>

theorem device_list_round_trip:
  assumes "\<forall>d \<in> set ds. plain_device d" "0x09 \<notin> set junk"
  shows "parse_devices 0 (concat (map device_line ds) @ junk) = (if junk = [] then Ret ds else Panic)"
  using parse_device_lines [OF assms, of "[]"] by simp

theorem device_list_round_trip_witness:
  "parse_devices 0 (device_line \<lparr>Device_Id = ''emu'', Device_Type = ''device''\<rparr>) =
     Ret [\<lparr>Device_Id = ''emu'', Device_Type = ''device''\<rparr>] \<and>
   parse_devices 0 (bytes_of_string ''oops'') = Panic"
proof -
  let ?d = "\<lparr>Device_Id = ''emu'', Device_Type = ''device''\<rparr>"
  have 1: "\<forall>d \<in> set [?d]. plain_device d" "0x09 \<notin> set ([] :: bytes)"
    by (simp_all add: plain_device_def byte_of_char_def)
  have 2: "\<forall>d \<in> set []. plain_device d" "0x09 \<notin> set (bytes_of_string ''oops'')"
    by (simp_all add: byte_of_char_def)
  from device_list_round_trip [OF 1] device_list_round_trip [OF 2] show ?thesis by simp
qed

section \<open>From an OPEN to the device\<close>

text \<open>\<open>OpenStream\<close> as the multiplexer uses it: the connection, or the error.\<close>

definition socket_stream :: "(string \<Rightarrow> error + net_conn) \<Rightarrow> open_stream" where
  "socket_stream dial serial service =
     (case OpenStream (dial serial) serial service of
        Ret (Some conn, None) \<Rightarrow> Inr conn
      | Ret (_, Some e) \<Rightarrow> Inl e
      | _ \<Rightarrow> Inl ErrNetClosed)"

text \<open>
  C26.  An OPEN of the guest becomes a service request to the local adb server: on a fresh connection
  the server reads the selection of the shared device and then the service, without the guest's
  trailing NUL; if it grants both, the stream carries exactly what the service sends, and the guest
  gets OKAY.
\<close>

theorem open_reaches_adb_server:
  assumes "mux_ok client_ok mux" "client_writable (tclient mux)"
    and "dial (deviceId mux) = Inr (fresh_conn (status_reply None @ status_reply None @ stream))"
    and "short_string (''host:transport:'' @ deviceId mux)" "short_string (trim_nul raw)"
  shows "\<exists>mux' st. handleOpen SendAdbMessage (socket_stream dial) guest raw mux = Ret mux' \<and>
     stream_heap mux' = stream_heap mux @ [st] \<and> guestId st = guest \<and> inbound (stream_conn st) = stream \<and>
     parse_request (outbound (stream_conn st)) =
       Some (''host:transport:'' @ deviceId mux, encode_request (trim_nul raw)) \<and>
     parse_request (encode_request (trim_nul raw)) = Some (trim_nul raw, []) \<and>
     client_wire (tclient mux') = client_wire (tclient mux) @ adb_frame AdbCommandOkay (ownId st) guest []"
proof -
  let ?conn = "fresh_conn (status_reply None @ status_reply None @ stream)"
  note t = selectTransport_reply [of None ?conn "status_reply None @ stream" "deviceId mux"]
  let ?conn1 = "?conn\<lparr>inbound := status_reply None @ stream, outbound := outbound ?conn @ encode_request (''host:transport:'' @ deviceId mux)\<rparr>"
  have w: "writable ?conn1" by (simp add: writable_def fresh_conn_def)
  let ?conn2 = "?conn1\<lparr>outbound := outbound ?conn1 @ encode_request (trim_nul raw)\<rparr>"
  have "checkResult ?conn2 = Ret (?conn2\<lparr>inbound := stream\<rparr>, None)"
    using checkResult_reply [of None ?conn2 stream] by (simp add: fresh_conn_def)
  then have opened: "socket_stream dial (deviceId mux) (trim_nul raw) = Inr (?conn2\<lparr>inbound := stream\<rparr>)"
    using t assms(3) sendCommand_writable [OF w, of "trim_nul raw"]
    by (simp add: socket_stream_def OpenStream_def) (simp add: fresh_conn_def)
  have c: "can_send client_ok mux" using assms(1) by (simp add: mux_ok_def)
  obtain mux' where m: "handleOpen SendAdbMessage (socket_stream dial) guest raw mux = Ret mux'"
    "same_table mux' (set_pump (length (stream_heap mux)) PumpReading (opened guest (?conn2\<lparr>inbound := stream\<rparr>) mux))"
    "client_wire (tclient mux') = client_wire (tclient mux) @ adb_frame AdbCommandOkay (nextId mux + 1) guest []"
    using client_up.open_answer [OF c assms(2), of "socket_stream dial" guest raw] opened by auto
  let ?st = "\<lparr>guestId = guest, ownId = nextId mux + 1, stream_conn = ?conn2\<lparr>inbound := stream\<rparr>, sendPermit = True,
     stream_done = False, pump = PumpReading\<rparr>"
  have "stream_heap mux' = stream_heap mux @ [?st]"
    using m(2) by (simp add: same_table_def set_pump_def upd_stream_def opened_def)
  moreover have "parse_request (outbound (stream_conn ?st)) =
       Some (''host:transport:'' @ deviceId mux, encode_request (trim_nul raw))"
    using parse_encode_request [OF assms(4), of "encode_request (trim_nul raw)"] by (simp add: fresh_conn_def)
  moreover have "parse_request (encode_request (trim_nul raw)) = Some (trim_nul raw, [])"
    using parse_encode_request [OF assms(5), of "[]"] by simp
  ultimately show ?thesis using m(1,3) by (intro exI [of _ mux'] exI [of _ ?st]) simp
qed

theorem open_reaches_adb_server_witness:
  "\<exists>mux' st. handleOpen SendAdbMessage
       (socket_stream (\<lambda>_. Inr (fresh_conn (status_reply None @ status_reply None @ [1])))) 7 ''sync:'' sample_mux = Ret mux' \<and>
     stream_heap mux' = [st] \<and> inbound (stream_conn st) = [1]"
proof -
  have s: "client_writable (tclient sample_mux)" "stream_heap sample_mux = []" "deviceId sample_mux = ''emulator-5554''"
    using sample_client_ok by (simp_all add: sample_mux_def NewOwnerMultiplexer_def)
  have "short_string (''host:transport:'' @ deviceId sample_mux)" "short_string (trim_nul ''sync:'')"
    by (simp_all add: s(3) short_string_def trim_nul_def)
  from open_reaches_adb_server [OF sample_mux_ok s(1) _ this, of "\<lambda>_. Inr (fresh_conn (status_reply None @ status_reply None @ [1]))" "[1]" 7]
  show ?thesis using s(2) by auto
qed

end
