(* ===== verification/Adb_Proxy.thy ===== *)
theory Adb_Proxy
  imports Relay
begin

text \<open>
  \<open>client/adb/proxy.go\<close>: the listener that poses as one device to the guest's local adb server.
  Every accepted connection goes through the CNXN handshake in its own goroutine and is then offered on the
  unbuffered channel of connections.  Listening and accepting are the environment's.
\<close>

definition DefaultProxyPort :: string where "DefaultProxyPort = ''5038''"

definition deviceFeatures :: string where
  "deviceFeatures = ''shell_v2,cmd,stat_v2,ls_v2,fixed_push_mkdir,apex,abb,fixed_push_symlink_timestamp,abb_exec,remount_shell,track_app,sendrecv_v2''"

section \<open>Listening\<close>

text \<open>\<open>proxy_started\<close> says whether \<open>cancelFunc\<close> is set, \<open>listening\<close> whether the listener is open.\<close>

record AdbProxy =
  proxy_port :: string
  listening :: bool
  proxy_started :: bool
  proxy_cancelled :: bool

definition NewAdbProxy :: "string \<Rightarrow> AdbProxy" where
  "NewAdbProxy p = \<lparr>proxy_port = p, listening = False, proxy_started = False, proxy_cancelled = False\<rparr>"

definition Proxy_Start :: "error option \<Rightarrow> AdbProxy \<Rightarrow> AdbProxy \<times> error option" where
  "Proxy_Start listen p =
     (case listen of Some e \<Rightarrow> (p, Some e)
      | None \<Rightarrow> (p\<lparr>listening := True, proxy_started := True, proxy_cancelled := False\<rparr>, None))"

definition Proxy_Stop :: "AdbProxy \<Rightarrow> AdbProxy" where
  "Proxy_Stop p = (if proxy_started p then p\<lparr>proxy_cancelled := True, listening := False\<rparr> else p\<lparr>listening := False\<rparr>)"

text \<open>One turn of the accept loop: leave, go on, or serve a connection in a goroutine of its own.\<close>

datatype accept_turn = LeaveLoop | TryAgain | Serve net_conn

definition accept_loop_turn :: "AdbProxy \<Rightarrow> error + net_conn \<Rightarrow> accept_turn" where
  "accept_loop_turn p accepted =
     (case accepted of Inl e \<Rightarrow> if proxy_cancelled p then LeaveLoop else TryAgain | Inr conn \<Rightarrow> Serve conn)"

section \<open>The handshake\<close>

definition proxy_banner :: "string \<Rightarrow> string" where
  "proxy_banner roomId =
     ''device::ro.product.name=adb-remote;ro.product.model=wrapper-remote-'' @ roomId @
     '';ro.product.device=wrapper-remote-'' @ roomId @ '';features='' @ deviceFeatures"

definition dropped :: "net_conn \<Rightarrow> net_conn \<times> bool" where
  "dropped conn = (fst (conn_Close conn), False)"

text \<open>
  The result is the connection and whether it was handed over; \<open>taken\<close> tells which arm of the last
  \<open>select\<close> was taken, the receiver's or the cancelled context's.
\<close>

definition handleConnection :: "bool \<Rightarrow> string \<Rightarrow> net_conn \<Rightarrow> (net_conn \<times> bool) outcome" where
  "handleConnection taken roomId conn =
     andThen (AdbRead CreateMessage conn) (\<lambda>(message, conn1, err).
     case err of Some e \<Rightarrow> Ret (dropped conn1) | None \<Rightarrow>
     if AdbCommand message \<noteq> AdbCommandConnect then Ret (dropped conn1)
     else let protocolVersion = AdbArg1 message in
       (case AdbSet AdbCommandConnect protocolVersion Adb_Message.MaxPayloadLength
               (bytes_of_string (proxy_banner roomId)) message of (message1, err) \<Rightarrow>
        (case err of Some e \<Rightarrow> Ret (dropped conn1) | None \<Rightarrow>
         andThen (AdbWrite message1 conn1) (\<lambda>(conn2, err).
           case err of Some e \<Rightarrow> Ret (dropped conn2)
           | None \<Rightarrow> if taken then Ret (conn2, True) else Ret (dropped conn2)))))"

lemma length_proxy_banner: "length (proxy_banner roomId) \<le> 400 + 2 * length roomId"
  by (simp add: proxy_banner_def deviceFeatures_def)

text \<open>
  A local adb server that opens with CNXN is answered, whatever it offers, with a CNXN of its own protocol
  version, the maximal payload of this program and a banner naming the room, and is handed over with
  what it sent next unread; after any other valid message the connection is closed without a word.
\<close>

theorem handleConnection_reply:
  assumes "writable conn" "adb_command_ok command" "length data \<le> 0x8000" "length roomId \<le> 1000"
    and "inbound conn = adb_wire command version size' chk data @ rest"
  shows "handleConnection True roomId conn =
     (if command = AdbCommandConnect
      then Ret (conn\<lparr>inbound := rest, outbound := outbound conn @
          adb_wire AdbCommandConnect version 0x8000 (checksum (bytes_of_string (proxy_banner roomId)))
            (bytes_of_string (proxy_banner roomId))\<rparr>, True)
      else Ret (dropped (conn\<lparr>inbound := rest\<rparr>)))"
proof -
  have "\<not> conn_closed conn" using assms(1) by (simp add: writable_def)
  with AdbRead_wire [OF adb_wf_CreateMessage _ assms(2,3,5)] obtain m where
    m: "AdbRead CreateMessage conn = Ret (m, conn\<lparr>inbound := rest\<rparr>, None)" "adb_wf m"
      "adb_holds m command version size' chk data" by blast
  note f = adb_holds_fields [OF m(3)]
  show ?thesis
  proof (cases "command = AdbCommandConnect")
    case False
    with m(1) f show ?thesis by (simp add: handleConnection_def)
  next
    case True
    let ?b = "bytes_of_string (proxy_banner roomId)"
    have "length ?b \<le> 0x8000" using assms(4) length_proxy_banner [of roomId] by simp
    then obtain m1 where m1: "AdbSet AdbCommandConnect version Adb_Message.MaxPayloadLength ?b m = (m1, None)"
      "adb_holds m1 AdbCommandConnect version Adb_Message.MaxPayloadLength (checksum ?b) ?b"
      using AdbSet_holds [OF m(2)] by blast
    have "writable (conn\<lparr>inbound := rest\<rparr>)" using assms(1) by (simp add: writable_def)
    from AdbWrite_writable [OF m1(2) this] m(1) m1(1) f True show ?thesis
      by (simp add: handleConnection_def Let_def Adb_Message.MaxPayloadLength_def)
  qed
qed

theorem handleConnection_reply_witness:
  "\<exists>conn'. handleConnection True ''AB12'' (fresh_conn (adb_wire AdbCommandConnect 1 0x100000 0 [7] @ [3])) = Ret (conn', True) \<and>
     inbound conn' = [3] \<and>
   (\<exists>conn''. handleConnection True ''AB12'' (fresh_conn (adb_wire AdbCommandOpen 1 0 0 [7] @ [])) = Ret (conn'', False) \<and>
     conn_closed conn'' \<and> outbound conn'' = [])"
proof -
  have c: "writable (fresh_conn bs)" "inbound (fresh_conn bs) = bs" "outbound (fresh_conn bs) = []" for bs
    by (simp_all add: writable_def fresh_conn_def)
  have len: "length [7 :: byte] \<le> 0x8000" "length ''AB12'' \<le> 1000" by simp_all
  have "AdbCommandOpen \<noteq> AdbCommandConnect" by (simp add: AdbCommandOpen_def AdbCommandConnect_def)
  moreover have "adb_command_ok AdbCommandConnect" "adb_command_ok AdbCommandOpen"
    by (simp_all add: adb_command_ok_def validateCommand_def)
  ultimately show ?thesis
    using handleConnection_reply [OF c(1) _ len c(2), of AdbCommandConnect 1 "0x100000" 0 "[3]"]
      handleConnection_reply [OF c(1) _ len c(2), of AdbCommandOpen 1 0 0 "[]"] c(3)
    by (simp add: dropped_def conn_Close_def)
qed

end
