(* ===== verification/Controllers.thy ===== *)
theory Controllers
  imports Adb_Proxy
begin

text \<open>
  \<open>client/controller/baseController.go\<close>, \<open>guestController.go\<close> and \<open>events.go\<close>: the handshake with the
  transporter, joining a room, and the guest's main loop.  \<open>onEvent\<close> is called on the same goroutine; the
  events are returned in the order of the calls.  Logging is left out.
\<close>

section \<open>Events\<close>

datatype OwnerEventKind = OwnerRoomCreated | OwnerJoinRequested | OwnerJoinDecided | OwnerJoinFailed | OwnerGuestLeft

record OwnerEvent =
  OKind :: OwnerEventKind
  ORoomId :: string
  OGuestClientId :: string
  OGuestPublicKey :: bytes
  OAccepted :: bool
  OErr :: "error option"

definition owner_event :: "OwnerEventKind \<Rightarrow> OwnerEvent" where
  "owner_event k = \<lparr>OKind = k, ORoomId = [], OGuestClientId = [], OGuestPublicKey = [], OAccepted = False, OErr = None\<rparr>"

datatype GuestEventKind =
    GuestJoinDecided | GuestProxyReady | GuestLocalAdbConnected | GuestRelayStopped | GuestAdbConnected
  | GuestAdbConnectFailed | GuestTransportLost

record GuestEvent =
  GKind :: GuestEventKind
  GAccepted :: bool
  GOwnerClientId :: string
  GOwnerPublicKey :: bytes
  GLocalPort :: string
  GErr :: "error option"

definition guest_event :: "GuestEventKind \<Rightarrow> GuestEvent" where
  "guest_event k = \<lparr>GKind = k, GAccepted = False, GOwnerClientId = [], GOwnerPublicKey = [], GLocalPort = [], GErr = None\<rparr>"

section \<open>One request and its answer\<close>

text \<open>
  What \<open>Handshake\<close>, \<open>createRoom\<close> and \<open>roomJoinStep\<close> share: wait for the next message, give its data to
  \<open>body\<close>, and run the deferred \<open>Dispose\<close> on every path.
\<close>

definition receive_message ::
  "(TransporterMessage \<Rightarrow> (error + 'a) outcome) \<Rightarrow> Client \<Rightarrow> (Client \<times> (error + 'a)) outcome" where
  "receive_message body c =
     andThen (Messages c) (\<lambda>(c1, received).
       case received of None \<Rightarrow> Ret (c1, Inl ErrTransportClosed)
       | Some a \<Rightarrow>
         andThen (case Data a (messagePool c1) of Inl e \<Rightarrow> Ret (Inl e) | Inr message \<Rightarrow> body message) (\<lambda>res.
           Ret (fst (dispose_received a c1), res)))"

definition server_error :: "string \<Rightarrow> TransporterMessage \<Rightarrow> (error + 'a) outcome" where
  "server_error what message =
     andThen (GetErrorPayload message) (\<lambda>res.
       case res of Inl e \<Rightarrow> Ret (Inl e)
       | Inr payload \<Rightarrow> Ret (Inl (ErrServer what (ErrorCode payload) (ErrorMessage payload))))"

definition handshake_answer :: "TransporterMessage \<Rightarrow> (error + string) outcome" where
  "handshake_answer message =
     (if IsError message then server_error ''connect error'' message
      else andThen (GetPayloadConnectResponse message) (\<lambda>res.
        case res of Inl e \<Rightarrow> Ret (Inl e) | Inr payload \<Rightarrow> Ret (Inr (ClientId payload))))"

definition Handshake :: "Client \<Rightarrow> (Client \<times> (error + string)) outcome" where
  "Handshake c =
     andThen (SendConnect c) (\<lambda>(c1, err).
       case err of Some e \<Rightarrow> Ret (c1, Inl e) | None \<Rightarrow> receive_message handshake_answer c1)"

definition create_room_answer :: "TransporterMessage \<Rightarrow> (error + string) outcome" where
  "create_room_answer message =
     (if IsError message then server_error ''create room error'' message
      else (case ExpectCommand message (CommandCreateRoom OR CommandResponseMask) of Some e \<Rightarrow> Ret (Inl e)
        | None \<Rightarrow> andThen (GetPayloadCreateRoomResponse message) (\<lambda>res.
            case res of Inl e \<Rightarrow> Ret (Inl e) | Inr payload \<Rightarrow> Ret (Inr (CreatedRoomId payload)))))"

definition createRoom :: "Client \<Rightarrow> (Client \<times> (error + string)) outcome" where
  "createRoom c =
     andThen (SendCreateRoom c) (\<lambda>(c1, err).
       case err of Some e \<Rightarrow> Ret (c1, Inl e) | None \<Rightarrow> receive_message create_room_answer c1)"

definition join_room_answer :: "TransporterMessage \<Rightarrow> (error + TransporterMessagePayloadConnectRoomResult) outcome" where
  "join_room_answer message =
     (if IsError message then server_error ''join room error'' message
      else (case ExpectCommand message (CommandJoinRoom OR CommandResponseMask) of Some e \<Rightarrow> Ret (Inl e)
        | None \<Rightarrow> GetPayloadConnectRoomResponse message))"

definition roomJoinStep :: "bytes \<Rightarrow> string \<Rightarrow> Client \<Rightarrow> (Client \<times> GuestEvent list \<times> error option) outcome" where
  "roomJoinStep publicKey roomId c =
     andThen (SendJoinRoom roomId publicKey c) (\<lambda>(c1, err).
       case err of Some e \<Rightarrow> Ret (c1, [], Some e) | None \<Rightarrow>
       andThen (receive_message join_room_answer c1) (\<lambda>(c2, res).
         case res of Inl e \<Rightarrow> Ret (c2, [], Some e)
         | Inr payload \<Rightarrow>
           let accepted = (Accepted payload \<noteq> 0);
               decided = (guest_event GuestJoinDecided)\<lparr>GAccepted := accepted,
                 GOwnerClientId := OwnerClientId payload, GOwnerPublicKey := OwnerPublicKey payload\<rparr> in
           Ret (c2, [decided], if accepted then None else Some (ErrJoinRoomDenied roomId))))"

section \<open>The guest's main loop\<close>

text \<open>
  \<open>guest_loop c events c' e\<close>: started with the client \<open>c\<close>, the loop can emit the events and
  return \<open>e\<close>.  \<open>select\<close> takes any ready arm; a local connection runs the relay to its end.
\<close>

inductive guest_loop :: "Client \<Rightarrow> GuestEvent list \<Rightarrow> Client \<Rightarrow> error \<Rightarrow> bool" where
  loop_cancelled: "guest_loop c [] c ErrContextCancelled"
| loop_lost: "Messages c = Ret (c1, None) \<Longrightarrow> guest_loop c [guest_event GuestTransportLost] c1 ErrTransportClosed"
| loop_ignores: "Messages c = Ret (c1, Some a) \<Longrightarrow> guest_loop (fst (dispose_received a c1)) events c2 e \<Longrightarrow>
     guest_loop c events c2 e"
| loop_reads: "reader c = Reading \<Longrightarrow> startReader c = Ret c1 \<Longrightarrow> guest_loop c1 events c2 e \<Longrightarrow> guest_loop c events c2 e"
| loop_relays: "relay_run (Run_start conn c) turns r \<Longrightarrow> Run_returns r = Some x \<Longrightarrow> x \<noteq> ErrTransportClosed \<Longrightarrow>
     guest_loop (relay_client r) events c2 e \<Longrightarrow>
     guest_loop c (guest_event GuestLocalAdbConnected # (guest_event GuestRelayStopped)\<lparr>GErr := Some x\<rparr> # events) c2 e"
| loop_relay_lost: "relay_run (Run_start conn c) turns r \<Longrightarrow> Run_returns r = Some ErrTransportClosed \<Longrightarrow>
     guest_loop c [guest_event GuestLocalAdbConnected, (guest_event GuestRelayStopped)\<lparr>GErr := Some ErrTransportClosed\<rparr>,
       guest_event GuestTransportLost] (relay_client r) ErrTransportClosed"

text \<open>
  \<open>listen\<close> is the error of \<open>proxy.Start\<close>, \<open>adb_connect\<close> that of the automatic \<open>adb connect\<close>;
  the deferred \<open>adb disconnect\<close> and \<open>proxy.Stop\<close> concern the adb server and the listener only.
\<close>

inductive JoinAsGuest ::
  "bytes \<Rightarrow> string \<Rightarrow> string \<Rightarrow> error option \<Rightarrow> error option \<Rightarrow> Client \<Rightarrow> GuestEvent list \<Rightarrow> Client \<Rightarrow> error \<Rightarrow> bool"
  for publicKey :: bytes and roomId localPort :: string and listen adb_connect :: "error option" where
  join_fails: "roomJoinStep publicKey roomId c = Ret (c1, events, Some e) \<Longrightarrow>
     JoinAsGuest publicKey roomId localPort listen adb_connect c events c1 e"
| listen_fails: "roomJoinStep publicKey roomId c = Ret (c1, events, None) \<Longrightarrow> listen = Some e \<Longrightarrow>
     JoinAsGuest publicKey roomId localPort listen adb_connect c events c1 e"
| serves: "roomJoinStep publicKey roomId c = Ret (c1, events, None) \<Longrightarrow> listen = None \<Longrightarrow>
     guest_loop c1 events1 c2 e \<Longrightarrow>
     JoinAsGuest publicKey roomId localPort listen adb_connect c
       (events @ [(guest_event GuestProxyReady)\<lparr>GLocalPort := localPort\<rparr>,
          case adb_connect of None \<Rightarrow> guest_event GuestAdbConnected
          | Some x \<Rightarrow> (guest_event GuestAdbConnectFailed)\<lparr>GErr := Some x\<rparr>] @ events1) c2 e"

inductive_cases JoinAsGuestE: "JoinAsGuest publicKey roomId localPort listen adb_connect c events c' e"

end
