(* ===== verification/Controller_Properties.thy ===== *)
theory Controller_Properties
  imports Reader_Properties Controllers Relay_Properties
begin

text \<open>
  The client's flows against what the transporter sends: the handshake across both programs, the join
  decision, totality on every stream without a lost buffer, and which ends of the guest's session
  are reported to the user.
\<close>

section \<open>Receiving one message\<close>

lemma dispose_received_pool:
  "fst (dispose_received a c) = c\<lparr>messagePool := fst (Dispose a (messagePool c))\<rparr>"
  by (simp add: dispose_received_def split: prod.split)

lemma receive_message_frame:
  assumes "client_ok c" "reader c = Reading" "\<not> ctx_done c" "client_connection c = Some tc" "\<not> conn_closed tc"
    and "inbound tc = encode_frame command payload @ rest" "length payload \<le> 0xF000"
    and body: "\<And>m. holds_frame m command payload \<Longrightarrow> body m = Ret res"
  shows "\<exists>c'. receive_message body c = Ret (c', res) \<and> client_ok c' \<and> reader c' = Reading \<and>
     same_leases (messagePool c) (messagePool c') \<and> client_connection c' = Some (tc\<lparr>inbound := rest\<rparr>) \<and>
     ctx_done c' = ctx_done c"
proof -
  have "decode_frame (in_end tc) (inbound tc) = Inr (command, payload, rest)"
    unfolding assms(6) by (rule decode_encode_frame [OF assms(7)])
  with Messages_decodes [OF assms(1,4,5,3,2)] obtain c1 a where m: "Messages c = Ret (c1, Some a)" "reader c1 = Reading"
    "took_frame c c1 a command payload rest" by auto
  then obtain msg where msg: "Data a (messagePool c1) = Inr msg" "holds_frame msg command payload"
    "pool_holds a (messagePool c) (messagePool c1)" by (auto simp: took_frame_def)
  from pool_holds_dispose [OF msg(3)] body [OF msg(2)] m msg(1) assms(4) show ?thesis
    by (simp add: receive_message_def dispose_received_pool client_ok_def took_frame_def)
qed

lemma receive_message_returns:
  assumes "client_recv p0 c" "reader c \<noteq> NotStarted"
    and body: "\<And>m. clean_message m \<Longrightarrow> \<exists>res. body m = Ret res"
  shows "\<exists>c' res. receive_message body c = Ret (c', res) \<and> client_recv p0 c' \<and> reader c' \<noteq> NotStarted"
proof -
  from client_recv_Messages [OF assms(1,2)] obtain c1 received where r: "Messages c = Ret (c1, received)" "client_ok c1"
    "case received of None \<Rightarrow> client_recv p0 c1 \<and> reader c1 \<noteq> NotStarted
      | Some a \<Rightarrow> reader c1 = Reading \<and> pool_holds a p0 (messagePool c1) \<and>
          (\<exists>m. Data a (messagePool c1) = Inr m \<and> clean_message m)"
    by (auto elim!: returnsE)
  show ?thesis
  proof (cases received)
    case None
    with r show ?thesis by (simp add: receive_message_def)
  next
    case (Some a)
    with r(3) obtain m where m: "reader c1 = Reading" "pool_holds a p0 (messagePool c1)"
      "Data a (messagePool c1) = Inr m" "clean_message m" by auto
    from body [OF m(4)] obtain res where "body m = Ret res" by blast
    with r(1,2) Some m(1,3) pool_holds_dispose [OF m(2)] show ?thesis
      by (simp add: receive_message_def dispose_received_pool client_recv_def client_ok_def)
  qed
qed

section \<open>The bodies return on every message the reader hands out\<close>

lemma GetErrorPayload_returns: "clean_message m \<Longrightarrow> \<exists>res. GetErrorPayload m = Ret res"
  using error_payload.get_total by (simp add: clean_message_def)

lemma server_error_returns: "clean_message m \<Longrightarrow> \<exists>res. server_error what m = Ret res"
  using GetErrorPayload_returns [of m] by (fastforce simp: server_error_def split: sum.split)

lemma handshake_answer_returns: "clean_message m \<Longrightarrow> \<exists>res. handshake_answer m = Ret res"
  using connect_response.get_total [of m] server_error_returns [of m]
  by (fastforce simp: handshake_answer_def clean_message_def split: sum.split)

lemma join_room_answer_returns: "clean_message m \<Longrightarrow> \<exists>res. join_room_answer m = Ret res"
  using connect_room_result.get_total [of m] server_error_returns [of m]
  by (auto simp: join_room_answer_def clean_message_def split: option.split)

lemma create_room_answer_returns: "clean_message m \<Longrightarrow> \<exists>res. create_room_answer m = Ret res"
  using create_room_response.get_total [of m] server_error_returns [of m]
  by (fastforce simp: create_room_answer_def clean_message_def split: option.split sum.split)

lemma SendConnect_returns:
  assumes "client_recv p0 c"
  shows "\<exists>c' e. SendConnect c = Ret (c', e) \<and> client_recv p0 c' \<and> reader c' = reader c"
proof -
  have "client_ok c" using assms by (simp add: client_recv_def)
  from connect_sender.client_send_any [OF this, of ProtocolVersion] show ?thesis
    by (auto simp: SendConnect_fill elim!: returnsE intro: client_recv_send [OF assms])
qed

lemma SendJoinRoom_returns:
  assumes "client_recv p0 c" "length room < 2 ^ 16" "length key < 2 ^ 16"
  shows "\<exists>c' e. SendJoinRoom room key c = Ret (c', e) \<and> client_recv p0 c' \<and> reader c' = reader c"
proof -
  have "client_ok c" using assms(1) by (simp add: client_recv_def)
  from join_request_sender.client_send_any [OF this, of "(room, [], key)"] assms(2,3) show ?thesis
    by (auto simp: SendJoinRoom_fill elim!: returnsE intro: client_recv_send [OF assms(1)])
qed

lemma client_recv_start: "client_ok c \<Longrightarrow> reader c = Reading \<Longrightarrow> client_recv (messagePool c) c"
  by (simp add: client_recv_def)

section \<open>Answers as they arrive\<close>

lemma holds_frame_msg:
  "holds_frame m command payload \<Longrightarrow> wf_message m \<and> payload_fits m \<and> Command m = command \<and> payload_bytes m = payload"
  by (simp add: holds_frame_def)

lemma handshake_answer_id:
  assumes "holds_frame m (CommandConnect OR CommandResponseMask) (enc_fields [FStr i])"
  shows "handshake_answer m = Ret (Inr i)"
proof -
  note m = holds_frame_msg [OF assms]
  have "GetPayloadConnectResponse m = Ret (Inr \<lparr>ClientId = i\<rparr>)"
    using m by (intro connect_response.get_layout [of m "\<lparr>ClientId = i\<rparr>" "[]"]) simp_all
  moreover have "\<not> IsError m"
    using m by (simp add: IsError_def CommandConnect_def CommandResponseMask_def CommandErrorResponseMask_def)
  ultimately show ?thesis by (simp add: handshake_answer_def)
qed

lemma join_room_answer_decision:
  assumes "holds_frame m (CommandJoinRoom OR CommandResponseMask) (enc_fields [FInt accepted, FStr ownerId, FStr (string_of_bytes key)])"
    and "0 \<le> accepted" "accepted < 2 ^ 32"
  shows "join_room_answer m = Ret (Inr \<lparr>Accepted = accepted, OwnerClientId = ownerId, OwnerPublicKey = key\<rparr>)"
proof -
  note m = holds_frame_msg [OF assms(1)]
  have "GetPayloadConnectRoomResponse m = Ret (Inr \<lparr>Accepted = accepted, OwnerClientId = ownerId, OwnerPublicKey = key\<rparr>)"
    using m assms(2,3)
    by (intro connect_room_result.get_layout [of m "\<lparr>Accepted = accepted, OwnerClientId = ownerId, OwnerPublicKey = key\<rparr>" "[]"]) simp_all
  moreover have "\<not> IsError m"
    using m by (simp add: IsError_def CommandJoinRoom_def CommandResponseMask_def CommandErrorResponseMask_def)
  ultimately show ?thesis using m by (simp add: join_room_answer_def ExpectCommand_def)
qed

lemma join_room_answer_refused:
  assumes "holds_frame m (CommandJoinRoom OR CommandErrorResponseMask) (enc_fields [FInt code, FStr msg])"
    and "0 \<le> code" "code < 2 ^ 32"
  shows "join_room_answer m = Ret (Inl (ErrServer ''join room error'' code msg))"
proof -
  note m = holds_frame_msg [OF assms(1)]
  have "GetErrorPayload m = Ret (Inr \<lparr>ErrorCode = code, ErrorMessage = msg\<rparr>)"
    using m assms(2,3) by (intro error_payload.get_layout [of m "\<lparr>ErrorCode = code, ErrorMessage = msg\<rparr>" "[]"]) simp_all
  moreover have "IsError m"
    using m by (simp add: IsError_def CommandJoinRoom_def CommandErrorResponseMask_def)
  ultimately show ?thesis by (simp add: join_room_answer_def server_error_def)
qed

text \<open>A sender on a client whose connection takes every write.\<close>

context frame_sender
begin

lemma client_send_up:
  assumes "client_ok c" "client_connection c = Some tc" "writable tc" "length (payload x) \<le> 0xF000"
  shows "\<exists>c'. withMessage (\<lambda>m. then_write (fill x m)) c = Ret (c', None) \<and> client_ok c' \<and> reader c' = reader c \<and>
     ctx_done c' = ctx_done c \<and> same_leases (messagePool c) (messagePool c') \<and>
     client_connection c' = Some (tc\<lparr>outbound := outbound tc @ encode_frame (command x) (payload x)\<rparr>)"
proof -
  have up: "client_writable c" "good_pool wf_message (messagePool c)"
    using assms(1-3) by (auto simp: client_writable_def client_ok_def)
  obtain p where "withMessage (\<lambda>m. then_write (fill x m)) c =
       Ret ((sent_frame (encode_frame (command x) (payload x)) c)\<lparr>messagePool := p\<rparr>, None)"
     "good_pool wf_message p" "same_leases (messagePool c) p"
    using client_send [OF up(2,1) assms(4)] by blast
  then show ?thesis using assms(2) by (simp add: client_ok_def)
qed

end

section \<open>Properties\<close>

text \<open>
  C27.  The handshake works across both programs: what a client sends makes the transporter assign it a
  fresh id, and the transporter's answer makes the client's \<open>Handshake\<close> return exactly that id,
  leaving what the transporter sends later unread and every buffer where it was.
\<close>

theorem handshake_end_to_end:
  assumes client: "client_ok c" "reader c = Reading" "\<not> ctx_done c" "client_connection c = Some tc" "writable tc"
    and server: "cm_ok wf_message cm" "cc < length (clients cm)" "writable (conn_of cc cm)"
    and up: "SendConnect c = Ret (c1, e)" "client_wire c1 = client_wire c @ hello" "inbound (conn_of cc cm) = hello @ unread"
    and id: "GenerateClientId entropy = Ret (newId, entropy')"
    and serve: "performHandshake entropy cc cm = Ret (cm', started)"
    and down: "outbound (conn_of cc cm') = outbound (conn_of cc cm) @ answer" "inbound tc = answer @ later"
  shows "started \<and> GetClientId cc cm' = newId \<and>
     (\<exists>c' tc'. Handshake c = Ret (c', Inr newId) \<and> same_leases (messagePool c) (messagePool c') \<and>
        client_connection c' = Some tc' \<and> inbound tc' = later)"
proof -
  obtain c2 where c2: "SendConnect c = Ret (c2, None)" "client_ok c2" "reader c2 = Reading" "\<not> ctx_done c2"
    "same_leases (messagePool c) (messagePool c2)"
    "client_connection c2 = Some (tc\<lparr>outbound := outbound tc @ encode_frame CommandConnect (enc_fields [FInt (uint ProtocolVersion)])\<rparr>)"
    using connect_sender.client_send_up [OF client(1,4,5), of ProtocolVersion] client(2,3) by (auto simp: SendConnect_fill)
  have "hello = encode_frame CommandConnect (PutUint32 ProtocolVersion)"
    using up(1,2) c2(1,6) client(4) by (auto simp: client_wire_def enc_field.simps)
  with performHandshake_assigns [OF server _ id, of unread] up(3) serve have s: "started" "GetClientId cc cm' = newId"
    "conn_of cc cm' = (conn_of cc cm)\<lparr>inbound := unread, outbound := outbound (conn_of cc cm) @
       encode_frame (CommandConnect OR CommandResponseMask) (enc_fields [FStr newId])\<rparr>"
    by auto
  then have answer: "answer = encode_frame (CommandConnect OR CommandResponseMask) (enc_fields [FStr newId])"
    using down(1) by simp
  have short: "length (enc_fields [FStr newId]) \<le> 0xF000"
    using GenerateClientId_length [OF id] by simp
  let ?tc = "tc\<lparr>outbound := outbound tc @ encode_frame CommandConnect (enc_fields [FInt (uint ProtocolVersion)])\<rparr>"
  have "\<not> conn_closed ?tc" "inbound ?tc = encode_frame (CommandConnect OR CommandResponseMask) (enc_fields [FStr newId]) @ later"
    using client(5) down(2) answer by (simp_all add: writable_def)
  from receive_message_frame [OF c2(2-4,6) this short, where body = handshake_answer, OF handshake_answer_id] obtain c' where
    c': "receive_message handshake_answer c2 = Ret (c', Inr newId)" "same_leases (messagePool c2) (messagePool c')"
    "client_connection c' = Some (?tc\<lparr>inbound := later\<rparr>)" by blast
  have "Handshake c = Ret (c', Inr newId)" using c2(1) c'(1) by (simp add: Handshake_def)
  with s(1,2) c'(2,3) same_leases_trans [OF c2(5)] show ?thesis by auto
qed

text \<open>
  C28.  Joining: the owner's answer decides.  The guest is told the decision with the owner's id and key,
  and goes on exactly when the owner accepted; an error message of the transporter is returned.
\<close>

theorem join_decision:
  assumes "client_ok c" "reader c = Reading" "\<not> ctx_done c" "client_connection c = Some tc" "writable tc"
    and "length room + length key \<le> 1000" "0 \<le> accepted" "accepted < 2 ^ 32" "length ownerId + length ownerKey \<le> 1000"
    and "inbound tc = encode_frame (CommandJoinRoom OR CommandResponseMask)
       (enc_fields [FInt accepted, FStr ownerId, FStr (string_of_bytes ownerKey)]) @ later"
  shows "\<exists>c'. roomJoinStep key room c =
     Ret (c', [(guest_event GuestJoinDecided)\<lparr>GAccepted := accepted \<noteq> 0, GOwnerClientId := ownerId, GOwnerPublicKey := ownerKey\<rparr>],
       if accepted \<noteq> 0 then None else Some (ErrJoinRoomDenied room)) \<and>
     client_wire c' = client_wire c @
       encode_frame CommandJoinRoom (enc_fields [FStr room, FStr [], FStr (string_of_bytes key)])"
proof -
  have len: "length (enc_fields [FStr room, FStr [], FStr (string_of_bytes key)]) \<le> 0xF000"
    using assms(6) by simp
  let ?tc = "tc\<lparr>outbound := outbound tc @ encode_frame CommandJoinRoom (enc_fields [FStr room, FStr [], FStr (string_of_bytes key)])\<rparr>"
  obtain c1 where c1: "SendJoinRoom room key c = Ret (c1, None)" "client_ok c1" "reader c1 = Reading" "\<not> ctx_done c1"
    "client_connection c1 = Some ?tc"
    using join_request_sender.client_send_up [OF assms(1,4,5), of "(room, [], key)"] assms(2,3) len
    by (auto simp: SendJoinRoom_fill)
  have tc: "\<not> conn_closed ?tc" "inbound ?tc = encode_frame (CommandJoinRoom OR CommandResponseMask)
       (enc_fields [FInt accepted, FStr ownerId, FStr (string_of_bytes ownerKey)]) @ later"
    using assms(5,10) by (simp_all add: writable_def)
  have short: "length (enc_fields [FInt accepted, FStr ownerId, FStr (string_of_bytes ownerKey)]) \<le> 0xF000"
    using assms(9) by simp
  from receive_message_frame [OF c1(2-5) tc short, where body = join_room_answer, OF join_room_answer_decision [OF _ assms(7,8)]]
  obtain c' where
    c': "receive_message join_room_answer c1 = Ret (c', Inr \<lparr>Accepted = accepted, OwnerClientId = ownerId, OwnerPublicKey = ownerKey\<rparr>)"
    "client_connection c' = Some (?tc\<lparr>inbound := later\<rparr>)" by blast
  have "client_wire c' = client_wire c @
       encode_frame CommandJoinRoom (enc_fields [FStr room, FStr [], FStr (string_of_bytes key)])"
    using c'(2) assms(4) by (simp add: client_wire_def)
  with c1(1) c'(1) show ?thesis by (auto simp: roomJoinStep_def Let_def)
qed

text \<open>
  Whatever the transporter sends, and however the connection ends, the client's three flows return:
  they do not panic or hang on a buffer, and no pooled buffer stays in use but the one the reader may
  still offer.
\<close>

theorem client_flows_return:
  assumes "client_ok c" "reader c = Reading" "length room < 2 ^ 16" "length key < 2 ^ 16"
  shows "(\<exists>c' res. Handshake c = Ret (c', res) \<and> client_recv (messagePool c) c') \<and>
     (\<exists>c' events e. roomJoinStep key room c = Ret (c', events, e) \<and> client_recv (messagePool c) c')"
proof -
  note start = client_recv_start [OF assms(1,2)]
  obtain c1 e where c1: "SendConnect c = Ret (c1, e)" "client_recv (messagePool c) c1" "reader c1 = Reading"
    using SendConnect_returns [OF start] assms(2) by auto
  obtain c2 res where "receive_message handshake_answer c1 = Ret (c2, res)" "client_recv (messagePool c) c2"
    using receive_message_returns [where body = handshake_answer, OF c1(2) _ handshake_answer_returns] c1(3) by auto
  with c1(1,2) have 1: "\<exists>c' res. Handshake c = Ret (c', res) \<and> client_recv (messagePool c) c'"
    by (cases e) (simp_all add: Handshake_def)
  obtain c3 e3 where c3: "SendJoinRoom room key c = Ret (c3, e3)" "client_recv (messagePool c) c3" "reader c3 = Reading"
    using SendJoinRoom_returns [OF start assms(3,4)] assms(2) by auto
  obtain c4 res4 where "receive_message join_room_answer c3 = Ret (c4, res4)" "client_recv (messagePool c) c4"
    using receive_message_returns [where body = join_room_answer, OF c3(2) _ join_room_answer_returns] c3(3) by auto
  with c3(1,2) have "\<exists>c' events e. roomJoinStep key room c = Ret (c', events, e) \<and> client_recv (messagePool c) c'"
    by (cases e3; cases res4) (simp_all add: roomJoinStep_def Let_def)
  with 1 show ?thesis by blast
qed

text \<open>
  A session that reached the main loop and ends because the transporter is gone tells the user so with its
  last event; but when the transporter is lost while the guest waits for the owner's decision,
  \<open>JoinAsGuest\<close> returns \<open>ErrTransportClosed\<close> without any event.
\<close>

theorem transport_loss_reported:
  "(\<forall>c events c' e. guest_loop c events c' e \<longrightarrow>
      (e = ErrTransportClosed \<longleftrightarrow> events \<noteq> [] \<and> last events = guest_event GuestTransportLost)) \<and>
   (\<forall>c c1 c2. SendJoinRoom room key c = Ret (c1, None) \<longrightarrow> Messages c1 = Ret (c2, None) \<longrightarrow>
      JoinAsGuest key room port' listen adb_connect c [] c2 ErrTransportClosed)"
proof (intro conjI allI impI)
  fix c events c' e
  show "guest_loop c events c' e \<Longrightarrow> e = ErrTransportClosed \<longleftrightarrow> events \<noteq> [] \<and> last events = guest_event GuestTransportLost"
  proof (induction rule: guest_loop.induct)
    case (loop_relays conn c turns r x events c2 e)
    have "guest_event GuestTransportLost \<noteq> (guest_event GuestRelayStopped)\<lparr>GErr := Some x\<rparr>" by (simp add: guest_event_def)
    with loop_relays.IH show ?case by auto
  qed simp_all
next
  fix c c1 c2
  assume "SendJoinRoom room key c = Ret (c1, None)" "Messages c1 = Ret (c2, None)"
  then have "roomJoinStep key room c = Ret (c2, [], Some ErrTransportClosed)"
    by (simp add: roomJoinStep_def receive_message_def)
  then show "JoinAsGuest key room port' listen adb_connect c [] c2 ErrTransportClosed" by (rule join_fails)
qed

section \<open>Witnesses\<close>

lemma sample_conn: "writable (fresh_conn bs)" "\<not> conn_closed (fresh_conn bs)" "inbound (fresh_conn bs) = bs" "outbound (fresh_conn bs) = []"
  by (simp_all add: writable_def fresh_conn_def)

theorem join_decision_witness:
  "\<exists>c'. roomJoinStep [1] ''ROOM'' (sample_peer (encode_frame (CommandJoinRoom OR CommandResponseMask)
       (enc_fields [FInt 1, FStr ''AAAA0000'', FStr (string_of_bytes [7])]) @ [])) =
     Ret (c', [(guest_event GuestJoinDecided)\<lparr>GAccepted := True, GOwnerClientId := ''AAAA0000'', GOwnerPublicKey := [7]\<rparr>], None)"
proof -
  let ?bs = "encode_frame (CommandJoinRoom OR CommandResponseMask)
       (enc_fields [FInt 1, FStr ''AAAA0000'', FStr (string_of_bytes [7])]) @ []"
  have len: "length ''ROOM'' + length [1 :: byte] \<le> 1000" "(0 :: int) \<le> 1" "(1 :: int) < 2 ^ 32"
    "length ''AAAA0000'' + length [7 :: byte] \<le> 1000" by simp_all
  from join_decision [OF sample_peer_ok(1,4,5,6) sample_conn(1) len sample_conn(3), of "[]"] show ?thesis
    by (simp only: append_Nil2) auto
qed

theorem client_flows_return_witness:
  "\<exists>c' res. Handshake (sample_peer [1, 2, 3]) = Ret (c', res)"
  using client_flows_return [OF sample_peer_ok(1,4), of "''ROOM''" "[1]" "[1, 2, 3]"] by auto

theorem transport_loss_reported_witness:
  "\<exists>c2. JoinAsGuest [1] ''ROOM'' ''5038'' None None (sample_peer []) [] c2 ErrTransportClosed"
proof -
  have len: "length (enc_fields [FStr ''ROOM'', FStr [], FStr (string_of_bytes [1])]) \<le> 0xF000" by simp
  let ?tc = "(fresh_conn [])\<lparr>outbound := outbound (fresh_conn []) @
     encode_frame CommandJoinRoom (enc_fields [FStr ''ROOM'', FStr [], FStr (string_of_bytes [1])])\<rparr>"
  obtain c1 where c1: "SendJoinRoom ''ROOM'' [1] (sample_peer []) = Ret (c1, None)" "client_ok c1" "reader c1 = Reading"
    "\<not> ctx_done c1" "client_connection c1 = Some ?tc"
    using join_request_sender.client_send_up [OF sample_peer_ok(1,6) [of "[]"] sample_conn(1), of "(''ROOM'', [], [1])"] len sample_peer_ok(4,5) [of "[]"]
    by (auto simp: SendJoinRoom_fill)
  have "\<not> conn_closed ?tc" "decode_frame (in_end ?tc) (inbound ?tc) = Inl (stream_error (in_end ?tc) [])"
    by (simp_all add: fresh_conn_def decode_frame_def)
  with Messages_decodes [OF c1(2,5) _ c1(4,3)] obtain c2 where "Messages c1 = Ret (c2, None)" by auto
  with transport_loss_reported [of "''ROOM''" "[1]" "''5038''" None None] c1(1) show ?thesis by blast
qed

theorem handshake_end_to_end_witness:
  "\<exists>c'. Handshake (sample_peer (encode_frame (CommandConnect OR CommandResponseMask) (enc_fields [FStr ''AAAA0000'']) @ [9])) =
     Ret (c', Inr ''AAAA0000'')"
proof -
  let ?answer = "encode_frame (CommandConnect OR CommandResponseMask) (enc_fields [FStr ''AAAA0000''])"
  let ?hello = "encode_frame CommandConnect (PutUint32 ProtocolVersion)"
  let ?cm = "sample_cm [hello_conn ProtocolVersion]" and ?c = "sample_peer (?answer @ [9])"
  have id: "GenerateClientId (replicate 8 0) = Ret (''AAAA0000'', [])" by code_simp
  have cm: "cm_ok wf_message ?cm" "0 < length (clients ?cm)" "writable (conn_of 0 ?cm)"
    "inbound (conn_of 0 ?cm) = ?hello @ []" "outbound (conn_of 0 ?cm) = []"
    by (simp_all add: sample_simps hello_conn_def)
  obtain cm' where serve: "performHandshake (replicate 8 0) 0 ?cm = Ret (cm', True)"
    "conn_of 0 cm' = (conn_of 0 ?cm)\<lparr>inbound := [], outbound := outbound (conn_of 0 ?cm) @ ?answer\<rparr>"
    using performHandshake_assigns [OF cm(1-4) id] by blast
  have down: "outbound (conn_of 0 cm') = outbound (conn_of 0 ?cm) @ ?answer" using serve(2) by simp
  obtain c1 where up: "SendConnect ?c = Ret (c1, None)" "client_wire c1 = client_wire ?c @ ?hello"
    using connect_sender.client_send_up [OF sample_peer_ok(1,6) [of "?answer @ [9]"] sample_conn(1), of ProtocolVersion]
      sample_peer_ok(6) [of "?answer @ [9]"]
    by (auto simp: SendConnect_fill client_wire_def enc_field.simps)
  from handshake_end_to_end [OF sample_peer_ok(1,4,5,6) sample_conn(1) cm(1-3) up cm(4) id serve(1) down sample_conn(3)]
  show ?thesis by blast
qed

end
