(* ===== verification/Owner_Controller.thy ===== *)
theory Owner_Controller
  imports Controllers Owner_Properties Relay_Properties
begin

text \<open>
  \<open>client/controller/ownerController.go\<close>, with \<open>Dispatch\<close>, \<open>Close\<close> and \<open>RunOwner\<close> of
  \<open>client/relay/owner.go\<close> in full: the owner's session over one room.  Each join request is answered by a
  goroutine of its own once the operator (\<open>promptAccept\<close>) has decided; \<open>pending\<close> are the requests still
  undecided.  Logging is left out.
\<close>

section \<open>Dispatching to the multiplexer\<close>

definition dispose_in :: "nat \<Rightarrow> Client OwnerMultiplexer \<Rightarrow> Client OwnerMultiplexer" where
  "dispose_in a mux = mux\<lparr>tclient := fst (dispose_received a (tclient mux))\<rparr>"

definition Dispatch :: "open_stream \<Rightarrow> nat \<Rightarrow> Client OwnerMultiplexer \<Rightarrow> Client OwnerMultiplexer outcome" where
  "Dispatch OpenStream a mux =
     andThen (dispatch_data SendAdbMessage OpenStream (Data a (messagePool (tclient mux))) mux)
       (\<lambda>mux1. Ret (dispose_in a mux1))"

definition OwnerMultiplexer_Close :: "Client OwnerMultiplexer \<Rightarrow> Client OwnerMultiplexer outcome" where
  "OwnerMultiplexer_Close mux = closeAllStreams SendAdbMessage mux"

text \<open>A turn of \<open>RunOwner\<close>; \<open>done_arm\<close> tells whether \<open>select\<close> took the cancelled context.\<close>

definition RunOwner_turn :: "open_stream \<Rightarrow> bool \<Rightarrow> Client OwnerMultiplexer \<Rightarrow> (Client OwnerMultiplexer \<times> error option) outcome" where
  "RunOwner_turn OpenStream done_arm mux =
     (if done_arm then Ret (mux, Some ErrContextCancelled)
      else andThen (Messages (tclient mux)) (\<lambda>(c1, received).
        let mux1 = mux\<lparr>tclient := c1\<rparr> in
        case received of None \<Rightarrow> Ret (mux1, Some ErrTransportClosed)
        | Some a \<Rightarrow>
          (case Data a (messagePool c1) of
             Inl e \<Rightarrow> Ret (dispose_in a mux1, Some e)
           | Inr message \<Rightarrow>
             if Command message \<noteq> CommandAdbTransport then Ret (dispose_in a mux1, None)
             else andThen (Dispatch OpenStream a mux1) (\<lambda>mux2. Ret (mux2, None)))))"

section \<open>The session\<close>

record owner_session =
  session_mux :: "Client OwnerMultiplexer"
  pending :: "(string \<times> bytes) list"
  owner_events :: "OwnerEvent list"

definition emit :: "OwnerEvent \<Rightarrow> owner_session \<Rightarrow> owner_session" where
  "emit e s = s\<lparr>owner_events := owner_events s @ [e]\<rparr>"

definition session_client :: "owner_session \<Rightarrow> Client" where
  "session_client s = tclient (session_mux s)"

definition set_session_client :: "Client \<Rightarrow> owner_session \<Rightarrow> owner_session" where
  "set_session_client c s = s\<lparr>session_mux := (session_mux s)\<lparr>tclient := c\<rparr>\<rparr>"

definition dispose_session :: "nat \<Rightarrow> owner_session \<Rightarrow> owner_session" where
  "dispose_session a s = s\<lparr>session_mux := dispose_in a (session_mux s)\<rparr>"

definition send_from_session ::
  "(Client \<Rightarrow> (Client \<times> error option) outcome) \<Rightarrow> owner_session \<Rightarrow> (owner_session \<times> error option) outcome" where
  "send_from_session send s =
     andThen (send (session_client s)) (\<lambda>(c, err). Ret (set_session_client c s, err))"

definition dispatchOwnerMessage :: "open_stream \<Rightarrow> nat \<Rightarrow> owner_session \<Rightarrow> owner_session outcome" where
  "dispatchOwnerMessage OpenStream a s =
     (case Data a (messagePool (session_client s)) of
        Inl e \<Rightarrow> Ret (dispose_session a s)
      | Inr message \<Rightarrow>
        if Command message = CommandAdbTransport
        then andThen (Dispatch OpenStream a (session_mux s)) (\<lambda>mux1. Ret (s\<lparr>session_mux := mux1\<rparr>))
        else if Command message = CommandJoinRoom
        then andThen (GetPayloadConnectRoom message) (\<lambda>res.
          case res of
            Inl e \<Rightarrow> andThen (send_from_session (SendError CommandJoinRoom ErrorInvalidPayload
                       ''Invalid join room request payload'') s) (\<lambda>(s1, err). Ret (dispose_session a s1))
          | Inr payload \<Rightarrow>
            Ret (dispose_session a
              ((emit ((owner_event OwnerJoinRequested)\<lparr>OGuestClientId := JoinClientId payload,
                    OGuestPublicKey := JoinPublicKey payload\<rparr>) s)
                \<lparr>pending := pending s @ [(JoinClientId payload, JoinPublicKey payload)]\<rparr>)))
        else if Command message = CommandGuestLeft
        then andThen (OwnerMultiplexer_Close (session_mux s)) (\<lambda>mux1.
          Ret (dispose_session a (emit (owner_event OwnerGuestLeft) (s\<lparr>session_mux := mux1\<rparr>))))
        else Ret (dispose_session a s))"

text \<open>The goroutine of one join request, from the operator's decision on.\<close>

definition handleJoinRequest ::
  "bytes \<Rightarrow> error + bool \<Rightarrow> string \<times> bytes \<Rightarrow> owner_session \<Rightarrow> owner_session outcome" where
  "handleJoinRequest ownerPublicKey decision request s =
     (case request of (guestClientId, guestPublicKey) \<Rightarrow>
      let failed = (\<lambda>e. (owner_event OwnerJoinFailed)\<lparr>OGuestClientId := guestClientId, OErr := Some e\<rparr>) in
      (case decision of
         Inl e \<Rightarrow> andThen (send_from_session (SendError CommandJoinRoom ErrorUnknown
             ''Client side error, connection will be closed'') (emit (failed e) s)) (\<lambda>(s1, err). Ret s1)
       | Inr accepted \<Rightarrow>
         andThen (send_from_session (Client_SendJoinRoomResponse (if accepted then 1 else 0) ownerPublicKey) s)
           (\<lambda>(s1, err). case err of
              Some e \<Rightarrow> Ret (emit (failed e) s1)
            | None \<Rightarrow> Ret (emit ((owner_event OwnerJoinDecided)\<lparr>OGuestClientId := guestClientId,
                OGuestPublicKey := guestPublicKey, OAccepted := accepted\<rparr>) s1))))"

definition JoinAsRoomOwner_start :: "string \<Rightarrow> Client \<Rightarrow> (Client \<times> (error + owner_session)) outcome" where
  "JoinAsRoomOwner_start device c =
     andThen (createRoom c) (\<lambda>(c1, res).
       case res of Inl e \<Rightarrow> Ret (c1, Inl e)
       | Inr roomId \<Rightarrow> Ret (c1, Inr \<lparr>session_mux = NewOwnerMultiplexer device c1, pending = [],
           owner_events = [(owner_event OwnerRoomCreated)\<lparr>ORoomId := roomId\<rparr>]\<rparr>))"

text \<open>
  The session's steps, in any order: the loop handles a message, a decision is carried out, the client's reader
  takes a turn, a pump of a stream moves.  \<open>session_ends\<close> is the loop's return, with the deferred \<open>Close\<close>.
\<close>

inductive session_step :: "bytes \<Rightarrow> open_stream \<Rightarrow> owner_session \<Rightarrow> owner_session \<Rightarrow> bool"
  for ownerPublicKey :: bytes and OpenStream :: open_stream where
  handles: "Messages (session_client s) = Ret (c1, Some a) \<Longrightarrow>
     dispatchOwnerMessage OpenStream a (set_session_client c1 s) = Ret s' \<Longrightarrow> session_step ownerPublicKey OpenStream s s'"
| decides: "pending s = p @ request # q \<Longrightarrow>
     handleJoinRequest ownerPublicKey decision request (s\<lparr>pending := p @ q\<rparr>) = Ret s' \<Longrightarrow>
     session_step ownerPublicKey OpenStream s s'"
| session_reads: "reader (session_client s) = Reading \<Longrightarrow> startReader (session_client s) = Ret c1 \<Longrightarrow>
     session_step ownerPublicKey OpenStream s (set_session_client c1 s)"
| pumps: "mux_step SendAdbMessage (\<lambda>_ _. False) (session_mux s) e mux1 \<Longrightarrow>
     e \<in> range DeviceRead \<union> (\<Union>bs. range (\<lambda>t. SentWrite t bs)) \<union> range PumpGaveUp \<Longrightarrow>
     session_step ownerPublicKey OpenStream s (s\<lparr>session_mux := mux1\<rparr>)"
| session_ends: "OwnerMultiplexer_Close (session_mux s) = Ret mux1 \<Longrightarrow>
     session_step ownerPublicKey OpenStream s (s\<lparr>session_mux := mux1\<rparr>)"

inductive_cases session_stepE: "session_step ownerPublicKey OpenStream s s'"

section \<open>All streams closed\<close>

lemma fold_closed_off_streams:
  "streams (fold closed_off ss mux) own = Some t \<Longrightarrow> streams mux own = Some t"
  by (induction ss arbitrary: mux) (fastforce simp: closed_off_def split: if_splits)+

lemma closed_off_unregistered:
  "table_ok mux \<Longrightarrow> streams (closed_off s mux) own \<noteq> Some s"
  by (auto simp: closed_off_def table_ok_def)

lemma fold_closed_off_unregistered:
  assumes "table_ok mux" "\<forall>s \<in> set ss. s < length (stream_heap mux)" "s \<in> set ss"
  shows "streams (fold closed_off ss mux) own \<noteq> Some s"
  using assms
proof (induction ss arbitrary: mux)
  case (Cons t ss)
  show ?case
  proof
    assume "streams (fold closed_off (t # ss) mux) own = Some s"
    then have s: "streams (fold closed_off ss (closed_off t mux)) own = Some s" by simp
    have ok: "table_ok (closed_off t mux)" using Cons.prems(1,2) by (intro table_ok_closed_off) auto
    show False
    proof (cases "s = t")
      case True
      with fold_closed_off_streams [OF s] closed_off_unregistered [OF Cons.prems(1)] show False by simp
    next
      case False
      with Cons.IH [OF ok] Cons.prems(2,3) s show False by auto
    qed
  qed
qed simp

lemma all_streams_closed:
  assumes "table_ok mux"
  shows "streams (fold closed_off (open_streams mux) mux) own = None"
proof (cases "streams (fold closed_off (open_streams mux) mux) own")
  case (Some s)
  then have s: "streams mux own = Some s" by (rule fold_closed_off_streams)
  then have "s \<in> set (open_streams mux)" using lookup_ok [OF assms s] by (auto simp: open_streams_def)
  moreover have "\<forall>s \<in> set (open_streams mux). s < length (stream_heap mux)" by (simp add: open_streams_def)
  ultimately show ?thesis using fold_closed_off_unregistered [OF assms, of "open_streams mux" s own] Some by simp
qed

end
