(* ===== verification/Owner_Session.thy ===== *)
theory Owner_Session
  imports Controller_Properties Owner_Controller
begin

text \<open>
  The owner's session as a whole: an invariant of every interleaving of its goroutines, and what each message
  of the transporter and each decision of the operator does.  The multiplexer's results are used
  over two more instances of its interface: a client that is receiving, and one whose received
  buffer the dispatcher still holds.
\<close>

section \<open>Two more views of the client\<close>

definition client_live :: "TransporterMessage ObjectPool \<Rightarrow> Client \<Rightarrow> bool" where
  "client_live p0 c \<longleftrightarrow> client_recv p0 c \<and> reader c \<noteq> NotStarted"

definition client_holding :: "TransporterMessage ObjectPool \<Rightarrow> nat \<Rightarrow> TransporterMessage \<Rightarrow> Client \<Rightarrow> bool" where
  "client_holding p0 a m c \<longleftrightarrow> client_ok c \<and> reader c = Reading \<and> pool_holds a p0 (messagePool c) \<and>
     Data a (messagePool c) = Inr m"

lemma client_live_send:
  "client_live p0 c \<Longrightarrow> client_ok c' \<Longrightarrow> reader c' = reader c \<Longrightarrow> same_leases (messagePool c) (messagePool c') \<Longrightarrow>
   client_live p0 c'"
  using client_recv_send [of p0 c c'] by (simp add: client_live_def)

lemma client_holding_send:
  assumes "client_holding p0 a m c" "client_ok c'" "reader c' = reader c" "same_leases (messagePool c) (messagePool c')"
  shows "client_holding p0 a m c'"
proof -
  have "good_pool wf_message (messagePool c')" using assms(2) by (simp add: client_ok_def)
  with pool_holds_leases [of a p0 "messagePool c" "messagePool c'"] assms show ?thesis
    by (simp add: client_holding_def)
qed

lemma SendAdbMessage_any:
  assumes "client_ok c" "AdbBytes m = Ret bs" "length bs \<le> 0xF000"
  shows "\<exists>c' e. SendAdbMessage m c = Ret (c', e) \<and> client_ok c' \<and> reader c' = reader c \<and>
     same_leases (messagePool c) (messagePool c') \<and>
     (\<exists>k. client_wire c' = client_wire c @ take k (encode_frame CommandAdbTransport bs)) \<and>
     (e = None \<longrightarrow> client_wire c' = client_wire c @ encode_frame CommandAdbTransport bs)"
proof -
  have "length bs < 2 ^ 32" using assms(3) by simp
  from adb_sender.client_send_any [OF assms(1) this] show ?thesis
    by (auto simp: SendAdbMessage_fill [OF assms(2)] elim!: returnsE)
qed

interpretation live: transport_client "client_live p0" SendAdbMessage client_wire for p0
proof
  fix c m bs
  assume c: "client_live p0 c" "AdbBytes m = Ret bs" "length bs \<le> 0xF000"
  then have "client_ok c" by (simp add: client_live_def client_recv_def)
  from SendAdbMessage_any [OF this c(2,3)] client_live_send [OF c(1)]
  show "\<exists>c' e. SendAdbMessage m c = Ret (c', e) \<and> client_live p0 c' \<and>
      (\<exists>k. client_wire c' = client_wire c @ take k (encode_frame CommandAdbTransport bs)) \<and>
      (e = None \<longrightarrow> client_wire c' = client_wire c @ encode_frame CommandAdbTransport bs)" by blast
qed

interpretation holding: transport_client "client_holding p0 a msg" SendAdbMessage client_wire for p0 a msg
proof
  fix c m bs
  assume c: "client_holding p0 a msg c" "AdbBytes m = Ret bs" "length bs \<le> 0xF000"
  then have "client_ok c" by (simp add: client_holding_def)
  from SendAdbMessage_any [OF this c(2,3)] client_holding_send [OF c(1)]
  show "\<exists>c' e. SendAdbMessage m c = Ret (c', e) \<and> client_holding p0 a msg c' \<and>
      (\<exists>k. client_wire c' = client_wire c @ take k (encode_frame CommandAdbTransport bs)) \<and>
      (e = None \<longrightarrow> client_wire c' = client_wire c @ encode_frame CommandAdbTransport bs)" by blast
qed

lemma mux_ok_tclient [simp]:
  "mux_ok ok (mux\<lparr>tclient := c\<rparr>) \<longleftrightarrow> ok c \<and> good_pool adb_wf (adbMessagePool mux) \<and> table_ok mux"
  by (simp add: mux_ok_def can_send_def table_ok_def fresh_ids_def)

lemma holding_disposed:
  assumes "client_holding p0 a m c"
  shows "client_live p0 (fst (dispose_received a c))"
  using assms pool_holds_dispose [of a p0 "messagePool c"]
  by (simp add: dispose_received_pool client_live_def client_recv_def client_holding_def client_ok_def)

lemma mux_ok_dispose_in:
  "mux_ok (client_holding p0 a m) mux \<Longrightarrow> mux_ok (client_live p0) (dispose_in a mux)"
  using holding_disposed by (simp add: dispose_in_def) (auto simp: mux_ok_def can_send_def)

section \<open>The invariant\<close>

definition session_ok :: "TransporterMessage ObjectPool \<Rightarrow> owner_session \<Rightarrow> bool" where
  "session_ok p0 s \<longleftrightarrow> mux_ok (client_live p0) (session_mux s)"

lemma session_client_live: "session_ok p0 s \<Longrightarrow> client_live p0 (session_client s)"
  by (simp add: session_ok_def mux_ok_def can_send_def session_client_def)

lemma session_ok_set_client: "session_ok p0 s \<Longrightarrow> client_live p0 c \<Longrightarrow> session_ok p0 (set_session_client c s)"
  by (simp add: session_ok_def set_session_client_def) (simp add: mux_ok_def can_send_def)

lemma session_ok_simps [simp]:
  "session_ok p0 (emit e s) = session_ok p0 s" "session_ok p0 (s\<lparr>pending := q\<rparr>) = session_ok p0 s"
  "session_ok p0 (s\<lparr>session_mux := mux\<rparr>) = mux_ok (client_live p0) mux"
  "session_client (emit e s) = session_client s" "session_client (s\<lparr>pending := q\<rparr>) = session_client s"
  by (simp_all add: session_ok_def emit_def session_client_def)

text \<open>A message was received: the dispatcher holds its buffer.\<close>

lemma session_receives:
  assumes "session_ok p0 s" "Messages (session_client s) = Ret (c1, Some a)"
  obtains m where "client_holding p0 a m c1" "clean_message m"
    "mux_ok (client_holding p0 a m) (session_mux (set_session_client c1 s))"
    "session_client (set_session_client c1 s) = c1"
proof -
  have live: "client_recv p0 (session_client s)" "reader (session_client s) \<noteq> NotStarted"
    using session_client_live [OF assms(1)] by (simp_all add: client_live_def)
  from client_recv_Messages [OF live] assms(2) obtain m where "client_holding p0 a m c1" "clean_message m"
    by (auto simp: client_holding_def)
  moreover have "good_pool adb_wf (adbMessagePool (session_mux s))" "table_ok (session_mux s)"
    using assms(1) by (simp_all add: session_ok_def mux_ok_def can_send_def)
  ultimately show thesis by (intro that) (simp_all add: set_session_client_def session_client_def)
qed

lemma close_all_returns:
  assumes "mux_ok (client_holding p0 a m) mux"
  shows "\<exists>mux'. OwnerMultiplexer_Close mux = Ret mux' \<and> mux_ok (client_holding p0 a m) mux' \<and>
     tclient mux' = tclient mux \<and> (\<forall>own. streams mux' own = None)"
proof -
  have ok: "can_send (client_holding p0 a m) mux" "table_ok mux" using assms by (simp_all add: mux_ok_def)
  have eq: "OwnerMultiplexer_Close mux = Ret (fold closed_off (open_streams mux) mux)"
    using holding.close_streams [OF ok(1)] by (simp add: OwnerMultiplexer_Close_def closeAllStreams_def)
  have "mux_ok (client_holding p0 a m) (fold closed_off (open_streams mux) mux)"
    using holding.close_all_moves [OF assms, of "fold closed_off (open_streams mux) mux"] eq
    by (simp add: OwnerMultiplexer_Close_def mux_moves_def)
  moreover have "tclient (fold closed_off ss mux) = tclient mux" for ss
    by (induction ss arbitrary: mux) simp_all
  ultimately show ?thesis using eq all_streams_closed [OF ok(2)] by simp
qed

text \<open>Every message of the transporter, on every branch.\<close>

definition wrapped_request :: "TransporterMessage \<Rightarrow> bool" where
  "wrapped_request m \<longleftrightarrow> Command m = CommandAdbTransport \<and>
     (\<exists>am. DecodeMessage (payload_bytes m) = Ret (Inr am) \<and> AdbCommand am \<in> {AdbCommandOpen, AdbCommandWrite} \<and>
        DataLength am \<ge> 0xFFFFFFE8)"

definition session_effect :: "TransporterMessage \<Rightarrow> owner_session \<Rightarrow> owner_session \<Rightarrow> bool" where
  "session_effect m s s' \<longleftrightarrow>
     (if Command m = CommandJoinRoom then
        (case GetPayloadConnectRoom m of
           Ret (Inr p) \<Rightarrow> pending s' = pending s @ [(JoinClientId p, JoinPublicKey p)] \<and>
             owner_events s' = owner_events s @ [(owner_event OwnerJoinRequested)\<lparr>OGuestClientId := JoinClientId p,
               OGuestPublicKey := JoinPublicKey p\<rparr>] \<and> streams (session_mux s') = streams (session_mux s)
         | _ \<Rightarrow> pending s' = pending s \<and> owner_events s' = owner_events s)
      else if Command m = CommandGuestLeft then
        pending s' = pending s \<and> owner_events s' = owner_events s @ [owner_event OwnerGuestLeft] \<and>
        (\<forall>own. streams (session_mux s') own = None) \<and> client_wire (session_client s') = client_wire (session_client s)
      else pending s' = pending s \<and> owner_events s' = owner_events s \<and>
        (Command m \<noteq> CommandAdbTransport \<longrightarrow> streams (session_mux s') = streams (session_mux s) \<and>
           client_wire (session_client s') = client_wire (session_client s)))"

lemma dispose_session_simps [simp]:
  "pending (dispose_session a s) = pending s" "owner_events (dispose_session a s) = owner_events s"
  "streams (session_mux (dispose_session a s)) = streams (session_mux s)"
  "client_wire (session_client (dispose_session a s)) = client_wire (session_client s)"
  "session_ok p0 (dispose_session a s) = mux_ok (client_live p0) (dispose_in a (session_mux s))"
  by (simp_all add: dispose_session_def dispose_in_def session_client_def dispose_received_pool session_ok_def)

lemma emit_simps [simp]:
  "pending (emit e s) = pending s" "owner_events (emit e s) = owner_events s @ [e]" "session_mux (emit e s) = session_mux s"
  by (simp_all add: emit_def)

lemma set_session_client_simps [simp]:
  "pending (set_session_client c s) = pending s" "owner_events (set_session_client c s) = owner_events s"
  "streams (session_mux (set_session_client c s)) = streams (session_mux s)"
  "session_client (set_session_client c s) = c"
  by (simp_all add: set_session_client_def session_client_def)

lemma holding_error_sent:
  assumes "client_holding p0 a m c" "length msg < 0xFFFF0000"
  shows "\<exists>c' e. SendError command code msg c = Ret (c', e) \<and> client_holding p0 a m c'"
proof -
  have "client_ok c" using assms(1) by (simp add: client_holding_def)
  from error_sender.client_send_any [OF this, of "(command, code, msg)"] client_holding_send [OF assms(1)] assms(2) show ?thesis
    by (auto simp: SendError_fill elim!: returnsE)
qed

text \<open>The dispatcher, branch by branch.\<close>

lemma dispatch_adb_message:
  assumes "mux_ok (client_holding p0 a m) (session_mux s)" "clean_message m"
    and "Command m = CommandAdbTransport" "\<not> wrapped_request m"
  shows "\<exists>s'. dispatchOwnerMessage OpenStream a s = Ret s' \<and> session_ok p0 s' \<and> session_effect m s s'"
proof -
  have data: "Data a (messagePool (tclient (session_mux s))) = Inr m"
    using assms(1) by (simp add: mux_ok_def can_send_def client_holding_def)
  have payload: "Payload m = Ret (payload_bytes m)" "length (payload_bytes m) \<le> 0xF000"
    using assms(2) Payload_ok length_payload_bytes by (auto simp: clean_message_def payload_fits_nat)
  obtain mux1 where m1: "dispatch_data SendAdbMessage OpenStream (Inr m) (session_mux s) = Ret mux1"
    "mux_ok (client_holding p0 a m) mux1"
    using holding.dispatch_outcome [OF assms(1) payload, of OpenStream] assms(3,4) by (auto simp: wrapped_request_def split: if_splits)
  have "dispatchOwnerMessage OpenStream a s = Ret (s\<lparr>session_mux := dispose_in a mux1\<rparr>)"
    using data m1(1) assms(3) by (simp add: dispatchOwnerMessage_def session_client_def Dispatch_def)
  with mux_ok_dispose_in [OF m1(2)] assms(3) show ?thesis
    by (simp add: session_effect_def CommandAdbTransport_def CommandJoinRoom_def CommandGuestLeft_def)
qed

lemma dispatch_join_request:
  assumes "mux_ok (client_holding p0 a m) (session_mux s)" "clean_message m" "Command m = CommandJoinRoom"
  shows "\<exists>s'. dispatchOwnerMessage OpenStream a s = Ret s' \<and> session_ok p0 s' \<and> session_effect m s s'"
proof -
  have data: "Data a (messagePool (session_client s)) = Inr m" and c: "client_holding p0 a m (session_client s)"
    using assms(1) by (simp_all add: mux_ok_def can_send_def client_holding_def session_client_def)
  have other: "CommandJoinRoom \<noteq> CommandAdbTransport" by (simp add: CommandAdbTransport_def CommandJoinRoom_def)
  obtain res where res: "GetPayloadConnectRoom m = Ret res"
    using connect_room.get_total assms(2) by (auto simp: clean_message_def)
  show ?thesis
  proof (cases res)
    case (Inl e)
    obtain c1 e1 where c1: "SendError CommandJoinRoom ErrorInvalidPayload ''Invalid join room request payload'' (session_client s) = Ret (c1, e1)"
      "client_holding p0 a m c1"
      using holding_error_sent [OF c, of "''Invalid join room request payload''"] by fastforce
    have "mux_ok (client_holding p0 a m) (session_mux (set_session_client c1 s))"
      using assms(1) c1(2) by (simp add: set_session_client_def) (simp add: mux_ok_def can_send_def)
    with mux_ok_dispose_in [OF this] data res Inl c1(1) assms(3) other show ?thesis
      by (simp add: dispatchOwnerMessage_def send_from_session_def session_effect_def)
  next
    case (Inr p)
    with mux_ok_dispose_in [OF assms(1)] data res assms(3) other show ?thesis
      by (simp add: dispatchOwnerMessage_def session_effect_def)
  qed
qed

lemma dispatch_guest_left:
  assumes "mux_ok (client_holding p0 a m) (session_mux s)" "Command m = CommandGuestLeft"
  shows "\<exists>s'. dispatchOwnerMessage OpenStream a s = Ret s' \<and> session_ok p0 s' \<and> session_effect m s s'"
proof -
  have data: "Data a (messagePool (session_client s)) = Inr m"
    using assms(1) by (simp add: mux_ok_def can_send_def client_holding_def session_client_def)
  obtain mux1 where m1: "OwnerMultiplexer_Close (session_mux s) = Ret mux1" "mux_ok (client_holding p0 a m) mux1"
    "tclient mux1 = tclient (session_mux s)" "\<forall>own. streams mux1 own = None"
    using close_all_returns [OF assms(1)] by blast
  have other: "CommandGuestLeft \<noteq> CommandAdbTransport" "CommandGuestLeft \<noteq> CommandJoinRoom"
    by (simp_all add: CommandAdbTransport_def CommandJoinRoom_def CommandGuestLeft_def)
  define s' where "s' = dispose_session a (emit (owner_event OwnerGuestLeft) (s\<lparr>session_mux := mux1\<rparr>))"
  have "client_wire (session_client s') = client_wire (session_client s)"
    unfolding s'_def dispose_session_simps using m1(3) by (simp add: session_client_def)
  moreover have "dispatchOwnerMessage OpenStream a s = Ret s'"
    using data m1(1) assms(2) other by (simp add: dispatchOwnerMessage_def s'_def)
  ultimately show ?thesis using mux_ok_dispose_in [OF m1(2)] m1(4) assms(2) other
    by (simp add: session_effect_def) (simp add: s'_def)
qed

lemma dispatch_message:
  assumes "mux_ok (client_holding p0 a m) (session_mux s)" "clean_message m" "\<not> wrapped_request m"
  shows "\<exists>s'. dispatchOwnerMessage OpenStream a s = Ret s' \<and> session_ok p0 s' \<and> session_effect m s s'"
proof -
  consider "Command m = CommandAdbTransport" | "Command m = CommandJoinRoom" | "Command m = CommandGuestLeft"
    | "Command m \<notin> {CommandAdbTransport, CommandJoinRoom, CommandGuestLeft}" by auto
  then show ?thesis
  proof cases
    case 4
    have "Data a (messagePool (session_client s)) = Inr m"
      using assms(1) by (simp add: mux_ok_def can_send_def client_holding_def session_client_def)
    with 4 mux_ok_dispose_in [OF assms(1)] show ?thesis by (simp add: dispatchOwnerMessage_def session_effect_def)
  qed (use dispatch_adb_message dispatch_join_request dispatch_guest_left assms in blast)+
qed

lemma dispatch_wrapped:
  assumes "mux_ok (client_holding p0 a m) (session_mux s)" "clean_message m" "wrapped_request m"
  shows "dispatchOwnerMessage OpenStream a s = Panic"
proof -
  have data: "Data a (messagePool (tclient (session_mux s))) = Inr m"
    using assms(1) by (simp add: mux_ok_def can_send_def client_holding_def)
  have payload: "Payload m = Ret (payload_bytes m)" "length (payload_bytes m) \<le> 0xF000"
    using assms(2) Payload_ok length_payload_bytes by (auto simp: clean_message_def payload_fits_nat)
  have "dispatch_data SendAdbMessage OpenStream (Inr m) (session_mux s) = Panic"
    using holding.dispatch_outcome [OF assms(1) payload, of OpenStream] assms(3) by (auto simp: wrapped_request_def split: if_splits)
  with data assms(3) show ?thesis
    by (simp add: dispatchOwnerMessage_def session_client_def Dispatch_def wrapped_request_def)
qed

section \<open>Decisions\<close>

lemma decision_returns:
  assumes "session_ok p0 s" "length ownerKey < 2 ^ 16"
  shows "\<exists>s'. handleJoinRequest ownerKey decision request s = Ret s' \<and> session_ok p0 s'"
proof -
  have live: "client_live p0 (session_client s)" by (rule session_client_live [OF assms(1)])
  then have ok: "client_ok (session_client s)" by (simp add: client_live_def client_recv_def)
  obtain i k where request: "request = (i, k)" by (cases request)
  show ?thesis
  proof (cases decision)
    case (Inl e)
    obtain c' e' where "SendError CommandJoinRoom ErrorUnknown ''Client side error, connection will be closed'' (session_client s) = Ret (c', e')"
      "client_live p0 c'"
      using error_sender.client_send_any [OF ok, of "(CommandJoinRoom, ErrorUnknown, ''Client side error, connection will be closed'')"]
        client_live_send [OF live]
      by (auto simp: SendError_fill elim!: returnsE)
    with Inl session_ok_set_client [of p0 "emit ((owner_event OwnerJoinFailed)\<lparr>OGuestClientId := i, OErr := Some e\<rparr>) s"] assms(1)
    show ?thesis by (simp add: handleJoinRequest_def request send_from_session_def)
  next
    case (Inr accepted)
    obtain c' e' where "Client_SendJoinRoomResponse (if accepted then 1 else 0) ownerKey (session_client s) = Ret (c', e')"
      "client_live p0 c'"
      using join_answer_sender.client_send_any [OF ok, of "(if accepted then 1 else 0, [], ownerKey)"]
        client_live_send [OF live] assms(2)
      by (auto simp: SendJoinRoomResponse_fill elim!: returnsE)
    with Inr session_ok_set_client [OF assms(1)] show ?thesis
      by (cases e') (simp_all add: handleJoinRequest_def request send_from_session_def Let_def)
  qed
qed

lemma session_step_ok:
  assumes "session_step ownerKey OpenStream s s'" "session_ok p0 s" "length ownerKey < 2 ^ 16"
  shows "session_ok p0 s'"
  using assms(1)
proof cases
  case (handles c1 a)
  obtain m where m: "clean_message m" "mux_ok (client_holding p0 a m) (session_mux (set_session_client c1 s))"
    by (rule session_receives [OF assms(2) handles(1)])
  show ?thesis
  proof (cases "wrapped_request m")
    case True
    with dispatch_wrapped [OF m(2,1)] handles(2) show ?thesis by simp
  next
    case False
    with dispatch_message [OF m(2,1) False, of OpenStream] handles(2) show ?thesis by auto
  qed
next
  case (decides p request q decision)
  with decision_returns [of p0 "s\<lparr>pending := p @ q\<rparr>" ownerKey decision request] assms(2,3) show ?thesis by auto
next
  case (session_reads c1)
  with client_recv_reads [of p0 "session_client s"] session_client_live [OF assms(2)] assms(2) show ?thesis
    by (auto simp: client_live_def intro!: session_ok_set_client)
next
  case (pumps e mux1)
  have "mux_moves (client_live p0) (session_mux s) e mux1"
    by (rule live.step_moves [OF _ _ pumps(2)]) (use assms(2) in \<open>simp_all add: session_ok_def\<close>)
  with pumps(1) show ?thesis by (simp add: mux_moves_def)
next
  case (session_ends mux1)
  with live.close_all_moves [of p0 "session_mux s" mux1] assms(2) show ?thesis
    by (simp add: OwnerMultiplexer_Close_def mux_moves_def session_ok_def)
qed

lemma session_reachable_ok:
  "(session_step ownerKey OpenStream)\<^sup>*\<^sup>* s s' \<Longrightarrow> session_ok p0 s \<Longrightarrow> length ownerKey < 2 ^ 16 \<Longrightarrow> session_ok p0 s'"
  by (induction rule: rtranclp_induct) (auto intro: session_step_ok)

definition session_start :: "string \<Rightarrow> OwnerEvent list \<Rightarrow> Client \<Rightarrow> owner_session" where
  "session_start device es c = \<lparr>session_mux = NewOwnerMultiplexer device c, pending = [], owner_events = es\<rparr>"

lemma session_ok_start:
  assumes "client_ok c" "reader c = Reading"
  shows "session_ok (messagePool c) (session_start device es c)"
  using table_ok_New [of device c] client_recv_start [OF assms] assms(2)
  by (simp add: session_start_def session_ok_def mux_ok_def can_send_def client_live_def)
    (simp add: NewOwnerMultiplexer_def good_pool_New)

lemma JoinAsRoomOwner_starts_session:
  "createRoom c = Ret (c1, Inr room) \<Longrightarrow>
   JoinAsRoomOwner_start device c =
     Ret (c1, Inr (session_start device [(owner_event OwnerRoomCreated)\<lparr>ORoomId := room\<rparr>] c1))"
  by (simp add: JoinAsRoomOwner_start_def session_start_def)

section \<open>Properties\<close>

text \<open>
  C29.  In every state an owner's session can reach, whatever message the transporter sends next is well
  formed and is handled: it is an ADB message with the wrapping length of \<open>wrapped_request\<close> and the session
  panics, or the handler of its command returns with \<open>session_effect\<close>: a join request becomes pending
  and is shown to the operator, a guest that left has all its streams closed without a word on the wire, and
  nothing else touches streams, requests or events.  Buffer and stream table stay in order throughout.
\<close>

theorem session_handles_every_message:
  assumes "client_ok c" "reader c = Reading" "length ownerKey < 2 ^ 16"
    and "(session_step ownerKey OpenStream)\<^sup>*\<^sup>* (session_start device es c) s"
    and "Messages (session_client s) = Ret (c1, Some a)"
  shows "session_ok (messagePool c) s \<and>
    (\<exists>m. Data a (messagePool c1) = Inr m \<and> clean_message m \<and>
      (if wrapped_request m then dispatchOwnerMessage OpenStream a (set_session_client c1 s) = Panic
       else \<exists>s'. dispatchOwnerMessage OpenStream a (set_session_client c1 s) = Ret s' \<and>
         session_ok (messagePool c) s' \<and> session_effect m (set_session_client c1 s) s'))"
proof -
  have ok: "session_ok (messagePool c) s"
    by (rule session_reachable_ok [OF assms(4) session_ok_start [OF assms(1,2)] assms(3)])
  obtain m where m: "client_holding (messagePool c) a m c1" "clean_message m"
    "mux_ok (client_holding (messagePool c) a m) (session_mux (set_session_client c1 s))"
    by (rule session_receives [OF ok assms(5)])
  have "Data a (messagePool c1) = Inr m" using m(1) by (simp add: client_holding_def)
  with ok m(2) dispatch_wrapped [OF m(3,2)] dispatch_message [OF m(3,2), of OpenStream] show ?thesis by auto
qed

text \<open>
  C30.  The operator's decision reaches the wire: carrying it out takes any pending request off the list, sends
  one join answer with the owner's key and the decision, and reports it.  The answer names no guest (its
  client id is empty), so the transporter gives it to whoever is the room's guest by then.
\<close>

theorem decision_is_sent:
  assumes "session_ok p0 s" "client_writable (session_client s)" "length ownerKey \<le> 1000"
  shows "\<exists>s'. handleJoinRequest ownerKey (Inr accepted) (asker, askerKey) s = Ret s' \<and>
     client_wire (session_client s') = client_wire (session_client s) @
       encode_frame (CommandJoinRoom OR CommandResponseMask)
         (enc_fields [FInt (if accepted then 1 else 0), FStr [], FStr (string_of_bytes ownerKey)]) \<and>
     owner_events s' = owner_events s @ [(owner_event OwnerJoinDecided)\<lparr>OGuestClientId := asker,
       OGuestPublicKey := askerKey, OAccepted := accepted\<rparr>] \<and>
     pending s' = pending s \<and> streams (session_mux s') = streams (session_mux s)"
proof -
  let ?frame = "encode_frame (CommandJoinRoom OR CommandResponseMask)
         (enc_fields [FInt (if accepted then 1 else 0), FStr [], FStr (string_of_bytes ownerKey)])"
  have ok: "client_ok (session_client s)"
    using session_client_live [OF assms(1)] by (simp add: client_live_def client_recv_def)
  obtain tc where tc: "client_connection (session_client s) = Some tc" "writable tc"
    using assms(2) by (auto simp: client_writable_def split: option.splits)
  have "length (enc_fields [FInt (if accepted then 1 else 0), FStr [], FStr (string_of_bytes ownerKey)]) \<le> 0xF000"
    using assms(3) by simp
  then obtain c' where "Client_SendJoinRoomResponse (if accepted then 1 else 0) ownerKey (session_client s) = Ret (c', None)"
    "client_connection c' = Some (tc\<lparr>outbound := outbound tc @ ?frame\<rparr>)"
    using join_answer_sender.client_send_up [OF ok tc, of "(if accepted then 1 else 0, [], ownerKey)"]
    by (auto simp: SendJoinRoomResponse_fill)
  moreover from this(2) tc(1) have "client_wire c' = client_wire (session_client s) @ ?frame"
    by (simp add: client_wire_def)
  ultimately show ?thesis by (simp add: handleJoinRequest_def send_from_session_def Let_def)
qed

section \<open>Witnesses\<close>

definition sample_session :: "bytes \<Rightarrow> owner_session" where
  "sample_session bs = session_start ''emulator-5554'' [] (sample_peer bs)"

theorem session_handles_every_message_witness:
  "\<exists>c1 a m s'. Messages (sample_peer (encode_frame CommandGuestLeft [] @ [1])) = Ret (c1, Some a) \<and>
     dispatchOwnerMessage sample_device a (set_session_client c1 (sample_session (encode_frame CommandGuestLeft [] @ [1]))) = Ret s' \<and>
     session_effect m (set_session_client c1 (sample_session (encode_frame CommandGuestLeft [] @ [1]))) s'"
proof -
  let ?bs = "encode_frame CommandGuestLeft [] @ [1]"
  let ?s = "sample_session ?bs"
  have client: "session_client ?s = sample_peer ?bs"
    by (simp add: sample_session_def session_start_def session_client_def NewOwnerMultiplexer_def)
  have "decode_frame (in_end (fresh_conn ?bs)) (inbound (fresh_conn ?bs)) = Inr (CommandGuestLeft, [], [1])"
    by (simp add: fresh_conn_def decode_encode_frame)
  with Messages_decodes [OF sample_peer_ok(1,6) _ sample_peer_ok(5,4), of ?bs]
  obtain c1 a where c1: "Messages (sample_peer ?bs) = Ret (c1, Some a)" "took_frame (sample_peer ?bs) c1 a CommandGuestLeft [] [1]"
    by (auto simp: fresh_conn_def)
  then have "Messages (session_client ?s) = Ret (c1, Some a)" by (simp add: client)
  with session_handles_every_message [OF sample_peer_ok(1,4) [of ?bs], where ownerKey = "[7]" and OpenStream = sample_device and s = ?s and ?c1.0 = c1 and a = a]
  obtain m where m: "Data a (messagePool c1) = Inr m"
    "if wrapped_request m then dispatchOwnerMessage sample_device a (set_session_client c1 ?s) = Panic
       else \<exists>s'. dispatchOwnerMessage sample_device a (set_session_client c1 ?s) = Ret s' \<and>
         session_ok (messagePool (sample_peer ?bs)) s' \<and> session_effect m (set_session_client c1 ?s) s'"
    by (auto simp: sample_session_def)
  have "Command m = CommandGuestLeft" using c1(2) m(1) by (auto simp: took_frame_def holds_frame_def)
  then have "\<not> wrapped_request m" by (simp add: wrapped_request_def CommandGuestLeft_def CommandAdbTransport_def)
  with m(2) c1(1) show ?thesis by auto
qed

theorem decision_is_sent_witness:
  "\<exists>s'. handleJoinRequest [7] (Inr True) (''AAAA0000'', [9]) (sample_session []) = Ret s' \<and>
     client_wire (session_client s') = encode_frame (CommandJoinRoom OR CommandResponseMask) (enc_fields [FInt 1, FStr [], FStr (string_of_bytes [7])])"
proof -
  have "session_client (sample_session []) = sample_peer []"
    by (simp add: sample_session_def session_start_def session_client_def NewOwnerMultiplexer_def)
  with decision_is_sent [OF session_ok_start [OF sample_peer_ok(1,4) [of "[]"], of "''emulator-5554''" "[]", folded sample_session_def],
      where ownerKey = "[7]" and accepted = True and asker = "''AAAA0000''" and askerKey = "[9]"]
    sample_peer_ok(2,3) [of "[]"]
  show ?thesis by auto
qed

end
