(* ===== verification/Float64.thy ===== *)
theory Float64
  imports Complex_Main Prelude
begin

text \<open>
  Go's \<open>float64\<close>, for the positive numbers the transfer statistics compute with: a value is the rational it
  stands for, and every operation rounds to 53 significant bits, ties to even.  The exponent is unbounded;
  the statistics stay between \<open>10 ^ - 10\<close> and \<open>10 ^ 30\<close>, where neither overflow nor
  subnormal numbers occur.
\<close>

definition round_even :: "nat \<Rightarrow> nat \<Rightarrow> nat" where
  "round_even n d = (let q = n div d; r = n mod d in
     if 2 * r < d then q else if 2 * r > d then q + 1 else if even q then q else q + 1)"

fun bit_length :: "nat \<Rightarrow> nat" where
  "bit_length n = (if n = 0 then 0 else bit_length (n div 2) + 1)"

declare bit_length.simps [simp del]

text \<open>\<open>scaled e p q\<close> are numerator and denominator of \<open>(p / q) / 2 ^ e\<close>.\<close>

definition scaled :: "int \<Rightarrow> nat \<Rightarrow> nat \<Rightarrow> nat \<times> nat" where
  "scaled e p q = (p * 2 ^ nat (- e), q * 2 ^ nat e)"

definition two_to :: "int \<Rightarrow> rat" where
  "two_to e = (if e \<ge> 0 then 2 ^ nat e else 1 / 2 ^ nat (- e))"

definition float_exponent :: "nat \<Rightarrow> nat \<Rightarrow> int" where
  "float_exponent p q =
     (let e = int (bit_length p) - int (bit_length q) - 53; (n, d) = scaled e p q in
      if n \<ge> 2 ^ 53 * d then e + 1 else e)"

definition float_ratio :: "nat \<Rightarrow> nat \<Rightarrow> rat" where
  "float_ratio p q =
     (if p = 0 then 0
      else let e = float_exponent p q; (n, d) = scaled e p q in of_nat (round_even n d) * two_to e)"

definition fl :: "rat \<Rightarrow> rat" where
  "fl x = (case quotient_of x of (p, q) \<Rightarrow> float_ratio (nat p) (nat q))"

text \<open>\<open>%.1f\<close>: the nearest tenth, ties to even.\<close>

definition tenths :: "rat \<Rightarrow> nat" where
  "tenths x = (case quotient_of x of (p, q) \<Rightarrow> round_even (10 * nat p) (nat q))"

definition show_tenths :: "rat \<Rightarrow> string" where
  "show_tenths x = decimal (tenths x div 10) @ ''.'' @ decimal (tenths x mod 10)"

section \<open>Rounding errors\<close>

lemma round_even_error:
  assumes "d > 0"
  shows "\<bar>of_nat (round_even n d) - of_nat n / of_nat d\<bar> \<le> (1 / 2 :: rat)"
proof -
  let ?q = "n div d" and ?r = "n mod d"
  have n: "(of_nat n :: rat) / of_nat d = of_nat ?q + of_nat ?r / of_nat d"
    using assms by (simp add: field_simps flip: of_nat_mult of_nat_add)
  have r: "0 \<le> (of_nat ?r :: rat) / of_nat d" "(of_nat ?r :: rat) / of_nat d \<le> 1"
    using assms by (simp_all add: divide_le_eq)
  have "(of_nat ?r :: rat) / of_nat d \<le> 1 / 2" if "2 * ?r \<le> d"
    using that assms of_nat_mono [of "2 * ?r" d, where 'a = rat] by (simp add: divide_le_eq)
  moreover have "(of_nat ?r :: rat) / of_nat d \<ge> 1 / 2" if "2 * ?r \<ge> d"
    using that assms of_nat_mono [of d "2 * ?r", where 'a = rat] by (simp add: le_divide_eq)
  ultimately show ?thesis unfolding n using r
    by (auto simp: round_even_def Let_def abs_le_iff not_less)
qed

lemma bit_length_bounds: "0 < n \<Longrightarrow> 2 ^ (bit_length n - 1) \<le> n \<and> n < 2 ^ bit_length n \<and> 0 < bit_length n"
proof (induction n rule: bit_length.induct)
  case (1 n)
  show ?case
  proof (cases "n < 2")
    case True
    with 1(2) have "n = 1" by simp
    then show ?thesis by (simp add: bit_length.simps)
  next
    case False
    then have IH: "2 ^ (bit_length (n div 2) - 1) \<le> n div 2" "n div 2 < 2 ^ bit_length (n div 2)" "0 < bit_length (n div 2)"
      using 1 by simp_all
    have b: "bit_length n = bit_length (n div 2) + 1" using False by (subst bit_length.simps) simp
    have "(2 :: nat) ^ bit_length (n div 2) = 2 * 2 ^ (bit_length (n div 2) - 1)"
      using IH(3) by (metis power_eq_if not_gr_zero)
    with IH(1) have "2 ^ bit_length (n div 2) \<le> n" by linarith
    moreover have "n < 2 * 2 ^ bit_length (n div 2)" using IH(2) by linarith
    ultimately show ?thesis by (simp add: b)
  qed
qed

lemma two_to_pos [simp]: "0 < two_to e" "0 \<le> two_to e" "\<bar>two_to e\<bar> = two_to e"
  by (simp_all add: two_to_def)

lemma two_to_Suc: "two_to (e + 1) = 2 * two_to e"
proof -
  consider "0 \<le> e" | "e = -1" | "e < -1" by linarith
  then show ?thesis
  proof cases
    case 3
    then have "nat (- e) = Suc (nat (- (e + 1)))" by linarith
    then have "(2 :: rat) ^ nat (- e) = 2 * 2 ^ nat (- (e + 1))" by (simp only: power_Suc)
    with 3 show ?thesis by (simp add: two_to_def)
  qed (simp_all add: two_to_def nat_add_distrib)
qed

lemma two_to_add_nat: "two_to (e + int k) = 2 ^ k * two_to e"
proof (induction k)
  case (Suc k)
  have "e + int (Suc k) = (e + int k) + 1" by simp
  with Suc two_to_Suc [of "e + int k"] show ?case by (simp only: power_Suc mult.assoc)
qed simp

lemma two_to_diff: "two_to (int a - int b) = 2 ^ a / 2 ^ b"
proof -
  have "2 ^ b * two_to (int a - int b) = two_to (int a)"
    using two_to_add_nat [of "int a - int b" b] by simp
  also have "\<dots> = 2 ^ a" by (simp add: two_to_def)
  finally show ?thesis by (simp add: field_simps)
qed

lemma scaled_ratio:
  assumes "0 < q" "scaled e p q = (n, d)"
  shows "0 < d" "(of_nat n :: rat) / of_nat d * two_to e = of_nat p / of_nat q"
proof -
  have nd: "n = p * 2 ^ nat (- e)" "d = q * 2 ^ nat e" using assms(2) by (simp_all add: scaled_def)
  show "0 < d" using assms(1) nd by simp
  show "(of_nat n :: rat) / of_nat d * two_to e = of_nat p / of_nat q"
    by (cases "0 \<le> e") (simp_all add: nd two_to_def)
qed

text \<open>The mantissa has 53 bits, so half a unit in the last place is a relative error of \<open>2 ^ - 53\<close>.\<close>

lemma float_exponent_bound:
  assumes "0 < p" "0 < q"
  shows "2 ^ 52 * two_to (float_exponent p q) \<le> of_nat p / of_nat q"
proof -
  let ?e = "int (bit_length p) - int (bit_length q) - 53"
  obtain n d where nd: "scaled ?e p q = (n, d)" by (cases "scaled ?e p q")
  note ratio = scaled_ratio [OF assms(2) nd]
  note b = bit_length_bounds [OF assms(1)] bit_length_bounds [OF assms(2)]
  have "2 ^ 52 * two_to ?e = two_to (int (bit_length p - 1) - int (bit_length q))"
    using two_to_add_nat [of ?e 52] b(1) by (simp add: of_nat_diff algebra_simps)
  also have "\<dots> = 2 ^ (bit_length p - 1) / 2 ^ bit_length q" by (rule two_to_diff)
  also have "\<dots> \<le> of_nat p / of_nat q"
  proof (rule frac_le)
    show "2 ^ (bit_length p - 1) \<le> (of_nat p :: rat)"
      using b(1) by (metis of_nat_le_iff of_nat_numeral of_nat_power)
    show "(of_nat q :: rat) \<le> 2 ^ bit_length q"
      using b(2) by (metis less_imp_le of_nat_le_iff of_nat_numeral of_nat_power)
  qed (use assms in simp_all)
  finally have low: "2 ^ 52 * two_to ?e \<le> of_nat p / of_nat q" .
  show ?thesis
  proof (cases "n \<ge> 2 ^ 53 * d")
    case True
    then have "(2 ^ 53 :: rat) * of_nat d \<le> of_nat n"
      using of_nat_mono [of "2 ^ 53 * d" n, where 'a = rat] by simp
    then have "2 ^ 53 \<le> (of_nat n :: rat) / of_nat d" using ratio(1) by (simp add: le_divide_eq)
    then have "2 ^ 53 * two_to ?e \<le> (of_nat n :: rat) / of_nat d * two_to ?e" by (intro mult_right_mono) simp_all
    with ratio(2) True two_to_Suc [of ?e] show ?thesis by (simp add: float_exponent_def nd Let_def)
  next
    case False
    with low show ?thesis by (simp add: float_exponent_def nd Let_def)
  qed
qed

lemma float_ratio_error:
  assumes "0 < q"
  shows "\<bar>float_ratio p q - of_nat p / of_nat q\<bar> \<le> of_nat p / of_nat q / 2 ^ 53"
proof (cases "p = 0")
  case False
  let ?e = "float_exponent p q" and ?x = "of_nat p / of_nat q :: rat"
  obtain n d where nd: "scaled ?e p q = (n, d)" by (cases "scaled ?e p q")
  note ratio = scaled_ratio [OF assms nd]
  have "\<bar>float_ratio p q - ?x\<bar> = \<bar>of_nat (round_even n d) - of_nat n / of_nat d\<bar> * two_to ?e"
  proof -
    have "float_ratio p q - ?x = (of_nat (round_even n d) - of_nat n / of_nat d) * two_to ?e"
      using False unfolding ratio(2) [symmetric] by (simp add: float_ratio_def nd left_diff_distrib)
    then show ?thesis by (simp add: abs_mult)
  qed
  also have "\<dots> \<le> 1 / 2 * two_to ?e" by (rule mult_right_mono [OF round_even_error [OF ratio(1)]]) simp
  also have "\<dots> \<le> ?x / 2 ^ 53" using float_exponent_bound [of p q] False assms by simp
  finally show ?thesis .
qed (simp add: float_ratio_def)

lemma nonneg_ratio:
  assumes "0 \<le> x" "quotient_of x = (p, q)"
  shows "0 < nat q" "x = of_nat (nat p) / of_nat (nat q)"
proof -
  have q: "0 < q" by (rule quotient_of_denom_pos [OF assms(2)])
  have x: "x = of_int p / of_int q" by (rule quotient_of_div [OF assms(2)])
  have "0 \<le> p" using assms(1) q by (simp add: x zero_le_divide_iff)
  with q x show "0 < nat q" "x = of_nat (nat p) / of_nat (nat q)" by simp_all
qed

lemma fl_error:
  assumes "0 \<le> x"
  shows "\<bar>fl x - x\<bar> \<le> x / 2 ^ 53"
proof -
  obtain p q where pq: "quotient_of x = (p, q)" by (cases "quotient_of x")
  note x = nonneg_ratio [OF assms pq]
  have "fl x = float_ratio (nat p) (nat q)" by (simp add: fl_def pq)
  with float_ratio_error [OF x(1), of "nat p"] show ?thesis by (simp only: x(2))
qed

lemma fl_nonneg: "0 \<le> x \<Longrightarrow> 0 \<le> fl x"
  using fl_error [of x] by (simp only: abs_le_iff) (simp add: field_simps)

lemma tenths_error:
  assumes "0 \<le> x"
  shows "\<bar>of_nat (tenths x) / 10 - x\<bar> \<le> 1 / 20"
proof -
  obtain p q where pq: "quotient_of x = (p, q)" by (cases "quotient_of x")
  note x = nonneg_ratio [OF assms pq]
  have "of_nat (10 * nat p) / of_nat (nat q) = 10 * x" using x(2) by simp
  with round_even_error [OF x(1), of "10 * nat p"] have "\<bar>of_nat (tenths x) - 10 * x\<bar> \<le> 1 / 2"
    by (simp only: tenths_def pq split)
  then show ?thesis unfolding abs_le_iff by linarith
qed

text \<open>The error of a quotient of two rounded numbers.\<close>

lemma fl_quotient_error:
  assumes "0 \<le> x" "0 < y"
  shows "\<bar>fl (fl x / fl y) - x / y\<bar> \<le> x / y / 2 ^ 50" "0 \<le> fl x / fl y"
proof -
  have ex: "\<bar>fl x - x\<bar> \<le> x / 2 ^ 53" by (rule fl_error [OF assms(1)])
  have ey: "\<bar>fl y - y\<bar> \<le> y / 2 ^ 53" by (rule fl_error [OF less_imp_le [OF assms(2)]])
  have b: "y / 2 \<le> fl y" using ey assms(2) by (simp only: abs_le_iff) (simp add: field_simps)
  then have pos: "0 < fl y" using assms(2) by linarith
  show nonneg: "0 \<le> fl x / fl y" using fl_nonneg [OF assms(1)] pos by simp
  have "fl x / fl y - x / y = ((fl x - x) * y + x * (y - fl y)) / (fl y * y)"
    using pos assms(2) by (simp add: field_simps)
  then have "\<bar>fl x / fl y - x / y\<bar> = \<bar>(fl x - x) * y + x * (y - fl y)\<bar> / (fl y * y)"
    using pos assms(2) by simp
  also have "\<dots> \<le> (x / 2 ^ 53 * y + x * (y / 2 ^ 53)) / (y / 2 * y)"
  proof (rule frac_le)
    have "\<bar>(fl x - x) * y\<bar> \<le> x / 2 ^ 53 * y"
      using mult_right_mono [OF ex, of y] assms(2) by (simp add: abs_mult)
    moreover have "\<bar>x * (y - fl y)\<bar> \<le> x * (y / 2 ^ 53)"
      using mult_left_mono [OF ey assms(1)] assms(1) by (simp add: abs_mult abs_minus_commute)
    ultimately show "\<bar>(fl x - x) * y + x * (y - fl y)\<bar> \<le> x / 2 ^ 53 * y + x * (y / 2 ^ 53)"
      by linarith
    show "y / 2 * y \<le> fl y * y" by (rule mult_right_mono [OF b less_imp_le [OF assms(2)]])
  qed (use assms in simp_all)
  also have "\<dots> = x / y / 2 ^ 51" using assms(2) by (simp add: field_simps)
  finally have quot: "\<bar>fl x / fl y - x / y\<bar> \<le> x / y / 2 ^ 51" .
  have r: "0 \<le> x / y" using assms by simp
  have "\<bar>fl (fl x / fl y) - fl x / fl y\<bar> \<le> fl x / fl y / 2 ^ 53" by (rule fl_error [OF nonneg])
  with quot r show "\<bar>fl (fl x / fl y) - x / y\<bar> \<le> x / y / 2 ^ 50"
    unfolding abs_le_iff by simp
qed

end
