(* ===== verification/Transfer_Stats.thy ===== *)
theory Transfer_Stats
  imports Float64
begin

text \<open>
  \<open>client/tui/transferStats.go\<close> and \<open>styles.go\<close>: the byte counters at the bottom of both screens and the
  layout of a screen.  The styles are rendered by a library that is not part of the repository: \<open>Styles\<close>
  has one function per style.  A screen is the string handed to the terminal; strings are UTF-8.
\<close>

section \<open>Styles and text\<close>

record Styles =
  titleStyle :: "string \<Rightarrow> string"
  labelStyle :: "string \<Rightarrow> string"
  selectedStyle :: "string \<Rightarrow> string"
  promptStyle :: "string \<Rightarrow> string"
  successStyle :: "string \<Rightarrow> string"
  errorStyle :: "string \<Rightarrow> string"
  helpStyle :: "string \<Rightarrow> string"
  dimStyle :: "string \<Rightarrow> string"

abbreviation newline :: char where "newline \<equiv> CHR 0x0A"

definition em_dash :: string where "em_dash = [CHR 0xE2, CHR 0x80, CHR 0x94]"
definition box_line :: string where "box_line = [CHR 0xE2, CHR 0x94, CHR 0x80]"

text \<open>\<open>strings.Split\<close> at newlines, \<open>strings.Join\<close> with newlines and \<open>strings.TrimRight\<close> of newlines.\<close>

fun split_lines :: "string \<Rightarrow> string list" where
  "split_lines [] = [[]]"
| "split_lines (c # s) =
     (if c = newline then [] # split_lines s
      else (case split_lines s of l # ls \<Rightarrow> (c # l) # ls))"

fun join_lines :: "string list \<Rightarrow> string" where
  "join_lines [] = []"
| "join_lines [l] = l"
| "join_lines (l # ls) = l @ newline # join_lines ls"

definition trim_newlines :: "string \<Rightarrow> string" where
  "trim_newlines s = rev (dropWhile (\<lambda>c. c = newline) (rev s))"

section \<open>Sizes\<close>

text \<open>The loop over the units; a byte is read off \<open>KMGTP\<close>, which has five.\<close>

function unit_loop :: "nat \<Rightarrow> nat \<Rightarrow> nat \<Rightarrow> nat \<times> nat" where
  "unit_loop n dv ex = (if n div dv \<ge> 1024 \<and> ex < 5 then unit_loop n (dv * 1024) (ex + 1) else (dv, ex))"
  by pat_completeness auto
termination by (relation "measure (\<lambda>(n, dv, ex). 5 - ex)") auto

declare unit_loop.simps [simp del]

definition unit_prefixes :: string where "unit_prefixes = ''KMGTP''"

definition formatBytes :: "u64 \<Rightarrow> string outcome" where
  "formatBytes n =
     (if n < 1024 then Ret (decimal (unat n) @ '' B'')
      else (case unit_loop (unat n) 1024 0 of (dv, ex) \<Rightarrow>
        if ex < length unit_prefixes
        then Ret (show_tenths (fl (fl (of_nat (unat n)) / fl (of_nat dv))) @ '' '' @ [unit_prefixes ! ex] @ ''iB'')
        else Panic))"

text \<open>\<open>uint64(bytesPerSec)\<close> cuts off the fraction.\<close>

definition formatRate :: "rat \<Rightarrow> string outcome" where
  "formatRate bytesPerSec = andThen (formatBytes (word_of_int \<lfloor>bytesPerSec\<rfloor>)) (\<lambda>s. Ret (s @ ''/s''))"

section \<open>Sampling\<close>

text \<open>Times are nanoseconds; \<open>None\<close> is the zero time.\<close>

record transferStats =
  sent :: "u64"
  received :: "u64"
  sendRate :: rat
  recvRate :: rat
  lastSampleAt :: "int option"
  lastSent :: "u64"
  lastReceived :: "u64"

definition no_stats :: transferStats where
  "no_stats = \<lparr>sent = 0, received = 0, sendRate = 0, recvRate = 0, lastSampleAt = None, lastSent = 0, lastReceived = 0\<rparr>"

text \<open>\<open>Duration.Seconds\<close>, for a positive duration.\<close>

definition Seconds :: "int \<Rightarrow> rat" where
  "Seconds d = fl (fl (of_int (d div 10 ^ 9)) + fl (fl (of_int (d mod 10 ^ 9)) / 10 ^ 9))"

definition rate :: "u64 \<Rightarrow> u64 \<Rightarrow> int \<Rightarrow> rat" where
  "rate now before elapsed = fl (fl (of_nat (unat (now - before))) / Seconds elapsed)"

definition sample :: "u64 \<Rightarrow> u64 \<Rightarrow> int \<Rightarrow> transferStats \<Rightarrow> transferStats" where
  "sample bytes_sent bytes_received now s =
     (let s1 = (case lastSampleAt s of None \<Rightarrow> s
        | Some t \<Rightarrow> if now - t > 0
            then s\<lparr>sendRate := rate bytes_sent (lastSent s) (now - t),
              recvRate := rate bytes_received (lastReceived s) (now - t)\<rparr>
            else s) in
      s1\<lparr>sent := bytes_sent, received := bytes_received, lastSent := bytes_sent, lastReceived := bytes_received,
        lastSampleAt := Some now\<rparr>)"

definition render :: "Styles \<Rightarrow> transferStats \<Rightarrow> string outcome" where
  "render st s =
     andThen (formatBytes (received s)) (\<lambda>bytes_in.
     andThen (formatRate (recvRate s)) (\<lambda>rate_in.
     andThen (formatBytes (sent s)) (\<lambda>bytes_out.
     andThen (formatRate (sendRate s)) (\<lambda>rate_out.
       Ret (labelStyle st ''In: '' @ bytes_in @ dimStyle st ('' ('' @ rate_in @ '')'') @ ''   '' @
         labelStyle st ''Out: '' @ bytes_out @ dimStyle st ('' ('' @ rate_out @ '')''))))))"

section \<open>The screen\<close>

definition layoutWithFooter :: "Styles \<Rightarrow> string \<Rightarrow> string \<Rightarrow> int \<Rightarrow> string" where
  "layoutWithFooter st body footer height =
     (if height \<le> 0 then body @ newline # footer
      else
        let bodyLines = split_lines (trim_newlines body);
            footerLines = split_lines footer;
            divider = dimStyle st (concat (replicate 40 box_line));
            available = nat (height - int (length footerLines) - 1);
            shown = take available bodyLines in
        join_lines shown @ replicate (available - length shown + 1) newline @ divider @ newline # footer)"

section \<open>Lines\<close>

lemma split_lines_not_Nil [simp]: "split_lines s \<noteq> []"
  by (induction s) (auto split: list.split)

lemma length_split_lines: "length (split_lines s) = Suc (count_list s newline)"
proof (induction s)
  case (Cons c s)
  then show ?case by (cases "split_lines s") auto
qed simp

lemma no_newline_lines: "l \<in> set (split_lines s) \<Longrightarrow> newline \<notin> set l"
proof (induction s arbitrary: l)
  case (Cons c s)
  then show ?case by (cases "split_lines s") (auto split: if_splits)
qed simp

lemma join_split [simp]: "join_lines (split_lines s) = s"
proof (induction s)
  case (Cons c s)
  obtain l ls where l: "split_lines s = l # ls" by (cases "split_lines s") auto
  with Cons.IH show ?case by (cases ls) auto
qed simp

lemma newlines_in_join:
  "\<forall>l \<in> set ls. newline \<notin> set l \<Longrightarrow> count_list (join_lines ls) newline = length ls - 1"
  by (induction ls rule: join_lines.induct) auto

lemma count_list_replicate [simp]: "count_list (replicate k c) c = k"
  by (induction k) simp_all

section \<open>The unit of a size\<close>

lemma unit_loop_invariant:
  assumes "dv = 1024 ^ (ex + 1)" "dv \<le> n" "ex \<le> 5" "unit_loop n dv ex = (dv', ex')"
  shows "dv' = 1024 ^ (ex' + 1) \<and> dv' \<le> n \<and> ex' \<le> 5 \<and> (ex' < 5 \<longrightarrow> n < 1024 * dv') \<and> (ex' = 5 \<longrightarrow> n \<ge> 1024 ^ 6 \<or> ex = 5)"
  using assms
proof (induction n dv ex rule: unit_loop.induct)
  case (1 n dv ex)
  have pos: "0 < dv" using 1(2) by simp
  show ?case
  proof (cases "n div dv \<ge> 1024 \<and> ex < 5")
    case True
    then have "dv * 1024 \<le> n" using pos by (simp add: less_eq_div_iff_mult_less_eq mult.commute)
    moreover have "unit_loop n (dv * 1024) (ex + 1) = (dv', ex')" using 1(5) True by (subst (asm) unit_loop.simps) simp
    moreover have "dv * 1024 = 1024 ^ (ex + 1 + 1)" "ex + 1 \<le> 5" using 1(2) True by simp_all
    ultimately have "dv' = 1024 ^ (ex' + 1) \<and> dv' \<le> n \<and> ex' \<le> 5 \<and> (ex' < 5 \<longrightarrow> n < 1024 * dv') \<and>
        (ex' = 5 \<longrightarrow> n \<ge> 1024 ^ 6 \<or> ex + 1 = 5)"
      by (intro 1(1) [OF True])
    moreover have "n \<ge> 1024 ^ 6" if "ex + 1 = 5"
    proof -
      have "ex = 4" using that by simp
      with \<open>dv * 1024 \<le> n\<close> 1(2) show ?thesis by simp
    qed
    ultimately show ?thesis by blast
  next
    case False
    then have "dv' = dv" "ex' = ex" using 1(5) by (subst (asm) unit_loop.simps, auto)+
    moreover have "n < 1024 * dv" if "ex < 5"
      using False that pos by (simp add: not_le div_less_iff_less_mult mult.commute)
    ultimately show ?thesis using 1(2-4) by auto
  qed
qed

text \<open>
  C39.  Sizes are shown right: below 1024 exactly in bytes; up to \<open>2 ^ 60\<close> with one decimal in the unit
  that leaves 1 to 1024, less than 0.0501 units off; a size of \<open>2 ^ 60\<close> bytes or more panics, as
  the loop then runs past the last unit.
\<close>

theorem formatBytes_bounds:
  "if unat n < 1024 then formatBytes n = Ret (decimal (unat n) @ '' B'')
   else if unat n < 2 ^ 60 then
     \<exists>u t. u < 5 \<and> 1024 ^ (u + 1) \<le> unat n \<and> unat n < 1024 ^ (u + 2) \<and>
       formatBytes n = Ret (decimal (t div 10) @ ''.'' @ decimal (t mod 10) @ '' '' @ [''KMGTP'' ! u] @ ''iB'') \<and>
       \<bar>of_nat t / 10 - of_nat (unat n) / 1024 ^ (u + 1)\<bar> < (0.0501 :: rat)
   else formatBytes n = Panic"
proof -
  have small: "n < 1024 \<longleftrightarrow> unat n < 1024" by (simp add: word_less_nat_alt)
  obtain dv u where loop: "unit_loop (unat n) 1024 0 = (dv, u)" by (cases "unit_loop (unat n) 1024 0")
  consider "unat n < 1024" | "1024 \<le> unat n" "unat n < 2 ^ 60" | "unat n \<ge> 2 ^ 60" by linarith
  then show ?thesis
  proof cases
    case 1
    then show ?thesis using small by (simp add: formatBytes_def)
  next
    case 2
    have u: "dv = 1024 ^ (u + 1)" "dv \<le> unat n" "u < 5" "unat n < 1024 ^ (u + 2)"
      using unit_loop_invariant [OF _ _ _ loop] 2 by (auto simp: order_le_less)
    let ?n = "of_nat (unat n) :: rat" and ?d = "of_nat dv :: rat"
    let ?x = "fl (fl ?n / fl ?d)"
    have "0 < dv" using u(1) by simp
    then have d: "0 < ?d" by simp
    have "unat n < 1024 * dv" using u(1,4) by simp
    then have "?n < 1024 * ?d" using of_nat_less_iff [of "unat n" "1024 * dv", where 'a = rat] by simp
    then have q: "?n / ?d < 1024" using d by (simp add: divide_less_eq)
    have n: "0 \<le> ?n" by (rule of_nat_0_le_iff)
    have "\<bar>?x - ?n / ?d\<bar> \<le> ?n / ?d / 2 ^ 50" by (rule fl_quotient_error(1) [OF n d])
    moreover have "r < 1024 \<Longrightarrow> r / 2 ^ 50 < 1 / 10000" for r :: rat by simp
    then have "?n / ?d / 2 ^ 50 < 1 / 10000" using q .
    ultimately have "\<bar>?x - ?n / ?d\<bar> < 1 / 10000" by (rule le_less_trans)
    moreover have "\<bar>of_nat (tenths ?x) / 10 - ?x\<bar> \<le> 1 / 20"
      by (rule tenths_error [OF fl_nonneg [OF fl_quotient_error(2) [OF n d]]])
    ultimately have err: "\<bar>of_nat (tenths ?x) / 10 - ?n / ?d\<bar> < 0.0501" unfolding abs_le_iff abs_less_iff by simp
    have "formatBytes n = Ret (decimal (tenths ?x div 10) @ ''.'' @ decimal (tenths ?x mod 10) @ '' '' @ [''KMGTP'' ! u] @ ''iB'')"
      using small 2 u(3) by (simp add: formatBytes_def loop unit_prefixes_def show_tenths_def)
    moreover have "?d = 1024 ^ (u + 1)" by (simp add: u(1))
    ultimately show ?thesis using 2 u err by auto
  next
    case 3
    then have "unat n \<ge> 1024" by simp
    moreover have "u = 5"
    proof (rule ccontr)
      assume "u \<noteq> 5"
      then have u: "dv = 1024 ^ (u + 1)" "u + 2 \<le> 6" "unat n < 1024 * dv"
        using unit_loop_invariant [OF _ _ _ loop] 3 by auto
      have "(1024 :: nat) ^ (u + 2) \<le> 1024 ^ 6" by (rule power_increasing [OF u(2)]) simp
      with u(1,3) 3 show False by simp
    qed
    ultimately show ?thesis using 3 small by (simp add: formatBytes_def loop unit_prefixes_def)
  qed
qed

text \<open>The screen fits.\<close>

lemma split_lines_append: "split_lines (xs @ newline # ys) = split_lines xs @ split_lines ys"
proof (induction xs)
  case (Cons c xs)
  then show ?case by (cases "split_lines xs") auto
qed simp

text \<open>
  On a terminal whose height is known the footer is always the end of the screen, and the screen has
  exactly as many lines as the terminal, whatever the body; on a terminal with at most one line more than
  the footer it has two lines more than the footer, and so does not fit.
\<close>

theorem layout_fits:
  assumes "0 < height" "newline \<notin> set (dimStyle st (concat (replicate 40 box_line)))"
  shows "let f = length (split_lines footer); screen = split_lines (layoutWithFooter st body footer height) in
     length screen = (if int f + 2 \<le> height then nat height else f + 2) \<and>
     drop (length screen - f) screen = split_lines footer"
proof -
  let ?div = "dimStyle st (concat (replicate 40 box_line))" and ?f = "length (split_lines footer)"
  let ?ls = "split_lines (trim_newlines body)"
  define a where "a = nat (height - int ?f - 1)"
  define k where "k = min a (length ?ls)"
  define top where "top = join_lines (take a ?ls) @ replicate (a - k + 1) newline @ ?div"
  have screen: "layoutWithFooter st body footer height = top @ newline # footer"
    using assms(1) by (simp add: layoutWithFooter_def Let_def top_def a_def k_def)
  have "\<forall>l \<in> set (take a ?ls). newline \<notin> set l" using no_newline_lines by (blast dest: in_set_takeD)
  from newlines_in_join [OF this] have "count_list top newline = (k - 1) + (a - k + 1)"
    using assms(2) by (simp add: top_def k_def min.commute count_notin)
  moreover have "k = 0 \<longleftrightarrow> a = 0" "k \<le> a" by (auto simp: k_def min_def split: if_splits)
  ultimately have "length (split_lines top) = (if a = 0 then 2 else a + 1)" by (auto simp: length_split_lines)
  moreover have "(if int ?f + 2 \<le> height then nat height else ?f + 2) = (if a = 0 then 2 else a + 1) + ?f"
    by (auto simp: a_def nat_diff_distrib)
  ultimately show ?thesis by (simp add: screen split_lines_append Let_def)
qed

section \<open>Witnesses\<close>

definition plain_styles :: Styles where
  "plain_styles = \<lparr>titleStyle = id, labelStyle = id, selectedStyle = id, promptStyle = id, successStyle = id,
     errorStyle = id, helpStyle = id, dimStyle = id\<rparr>"

theorem formatBytes_bounds_witness:
  "formatBytes (2 ^ 60) = Panic"
  using formatBytes_bounds [of "2 ^ 60"] by simp

theorem layout_fits_witness:
  "length (split_lines (layoutWithFooter plain_styles ''a'' ''b'' 5)) = 5"
proof -
  have "newline \<notin> set (dimStyle plain_styles (concat (replicate 40 box_line)))"
    by (simp add: plain_styles_def box_line_def)
  from layout_fits [OF _ this, of 5 "''b''" "''a''"] show ?thesis by (simp add: Let_def)
qed

end
