(* ===== verification/Key_Files.thy ===== *)
theory Key_Files
  imports Prelude
begin

text \<open>
  \<open>client/identity/identity.go\<close>, \<open>transporter/tlsutil/selfsigned.go\<close> and \<open>transporter/config/config.go\<close>:
  the key files both programs keep, and the fingerprints people compare.  Hashing (\<open>Sum256\<close>), key
  generation and certificate parsing come from Go's crypto packages and are arguments; what they return is
  used as it is.  \<open>os.ReadFile\<close>, \<open>os.MkdirAll\<close> and \<open>os.WriteFile\<close> work on a map of files, with
  the faults of one run as input.
\<close>

section \<open>Base64\<close>

text \<open>\<open>base64.RawStdEncoding\<close>: three bytes become four letters, and nothing is padded.\<close>

definition b64_char :: "nat \<Rightarrow> char" where
  "b64_char n =
     (if n < 26 then char_of (65 + n) else if n < 52 then char_of (71 + n) else if n < 62 then char_of (n - 4)
      else if n = 62 then CHR ''+'' else CHR ''/'')"

fun base64 :: "nat list \<Rightarrow> string" where
  "base64 (a # b # c # xs) =
     b64_char (a div 4) # b64_char (a mod 4 * 16 + b div 16) # b64_char (b mod 16 * 4 + c div 64) # b64_char (c mod 64) #
     base64 xs"
| "base64 [a, b] = [b64_char (a div 4), b64_char (a mod 4 * 16 + b div 16), b64_char (b mod 16 * 4)]"
| "base64 [a] = [b64_char (a div 4), b64_char (a mod 4 * 16)]"
| "base64 [] = []"

definition EncodeToString :: "bytes \<Rightarrow> string" where
  "EncodeToString bs = base64 (map unat bs)"

definition Fingerprint :: "(bytes \<Rightarrow> bytes) \<Rightarrow> bytes \<Rightarrow> string" where
  "Fingerprint Sum256 publicKey = ''SHA256:'' @ EncodeToString (Sum256 publicKey)"

section \<open>Files\<close>

type_synonym files = "string \<Rightarrow> bytes option"

text \<open>
  The faults of one run: a file that exists but cannot be read, a directory that cannot be made, a write that
  fails after some bytes.
\<close>

record faults =
  read_fault :: "string \<Rightarrow> error option"
  mkdir_fault :: "string \<Rightarrow> error option"
  write_fault :: "string \<Rightarrow> (nat \<times> error) option"

definition no_faults :: faults where
  "no_faults = \<lparr>read_fault = (\<lambda>_. None), mkdir_fault = (\<lambda>_. None), write_fault = (\<lambda>_. None)\<rparr>"

datatype read_result = NotExist | ReadFails error | Contents bytes

definition ReadFile :: "faults \<Rightarrow> string \<Rightarrow> files \<Rightarrow> read_result" where
  "ReadFile flt path fs =
     (case read_fault flt path of Some e \<Rightarrow> ReadFails e
      | None \<Rightarrow> (case fs path of None \<Rightarrow> NotExist | Some d \<Rightarrow> Contents d))"

definition WriteFile :: "faults \<Rightarrow> string \<Rightarrow> bytes \<Rightarrow> files \<Rightarrow> files \<times> error option" where
  "WriteFile flt path d fs =
     (case write_fault flt path of None \<Rightarrow> (fs(path \<mapsto> d), None)
      | Some (k, e) \<Rightarrow> (fs(path \<mapsto> take k d), Some e))"

definition persist :: "faults \<Rightarrow> string \<Rightarrow> bytes \<Rightarrow> files \<Rightarrow> files \<times> error option" where
  "persist flt path d fs =
     (case mkdir_fault flt path of Some e \<Rightarrow> (fs, Some e) | None \<Rightarrow> WriteFile flt path d fs)"

section \<open>The identity of a client\<close>

record Identity =
  PublicKey :: bytes
  PrivateKey :: bytes

definition PrivateKeySize :: nat where "PrivateKeySize = 64"

text \<open>\<open>ed25519.PrivateKey.Public\<close>: the second half of the key.\<close>

definition ed25519_Public :: "bytes \<Rightarrow> bytes" where
  "ed25519_Public k = drop 32 k"

definition decode :: "bytes \<Rightarrow> error + Identity" where
  "decode d =
     (if length d \<noteq> PrivateKeySize then Inl (ErrIdentityFile (length d))
      else Inr \<lparr>PublicKey = ed25519_Public d, PrivateKey = d\<rparr>)"

definition generate :: "error + bytes \<times> bytes \<Rightarrow> error + Identity" where
  "generate key =
     (case key of Inl e \<Rightarrow> Inl e | Inr (publicKey, privateKey) \<Rightarrow> Inr \<lparr>PublicKey = publicKey, PrivateKey = privateKey\<rparr>)"

definition Load :: "faults \<Rightarrow> error + bytes \<times> bytes \<Rightarrow> string \<Rightarrow> files \<Rightarrow> files \<times> (error + Identity)" where
  "Load flt key path fs =
     (case ReadFile flt path fs of
        Contents d \<Rightarrow> (fs, decode d)
      | ReadFails e \<Rightarrow> (fs, Inl e)
      | NotExist \<Rightarrow>
        (case generate key of Inl e \<Rightarrow> (fs, Inl e)
         | Inr i \<Rightarrow> (case persist flt path (PrivateKey i) fs of (fs1, err) \<Rightarrow>
             (case err of Some e \<Rightarrow> (fs1, Inl e) | None \<Rightarrow> (fs1, Inr i)))))"

section \<open>The certificate of the transporter\<close>

definition DefaultTLSCertFile :: string where "DefaultTLSCertFile = ''transporter-cert.pem''"
definition DefaultTLSKeyFile :: string where "DefaultTLSKeyFile = ''transporter-key.pem''"

record TransporterConfiguration =
  Address :: string
  TLSCertFile :: string
  TLSKeyFile :: string

definition CertPath :: "TransporterConfiguration \<Rightarrow> string" where
  "CertPath c = (if TLSCertFile c \<noteq> [] then TLSCertFile c else DefaultTLSCertFile)"

definition KeyPath :: "TransporterConfiguration \<Rightarrow> string" where
  "KeyPath c = (if TLSKeyFile c \<noteq> [] then TLSKeyFile c else DefaultTLSKeyFile)"

text \<open>\<open>tls.LoadX509KeyPair\<close> reads both files and hands them to \<open>tls.X509KeyPair\<close>, the argument \<open>pair\<close>.\<close>

definition LoadX509KeyPair ::
  "(bytes \<Rightarrow> bytes \<Rightarrow> error + 'cert) \<Rightarrow> faults \<Rightarrow> string \<Rightarrow> string \<Rightarrow> files \<Rightarrow> read_result + (error + 'cert)" where
  "LoadX509KeyPair pair flt certPath keyPath fs =
     (case ReadFile flt certPath fs of
        Contents c \<Rightarrow> (case ReadFile flt keyPath fs of Contents k \<Rightarrow> Inr (pair c k) | r \<Rightarrow> Inl r)
      | r \<Rightarrow> Inl r)"

definition LoadOrCreateCertificate ::
  "(bytes \<Rightarrow> bytes \<Rightarrow> error + 'cert) \<Rightarrow> faults \<Rightarrow> error + bytes \<times> bytes \<Rightarrow> string \<Rightarrow> string \<Rightarrow> files \<Rightarrow>
   files \<times> (error + 'cert)" where
  "LoadOrCreateCertificate pair flt selfSigned certPath keyPath fs =
     (case LoadX509KeyPair pair flt certPath keyPath fs of
        Inr res \<Rightarrow> (fs, res)
      | Inl (ReadFails e) \<Rightarrow> (fs, Inl e)
      | Inl _ \<Rightarrow>
        (case selfSigned of Inl e \<Rightarrow> (fs, Inl e)
         | Inr (certPEM, keyPEM) \<Rightarrow>
           (case persist flt certPath certPEM fs of
              (fs1, Some e) \<Rightarrow> (fs1, Inl e)
            | (fs1, None) \<Rightarrow>
              (case persist flt keyPath keyPEM fs1 of
                 (fs2, Some e) \<Rightarrow> (fs2, Inl e)
               | (fs2, None) \<Rightarrow> (fs2, pair certPEM keyPEM)))))"

definition cert_Fingerprint :: "(bytes \<Rightarrow> bytes) \<Rightarrow> bytes list \<Rightarrow> error + string" where
  "cert_Fingerprint Sum256 chain =
     (case chain of [] \<Rightarrow> Inl ErrNoCertificate
      | leaf # rest \<Rightarrow> Inr (''SHA256:'' @ EncodeToString (Sum256 leaf)))"

section \<open>Reading base64 back\<close>

definition b64_value :: "char \<Rightarrow> nat" where
  "b64_value c = (let n = of_char c :: nat in
     if 97 \<le> n then n - 71 else if 65 \<le> n then n - 65 else if 48 \<le> n then n + 4 else if n = 43 then 62 else 63)"

fun base64_read :: "string \<Rightarrow> nat list" where
  "base64_read (p # q # r # s # xs) =
     (b64_value p * 4 + b64_value q div 16) # (b64_value q mod 16 * 16 + b64_value r div 4) #
     (b64_value r mod 4 * 64 + b64_value s) # base64_read xs"
| "base64_read [p, q, r] = [b64_value p * 4 + b64_value q div 16, b64_value q mod 16 * 16 + b64_value r div 4]"
| "base64_read [p, q] = [b64_value p * 4 + b64_value q div 16]"
| "base64_read cs = []"

lemma b64_value_char: "n < 64 \<Longrightarrow> b64_value (b64_char n) = n"
  by (auto simp: b64_value_def b64_char_def Let_def)

lemma digit_pair: "y < k \<Longrightarrow> (x * k + y) div k = x" "y < k \<Longrightarrow> (x * k + y) mod k = y" for x y k :: nat
  by simp_all

lemma b64_digits:
  fixes a b :: nat
  assumes "a < 256" "b < 256"
  shows "b64_value (b64_char (a div 4)) = a div 4" "b64_value (b64_char (b mod 64)) = b mod 64"
    "b64_value (b64_char (a mod 4 * 16 + b div 16)) = a mod 4 * 16 + b div 16"
    "b64_value (b64_char (a mod 16 * 4 + b div 64)) = a mod 16 * 4 + b div 64"
    "b64_value (b64_char (a mod 4 * 16)) = a mod 4 * 16" "b64_value (b64_char (a mod 16 * 4)) = a mod 16 * 4"
    "b div 16 < 16" "b div 64 < 4"
proof -
  have d: "a div 4 < 64" "b div 16 < 16" "b div 64 < 4" using assms by (simp_all add: div_less_iff_less_mult)
  moreover have m: "a mod 4 < 4" "a mod 16 < 16" by simp_all
  ultimately have "a mod 4 * 16 + b div 16 < 64" "a mod 16 * 4 + b div 64 < 64" "a mod 4 * 16 < 64" "a mod 16 * 4 < 64"
    by linarith+
  with d show "b64_value (b64_char (a div 4)) = a div 4" "b64_value (b64_char (b mod 64)) = b mod 64"
    "b64_value (b64_char (a mod 4 * 16 + b div 16)) = a mod 4 * 16 + b div 16"
    "b64_value (b64_char (a mod 16 * 4 + b div 64)) = a mod 16 * 4 + b div 64"
    "b64_value (b64_char (a mod 4 * 16)) = a mod 4 * 16" "b64_value (b64_char (a mod 16 * 4)) = a mod 16 * 4"
    "b div 16 < 16" "b div 64 < 4"
    by (simp_all only: b64_value_char mod_less_divisor zero_less_numeral)
qed

lemma base64_read_back: "\<forall>x \<in> set xs. x < 256 \<Longrightarrow> base64_read (base64 xs) = xs"
proof (induction xs rule: base64.induct)
  case (1 a b c xs)
  then have "a < 256" "b < 256" "c < 256" by simp_all
  note d = b64_digits [OF this(1,2)] b64_digits [OF this(2,3)]
  from 1 show ?case by (simp add: d digit_pair del: div_mult_self1 div_mult_self2 mod_mult_self1 mod_mult_self2)
next
  case (2 a b)
  then have "a < 256" "b < 256" by simp_all
  note d = b64_digits [OF this] b64_digits [OF this(2,2)]
  show ?case by (simp add: d digit_pair)
next
  case (3 a)
  then have "a < 256" by simp
  note d = b64_digits [OF this this]
  show ?case by (simp add: d digit_pair)
qed simp

lemma EncodeToString_inject: "EncodeToString xs = EncodeToString ys \<longleftrightarrow> xs = ys"
proof
  have "unat w < 256" for w :: byte using unsigned_less [of w] by simp
  then have bytes: "\<forall>x \<in> set (map unat zs). x < 256" for zs :: bytes by simp
  assume "EncodeToString xs = EncodeToString ys"
  then have "base64_read (base64 (map unat xs)) = base64_read (base64 (map unat ys))"
    by (simp only: EncodeToString_def)
  then have "map unat xs = map unat ys" by (simp only: base64_read_back [OF bytes])
  then show "xs = ys" by (rule map_injective) (simp add: inj_def word_unat_eq_iff)
qed simp

section \<open>Properties\<close>

text \<open>
  Comparing fingerprints is comparing digests: two keys are displayed alike exactly when their hashes
  are equal, so a guest can only pass for another one through a collision of the hash.
\<close>

theorem Fingerprint_iff_digest:
  "Fingerprint Sum256 key = Fingerprint Sum256 key' \<longleftrightarrow> Sum256 key = Sum256 key'"
  by (simp add: Fingerprint_def EncodeToString_inject)

text \<open>
  C40.  The identity is stable: when there was no file, a first successful run stores the new key, and every
  later run that can read the file returns the same identity and changes nothing, whatever key it could have generated.
  If instead the first write broke off, the truncated file stays, and every later run fails on it
  rather than generating another key.
\<close>

theorem Load_keeps_identity:
  assumes "fs path = None" "length privateKey = 64" "publicKey = ed25519_Public privateKey"
    and "Load flt (Inr (publicKey, privateKey)) path fs = (fs', res)"
    and "read_fault flt path = None" "read_fault flt' path = None" "\<forall>k e. write_fault flt path = Some (k, e) \<longrightarrow> k < 64"
  shows "(case res of
      Inr i \<Rightarrow> i = \<lparr>PublicKey = publicKey, PrivateKey = privateKey\<rparr> \<and> Load flt' key path fs' = (fs', Inr i)
    | Inl e \<Rightarrow> (if mkdir_fault flt path = Some e then fs' = fs
        else \<exists>k < 64. Load flt' key path fs' = (fs', Inl (ErrIdentityFile k))))"
proof (cases "mkdir_fault flt path")
  case None
  show ?thesis
  proof (cases "write_fault flt path")
    case None
    with assms \<open>mkdir_fault flt path = None\<close> show ?thesis
      by (auto simp: Load_def ReadFile_def generate_def persist_def WriteFile_def decode_def PrivateKeySize_def)
  next
    case (Some x)
    then obtain k e where x: "write_fault flt path = Some (k, e)" "k < 64" using assms(7) by (cases x) auto
    with assms \<open>mkdir_fault flt path = None\<close> show ?thesis
      by (auto simp: Load_def ReadFile_def generate_def persist_def WriteFile_def decode_def PrivateKeySize_def)
  qed
next
  case (Some e)
  with assms show ?thesis by (auto simp: Load_def ReadFile_def generate_def persist_def)
qed

text \<open>
  The transporter keeps its certificate: once a run has created it without faults, every run that can read
  both files gets the same one.  This needs the two paths to differ: configured to be one file, the key
  overwrites the certificate, and the next run hands the key to the parser twice.
\<close>

theorem certificate_is_kept:
  assumes "fs (CertPath c) = None \<or> fs (KeyPath c) = None"
    and "LoadOrCreateCertificate pair no_faults (Inr (certPEM, keyPEM)) (CertPath c) (KeyPath c) fs = (fs', res)"
    and "read_fault flt (CertPath c) = None" "read_fault flt (KeyPath c) = None"
  shows "res = pair certPEM keyPEM \<and>
    LoadOrCreateCertificate pair flt selfSigned (CertPath c) (KeyPath c) fs' =
      (fs', if CertPath c = KeyPath c then pair keyPEM keyPEM else res)"
  using assms
  by (auto simp: LoadOrCreateCertificate_def LoadX509KeyPair_def ReadFile_def no_faults_def persist_def WriteFile_def
      split: option.splits)

section \<open>Witnesses\<close>

theorem Load_keeps_identity_witness:
  "Load no_faults (Inl ErrNoCertificate) ''id'' (Map.empty(''id'' \<mapsto> replicate 64 7)) =
     (Map.empty(''id'' \<mapsto> replicate 64 7), Inr \<lparr>PublicKey = replicate 32 7, PrivateKey = replicate 64 7\<rparr>)"
proof -
  have "ed25519_Public (replicate 64 7) = replicate 32 7" by (simp add: ed25519_Public_def)
  moreover have "Load no_faults (Inr (replicate 32 7, replicate 64 7)) ''id'' Map.empty =
      (Map.empty(''id'' \<mapsto> replicate 64 7), Inr \<lparr>PublicKey = replicate 32 7, PrivateKey = replicate 64 7\<rparr>)"
    by (simp add: Load_def ReadFile_def no_faults_def generate_def persist_def WriteFile_def)
  ultimately show ?thesis
    using Load_keeps_identity [of Map.empty "''id''" "replicate 64 7" "replicate 32 7" no_faults _ _ no_faults "Inl ErrNoCertificate"]
    by (simp add: no_faults_def)
qed

definition sample_config :: TransporterConfiguration where
  "sample_config = \<lparr>Address = ''localhost:1234'', TLSCertFile = [], TLSKeyFile = ''k''\<rparr>"

theorem certificate_is_kept_witness:
  "LoadOrCreateCertificate (\<lambda>c k. Inr (c, k)) no_faults (Inl ErrNoCertificate) ''transporter-cert.pem'' ''k''
     (Map.empty(''transporter-cert.pem'' \<mapsto> [1], ''k'' \<mapsto> [2])) =
     (Map.empty(''transporter-cert.pem'' \<mapsto> [1], ''k'' \<mapsto> [2]), Inr ([1], [2]))"
proof -
  have p: "CertPath sample_config = ''transporter-cert.pem''" "KeyPath sample_config = ''k''"
    by (simp_all add: sample_config_def CertPath_def KeyPath_def DefaultTLSCertFile_def)
  have "LoadOrCreateCertificate (\<lambda>c k. Inr (c, k)) no_faults (Inr ([1], [2])) (CertPath sample_config) (KeyPath sample_config) Map.empty =
      (Map.empty(''transporter-cert.pem'' \<mapsto> [1], ''k'' \<mapsto> [2]), Inr ([1], [2]))"
    by (simp add: p LoadOrCreateCertificate_def LoadX509KeyPair_def ReadFile_def no_faults_def persist_def WriteFile_def)
  from certificate_is_kept [OF _ this, of no_faults "Inl ErrNoCertificate"] show ?thesis
    by (simp add: p no_faults_def)
qed

end
