(* ===== verification/Share_Screen.thy ===== *)
theory Share_Screen
  imports Controllers Smart_Socket Transfer_Stats Key_Files
begin

text \<open>
  \<open>client/tui/share.go\<close>: the screen of the owner.  The terminal library calls \<open>Update\<close> for one message at a
  time, and \<open>View\<close> after it.  The channels a join request is answered over have room for one value; they
  live in a list of buffers and are known by their index.  Sending to a full channel is \<open>Blocked\<close>.
\<close>

section \<open>Data\<close>

text \<open>What the screen takes from outside: the hash of fingerprints, the texts of errors, the styles.\<close>

record ui_env =
  Sum256 :: "bytes \<Rightarrow> bytes"
  error_text :: "error \<Rightarrow> string"
  styles :: Styles

datatype shareStage =
    shareStageLoadingDevices | shareStageSelectDevice | shareStageConnecting | shareStageRoomActive
  | shareStageSessionTimeout | shareStageError

definition activityLogLimit :: nat where "activityLogLimit = 10"

record shareModel =
  autoAccept :: bool
  share_fingerprint :: string
  selectedDevice :: "string list"
  share_stage :: shareStage
  devices :: "Device list"
  cursor :: int
  share_err :: "error option"
  share_clientId :: string
  share_roomId :: string
  pendingGuestId :: string
  pendingFingerprint :: string
  pendingRespond :: "nat option"
  connectedGuestId :: string
  connectedGuestFingerprint :: string
  activity :: "string list"
  share_stats :: transferStats
  share_width :: int
  share_height :: int

datatype tea_cmd = NoCmd | Quit | Tick | FetchDevices | Batch "tea_cmd list"

datatype share_msg =
    WindowSizeMsg int int
  | TransferTickMsg int u64 u64
  | KeyMsg string
  | DevicesLoadedMsg "Device list" "error option"
  | ClientIdMsg string
  | OwnerEventMsg OwnerEvent
  | JoinRequestMsg string string nat
  | ShareErrorMsg error
  | SessionTimeoutMsg

type_synonym responds = "bool list list"
type_synonym ui = "responds \<times> shareModel"

section \<open>Construction\<close>

definition newShareModel :: "string \<Rightarrow> bool \<Rightarrow> string \<Rightarrow> shareModel" where
  "newShareModel presetDevice accept_all fp =
     (let m = \<lparr>autoAccept = accept_all, share_fingerprint = fp, selectedDevice = [],
        share_stage = shareStageLoadingDevices, devices = [], cursor = 0, share_err = None, share_clientId = [],
        share_roomId = [], pendingGuestId = [], pendingFingerprint = [], pendingRespond = None,
        connectedGuestId = [], connectedGuestFingerprint = [], activity = [], share_stats = no_stats,
        share_width = 0, share_height = 0\<rparr> in
      if presetDevice \<noteq> [] then m\<lparr>share_stage := shareStageConnecting, selectedDevice := [presetDevice]\<rparr> else m)"

definition share_Init :: "shareModel \<Rightarrow> tea_cmd" where
  "share_Init m = (if share_stage m = shareStageConnecting then Tick else Batch [FetchDevices, Tick])"

section \<open>Channels\<close>

definition chan_send :: "nat \<Rightarrow> bool \<Rightarrow> responds \<Rightarrow> responds outcome" where
  "chan_send n v chans = (if length (chans ! n) < 1 then Ret (chans[n := chans ! n @ [v]]) else Blocked)"

definition select_device :: "string \<Rightarrow> shareModel \<Rightarrow> shareModel outcome" where
  "select_device d m = (if length (selectedDevice m) < 1 then Ret (m\<lparr>selectedDevice := selectedDevice m @ [d]\<rparr>) else Blocked)"

section \<open>Updates\<close>

definition appendActivity :: "string \<Rightarrow> shareModel \<Rightarrow> shareModel" where
  "appendActivity line m =
     (let a = activity m @ [line] in
      m\<lparr>activity := if length a > activityLogLimit then drop (length a - activityLogLimit) a else a\<rparr>)"

definition forget_pending :: "shareModel \<Rightarrow> shareModel" where
  "forget_pending m = m\<lparr>pendingRespond := None, pendingGuestId := [], pendingFingerprint := []\<rparr>"

definition handleOwnerEvent :: "ui_env \<Rightarrow> OwnerEvent \<Rightarrow> ui \<Rightarrow> ui outcome" where
  "handleOwnerEvent env e u =
     (case u of (chans, m) \<Rightarrow>
      (case OKind e of
         OwnerRoomCreated \<Rightarrow> Ret (chans, m\<lparr>share_roomId := ORoomId e, share_stage := shareStageRoomActive\<rparr>)
       | OwnerJoinRequested \<Rightarrow> Ret (chans, appendActivity (''Join request from clientId: '' @ OGuestClientId e @
             '' (fingerprint '' @ Fingerprint (Sum256 env) (OGuestPublicKey e) @ '')'') m)
       | OwnerJoinDecided \<Rightarrow>
           if OAccepted e
           then Ret (chans, appendActivity (''clientId '' @ OGuestClientId e @ '': accepted'')
             (m\<lparr>connectedGuestId := OGuestClientId e,
                connectedGuestFingerprint := Fingerprint (Sum256 env) (OGuestPublicKey e)\<rparr>))
           else Ret (chans, appendActivity (''clientId '' @ OGuestClientId e @ '': declined'') m)
       | OwnerJoinFailed \<Rightarrow> Ret (chans, appendActivity (''clientId '' @ OGuestClientId e @
             '': error handling join request: '' @ (case OErr e of None \<Rightarrow> ''%!s(<nil>)'' | Some x \<Rightarrow> error_text env x)) m)
       | OwnerGuestLeft \<Rightarrow>
           let leftId = (if connectedGuestId m = [] then pendingGuestId m else connectedGuestId m);
               m1 = (appendActivity (''clientId '' @ leftId @ '': disconnected'') m)
                 \<lparr>connectedGuestId := [], connectedGuestFingerprint := []\<rparr> in
           andThen (case pendingRespond m1 of None \<Rightarrow> Ret chans | Some n \<Rightarrow> chan_send n False chans)
             (\<lambda>chans1. Ret (chans1, forget_pending m1))))"

definition answer_key :: "string \<Rightarrow> nat \<Rightarrow> ui \<Rightarrow> ui outcome" where
  "answer_key key n u =
     (case u of (chans, m) \<Rightarrow>
      if key = ''y'' then andThen (chan_send n True chans) (\<lambda>chans1. Ret (chans1, forget_pending m))
      else if key = ''n'' then andThen (chan_send n False chans) (\<lambda>chans1. Ret (chans1, forget_pending m))
      else Ret u)"

definition move_cursor :: "int \<Rightarrow> shareModel \<Rightarrow> shareModel" where
  "move_cursor by_one m =
     (if by_one < 0 then (if cursor m > 0 then m\<lparr>cursor := cursor m - 1\<rparr> else m)
      else if cursor m < int (length (devices m)) - 1 then m\<lparr>cursor := cursor m + 1\<rparr> else m)"

definition enter_key :: "shareModel \<Rightarrow> shareModel outcome" where
  "enter_key m =
     (if length (devices m) > 0 then
        (if 0 \<le> cursor m \<and> cursor m < int (length (devices m))
         then select_device (Device_Id (devices m ! nat (cursor m))) (m\<lparr>share_stage := shareStageConnecting\<rparr>)
         else Panic)
      else Ret m)"

definition picker_key :: "string \<Rightarrow> shareModel \<Rightarrow> (shareModel \<times> tea_cmd) outcome" where
  "picker_key key m =
     (if key \<in> {''up'', ''k''} then Ret (move_cursor (- 1) m, NoCmd)
      else if key \<in> {''down'', ''j''} then Ret (move_cursor 1 m, NoCmd)
      else if key = ''r'' then Ret (m\<lparr>share_stage := shareStageLoadingDevices\<rparr>, FetchDevices)
      else if key = ''enter'' then andThen (enter_key m) (\<lambda>m1. Ret (m1, NoCmd))
      else if key = ''q'' then Ret (m, Quit)
      else Ret (m, NoCmd))"

definition handleKey :: "string \<Rightarrow> ui \<Rightarrow> (ui \<times> tea_cmd) outcome" where
  "handleKey key u =
     (case u of (chans, m) \<Rightarrow>
      if key = ''ctrl+c'' then Ret (u, Quit)
      else (case pendingRespond m of
        Some n \<Rightarrow> andThen (answer_key key n u) (\<lambda>u1. Ret (u1, NoCmd))
      | None \<Rightarrow>
        (case share_stage m of
           shareStageSelectDevice \<Rightarrow> andThen (picker_key key m) (\<lambda>(m1, cmd). Ret ((chans, m1), cmd))
         | shareStageSessionTimeout \<Rightarrow> Ret (u, NoCmd)
         | _ \<Rightarrow> if key = ''q'' then Ret (u, Quit) else Ret (u, NoCmd))))"

definition share_Update :: "ui_env \<Rightarrow> share_msg \<Rightarrow> ui \<Rightarrow> (ui \<times> tea_cmd) outcome" where
  "share_Update env msg u =
     (case u of (chans, m) \<Rightarrow>
      (case msg of
         WindowSizeMsg w h \<Rightarrow> Ret ((chans, m\<lparr>share_width := w, share_height := h\<rparr>), NoCmd)
       | TransferTickMsg now bs br \<Rightarrow> Ret ((chans, m\<lparr>share_stats := sample bs br now (share_stats m)\<rparr>), Tick)
       | KeyMsg key \<Rightarrow> handleKey key u
       | DevicesLoadedMsg ds err \<Rightarrow>
           Ret ((chans, m\<lparr>share_stage := shareStageSelectDevice, devices := ds, share_err := err,
             cursor := if cursor m \<ge> int (length ds) then 0 else cursor m\<rparr>), NoCmd)
       | ClientIdMsg i \<Rightarrow> Ret ((chans, m\<lparr>share_clientId := i\<rparr>), NoCmd)
       | OwnerEventMsg e \<Rightarrow> andThen (handleOwnerEvent env e u) (\<lambda>u1. Ret (u1, NoCmd))
       | JoinRequestMsg i fp n \<Rightarrow>
           Ret ((chans, m\<lparr>pendingGuestId := i, pendingFingerprint := fp, pendingRespond := Some n\<rparr>), NoCmd)
       | ShareErrorMsg e \<Rightarrow> Ret ((chans, m\<lparr>share_err := Some e, share_stage := shareStageError\<rparr>), NoCmd)
       | SessionTimeoutMsg \<Rightarrow> Ret ((chans, m\<lparr>share_stage := shareStageSessionTimeout\<rparr>), Quit)))"

section \<open>The view\<close>

text \<open>\<open>%-24s\<close> pads to 24 characters; bytes that continue a character do not count.\<close>

definition rune_count :: "string \<Rightarrow> nat" where
  "rune_count s = length (filter (\<lambda>c. (of_char c :: nat) div 64 \<noteq> 2) s)"

definition pad_24 :: "string \<Rightarrow> string" where
  "pad_24 s = s @ replicate (24 - rune_count s) CHR '' ''"

definition nl :: string where "nl = [newline]"

definition device_lines :: "ui_env \<Rightarrow> shareModel \<Rightarrow> string" where
  "device_lines env m =
     concat (map (\<lambda>(i, d). let line = pad_24 (Device_Id d) @ '' '' @ Device_Type d in
       if int i = cursor m then selectedStyle (styles env) (''> '' @ line) @ nl else ''  '' @ line @ nl)
       (enumerate 0 (devices m)))"

definition show_err :: "ui_env \<Rightarrow> error option \<Rightarrow> string" where
  "show_err env e = (case e of None \<Rightarrow> ''%!s(<nil>)'' | Some x \<Rightarrow> error_text env x)"

definition arrows_help :: string where
  "arrows_help = [CHR 0xE2, CHR 0x86, CHR 0x91] @ ''/'' @ [CHR 0xE2, CHR 0x86, CHR 0x93] @ '' move '' @
     [CHR 0xC2, CHR 0xB7] @ '' enter select '' @ [CHR 0xC2, CHR 0xB7] @ '' r refresh '' @ [CHR 0xC2, CHR 0xB7] @ '' q quit''"

definition prompt_text :: "ui_env \<Rightarrow> shareModel \<Rightarrow> string" where
  "prompt_text env m =
     promptStyle (styles env) (''Join request from clientId: '' @ pendingGuestId m @ '' '' @ em_dash @ '' accept? [y/n]'') @ nl @
     labelStyle (styles env) ''  Guest fingerprint: '' @ pendingFingerprint m @ nl @
     dimStyle (styles env) (''  Verify this matches the guest'' @ [CHR 0x27] @ ''s own displayed fingerprint out of band before accepting.'') @ nl @ nl"

definition room_view :: "ui_env \<Rightarrow> shareModel \<Rightarrow> string" where
  "room_view env m =
     (let st = styles env in
      (if share_clientId m \<noteq> [] then labelStyle st ''Your client id: '' @ share_clientId m @ nl else []) @
      labelStyle st ''Your fingerprint: '' @ share_fingerprint m @ nl @
      labelStyle st ''Room id:        '' @ successStyle st (share_roomId m) @ nl @ nl @
      (if pendingRespond m \<noteq> None then prompt_text env m
       else if connectedGuestId m \<noteq> [] then
         labelStyle st ''Connected guest: '' @ successStyle st (connectedGuestId m) @ nl @
         labelStyle st ''  Guest fingerprint: '' @ connectedGuestFingerprint m @ nl @ nl
       else dimStyle st ''Waiting for guests to join...'' @ nl @ nl) @
      (if activity m \<noteq> [] then labelStyle st ''Activity:'' @ nl @
         concat (map (\<lambda>line. ''  '' @ line @ nl) (activity m)) @ nl
       else []) @
      helpStyle st ''q quit'')"

definition share_body :: "ui_env \<Rightarrow> shareModel \<Rightarrow> string" where
  "share_body env m =
     titleStyle (styles env) (''adb-remote '' @ em_dash @ '' share'') @ nl @
     (case share_stage m of
        shareStageLoadingDevices \<Rightarrow> ''Loading devices...'' @ nl
      | shareStageSelectDevice \<Rightarrow>
          (if share_err m \<noteq> None then errorStyle (styles env) (''Error loading devices: '' @ show_err env (share_err m)) @ nl @ nl
           else []) @
          (if devices m = [] then ''No devices found.'' @ nl @ nl else []) @
          device_lines env m @ nl @ helpStyle (styles env) arrows_help
      | shareStageConnecting \<Rightarrow> ''Connecting to the transporter...'' @ nl
      | shareStageRoomActive \<Rightarrow> room_view env m
      | shareStageSessionTimeout \<Rightarrow>
          errorStyle (styles env) (''Session timeout reached '' @ em_dash @ '' closing the room.'') @ nl @ nl
      | shareStageError \<Rightarrow> errorStyle (styles env) (''Error: '' @ show_err env (share_err m)) @ nl @ nl @
          helpStyle (styles env) ''q quit'')"

definition share_View :: "ui_env \<Rightarrow> shareModel \<Rightarrow> string outcome" where
  "share_View env m =
     andThen (render (styles env) (share_stats m)) (\<lambda>footer.
       Ret (layoutWithFooter (styles env) (share_body env m) footer (share_height m)))"

end
