(* ===== verification/Share_Flow.thy ===== *)
theory Share_Flow
  imports Share_Screen
begin

text \<open>
  \<open>runOwnerFlow\<close> of \<open>client/tui/share.go\<close> beside the screen: who sends the screen its messages, and what
  becomes of the answers.  One step is one message handled by \<open>Update\<close>, the device taken by the flow, a
  join request's goroutine asking, or getting, its answer (\<open>promptAccept\<close>).
\<close>

section \<open>The flow and the screen\<close>

datatype flow_phase = WaitingForDevice | Sharing string | FlowOver

text \<open>
  \<open>boxes\<close> are the buffers of the response channels, \<open>requests\<close> who asked over each; \<open>unasked\<close> are requests
  whose goroutine has not sent its question yet, \<open>decided\<close> what \<open>promptAccept\<close> has returned.
\<close>

record share_state =
  screen :: shareModel
  boxes :: responds
  requests :: "(string \<times> bytes) list"
  fetching :: nat
  flow :: flow_phase
  unasked :: "(string \<times> bytes) list"
  decided :: "((string \<times> bytes) \<times> bool) list"

datatype share_act =
    Delivered share_msg | DeviceTaken string | Asked "string \<times> bytes" | AcceptedUnasked "string \<times> bytes" | Answered nat bool

fun fetches :: "tea_cmd \<Rightarrow> nat" where
  "fetches FetchDevices = 1"
| "fetches (Batch cs) = sum_list (map fetches cs)"
| "fetches _ = 0"

definition share_start :: "string \<Rightarrow> bool \<Rightarrow> string \<Rightarrow> share_state" where
  "share_start presetDevice accept_all fp =
     (let m = newShareModel presetDevice accept_all fp in
      \<lparr>screen = m, boxes = [], requests = [], fetching = fetches (share_Init m), flow = WaitingForDevice, unasked = [],
        decided = []\<rparr>)"

text \<open>When a message can arrive, and what its sender has done by then.\<close>

fun deliverable :: "share_state \<Rightarrow> share_msg \<Rightarrow> bool" where
  "deliverable s (DevicesLoadedMsg ds e) = (fetching s > 0)"
| "deliverable s (ClientIdMsg i) = (\<exists>d. flow s = Sharing d)"
| "deliverable s (OwnerEventMsg e) = (\<exists>d. flow s = Sharing d)"
| "deliverable s (ShareErrorMsg e) = (\<exists>d. flow s = Sharing d)"
| "deliverable s SessionTimeoutMsg = (\<exists>d. flow s = Sharing d)"
| "deliverable s (JoinRequestMsg i fp n) = False"
| "deliverable s _ = True"

fun arrived :: "share_msg \<Rightarrow> share_state \<Rightarrow> share_state" where
  "arrived (DevicesLoadedMsg ds e) s = s\<lparr>fetching := fetching s - 1\<rparr>"
| "arrived (OwnerEventMsg e) s =
     (if OKind e = OwnerJoinRequested then s\<lparr>unasked := unasked s @ [(OGuestClientId e, OGuestPublicKey e)]\<rparr> else s)"
| "arrived (ShareErrorMsg e) s = s\<lparr>flow := FlowOver\<rparr>"
| "arrived _ s = s"

definition updated :: "ui \<Rightarrow> tea_cmd \<Rightarrow> share_state \<Rightarrow> share_state" where
  "updated u cmd s = s\<lparr>boxes := fst u, screen := snd u, fetching := fetching s + fetches cmd\<rparr>"

definition join_request :: "ui_env \<Rightarrow> string \<times> bytes \<Rightarrow> nat \<Rightarrow> share_msg" where
  "join_request env r n = JoinRequestMsg (fst r) (Fingerprint (Sum256 env) (snd r)) n"

inductive share_step :: "ui_env \<Rightarrow> share_state \<Rightarrow> share_act \<Rightarrow> share_state \<Rightarrow> bool" for env :: ui_env where
  delivers: "deliverable s msg \<Longrightarrow> share_Update env msg (boxes s, screen s) = Ret (u, cmd) \<Longrightarrow>
     share_step env s (Delivered msg) (updated u cmd (arrived msg s))"
| takes_device: "flow s = WaitingForDevice \<Longrightarrow> selectedDevice (screen s) = d # ds \<Longrightarrow>
     share_step env s (DeviceTaken d) (s\<lparr>flow := Sharing d, screen := (screen s)\<lparr>selectedDevice := ds\<rparr>\<rparr>)"
| accepts_all: "autoAccept (screen s) \<Longrightarrow> unasked s = p @ r # q \<Longrightarrow>
     share_step env s (AcceptedUnasked r) (s\<lparr>unasked := p @ q, decided := decided s @ [(r, True)]\<rparr>)"
| asks: "\<not> autoAccept (screen s) \<Longrightarrow> unasked s = p @ r # q \<Longrightarrow> n = length (boxes s) \<Longrightarrow>
     share_Update env (join_request env r n) (boxes s @ [[]], screen s) = Ret (u, cmd) \<Longrightarrow>
     share_step env s (Asked r) (updated u cmd (s\<lparr>unasked := p @ q, requests := requests s @ [r]\<rparr>))"
| gets_answer: "n < length (boxes s) \<Longrightarrow> boxes s ! n = b # bs \<Longrightarrow>
     share_step env s (Answered n b)
       (s\<lparr>boxes := (boxes s)[n := bs], decided := decided s @ [(requests s ! n, b)]\<rparr>)"

inductive_cases share_stepE: "share_step env s a s'"

text \<open>A run records each action with the state it was taken in.\<close>

inductive share_run :: "ui_env \<Rightarrow> share_state \<Rightarrow> (share_state \<times> share_act) list \<Rightarrow> share_state \<Rightarrow> bool"
  for env :: ui_env and s0 :: share_state where
  share_nil: "share_run env s0 [] s0"
| share_snoc: "share_run env s0 tr s \<Longrightarrow> share_step env s a s' \<Longrightarrow> share_run env s0 (tr @ [(s, a)]) s'"

section \<open>The invariant\<close>

definition pending_ok :: "ui_env \<Rightarrow> share_state \<Rightarrow> bool" where
  "pending_ok env s \<longleftrightarrow> (\<forall>n. pendingRespond (screen s) = Some n \<longrightarrow>
     n < length (boxes s) \<and> boxes s ! n = [] \<and> pendingGuestId (screen s) = fst (requests s ! n) \<and>
     pendingFingerprint (screen s) = Fingerprint (Sum256 env) (snd (requests s ! n)))"

definition boxes_ok :: "share_state \<Rightarrow> bool" where
  "boxes_ok s \<longleftrightarrow> length (requests s) = length (boxes s) \<and> (\<forall>b \<in> set (boxes s). length b \<le> 1)"

definition picker_ok :: "share_state \<Rightarrow> bool" where
  "picker_ok s \<longleftrightarrow>
     0 \<le> cursor (screen s) \<and> (cursor (screen s) = 0 \<or> cursor (screen s) < int (length (devices (screen s)))) \<and>
     length (selectedDevice (screen s)) \<le> 1 \<and> (flow s \<noteq> WaitingForDevice \<longrightarrow> selectedDevice (screen s) = []) \<and>
     (share_stage (screen s) \<in> {shareStageLoadingDevices, shareStageSelectDevice} \<longrightarrow>
       flow s = WaitingForDevice \<and> selectedDevice (screen s) = []) \<and>
     (fetching s > 0 \<longrightarrow> share_stage (screen s) = shareStageLoadingDevices \<and> fetching s = 1)"

definition share_ok :: "ui_env \<Rightarrow> share_state \<Rightarrow> bool" where
  "share_ok env s \<longleftrightarrow> pending_ok env s \<and> boxes_ok s \<and> picker_ok s \<and> length (activity (screen s)) \<le> activityLogLimit"

lemma length_appendActivity: "length (activity (appendActivity line m)) \<le> activityLogLimit"
  by (simp add: appendActivity_def activityLogLimit_def Let_def)

lemma appendActivity_simps [simp]:
  "autoAccept (appendActivity line m) = autoAccept m" "selectedDevice (appendActivity line m) = selectedDevice m"
  "share_stage (appendActivity line m) = share_stage m" "devices (appendActivity line m) = devices m"
  "cursor (appendActivity line m) = cursor m" "pendingRespond (appendActivity line m) = pendingRespond m"
  "pendingGuestId (appendActivity line m) = pendingGuestId m"
  "pendingFingerprint (appendActivity line m) = pendingFingerprint m"
  by (simp_all add: appendActivity_def Let_def)

lemma forget_pending_simps [simp]:
  "autoAccept (forget_pending m) = autoAccept m" "selectedDevice (forget_pending m) = selectedDevice m"
  "share_stage (forget_pending m) = share_stage m" "devices (forget_pending m) = devices m"
  "cursor (forget_pending m) = cursor m" "pendingRespond (forget_pending m) = None" "activity (forget_pending m) = activity m"
  by (simp_all add: forget_pending_def)

lemma share_ok_start: "share_ok env (share_start presetDevice accept_all fp)"
  by (simp add: share_ok_def pending_ok_def boxes_ok_def picker_ok_def share_start_def newShareModel_def share_Init_def Let_def)

section \<open>One message\<close>

text \<open>What a message may change: at most one box, the pending one, and then nothing is pending any more.\<close>

definition answers_pending :: "bool \<Rightarrow> ui \<Rightarrow> ui \<Rightarrow> bool" where
  "answers_pending b u u' \<longleftrightarrow> (\<exists>n. pendingRespond (snd u) = Some n \<and> fst u' = (fst u)[n := fst u ! n @ [b]] \<and>
     length (fst u ! n) < 1) \<and> pendingRespond (snd u') = None"

definition keeps_pending :: "ui \<Rightarrow> ui \<Rightarrow> bool" where
  "keeps_pending u u' \<longleftrightarrow> fst u' = fst u \<and> pendingRespond (snd u') = pendingRespond (snd u) \<and>
     (pendingRespond (snd u) \<noteq> None \<longrightarrow> pendingGuestId (snd u') = pendingGuestId (snd u) \<and>
      pendingFingerprint (snd u') = pendingFingerprint (snd u))"

lemma picker_key_cases:
  assumes "picker_key key m = Ret (m', cmd)"
  obtains (moves) d where "m' = move_cursor d m" "cmd = NoCmd"
    | (reloads) "m' = m\<lparr>share_stage := shareStageLoadingDevices\<rparr>" "cmd = FetchDevices"
    | (chooses) "enter_key m = Ret m'" "cmd = NoCmd"
    | (same) "m' = m" "fetches cmd = 0"
proof -
  consider "key \<in> {''up'', ''k''}" | "key \<notin> {''up'', ''k''}" "key \<in> {''down'', ''j''}"
    | "key \<notin> {''up'', ''k''}" "key \<notin> {''down'', ''j''}" by blast
  then show thesis
  proof cases
    case 1
    then have "picker_key key m = Ret (move_cursor (- 1) m, NoCmd)" by (simp only: picker_key_def if_True)
    with assms show ?thesis by (intro moves [of "- 1"]) simp_all
  next
    case 2
    then have "picker_key key m = Ret (move_cursor 1 m, NoCmd)" by (simp only: picker_key_def if_True if_False)
    with assms show ?thesis by (intro moves [of 1]) simp_all
  next
    case 3
    then have eq: "picker_key key m =
       (if key = ''r'' then Ret (m\<lparr>share_stage := shareStageLoadingDevices\<rparr>, FetchDevices)
        else if key = ''enter'' then andThen (enter_key m) (\<lambda>m1. Ret (m1, NoCmd))
        else if key = ''q'' then Ret (m, Quit)
        else Ret (m, NoCmd))" by (simp only: picker_key_def if_True if_False)
    show ?thesis
      using assms unfolding eq
      by (auto split: if_splits simp: andThen_eq_Ret intro: reloads chooses same)
  qed
qed

lemma enter_key_Ret:
  assumes "enter_key m = Ret m'"
  obtains "m' = m" "devices m = []"
  | d where "m' = m\<lparr>share_stage := shareStageConnecting, selectedDevice := selectedDevice m @ [d]\<rparr>"
      "selectedDevice m = []"
  using assms by (auto simp: enter_key_def select_device_def split: if_splits)

lemma move_cursor_simps [simp]:
  "autoAccept (move_cursor d m) = autoAccept m" "selectedDevice (move_cursor d m) = selectedDevice m"
  "share_stage (move_cursor d m) = share_stage m" "devices (move_cursor d m) = devices m"
  "pendingRespond (move_cursor d m) = pendingRespond m" "activity (move_cursor d m) = activity m"
  by (simp_all add: move_cursor_def)

lemma handleKey_cases:
  assumes "handleKey key (chans, m) = Ret (u', cmd)"
  obtains (same) "u' = (chans, m)" "fetches cmd = 0"
    | (answers) n where "pendingRespond m = Some n" "answer_key key n (chans, m) = Ret u'" "cmd = NoCmd"
    | (picks) m' where "pendingRespond m = None" "share_stage m = shareStageSelectDevice" "u' = (chans, m')"
        "picker_key key m = Ret (m', cmd)"
proof (cases "key = ''ctrl+c''")
  case True
  with assms show ?thesis by (intro same) (simp_all add: handleKey_def)
next
  case False
  show ?thesis
  proof (cases "pendingRespond m")
    case (Some n)
    with False assms show ?thesis by (intro answers) (auto simp: handleKey_def andThen_eq_Ret)
  next
    case None
    show ?thesis
    proof (cases "share_stage m = shareStageSelectDevice")
      case True
      with False None assms show ?thesis by (auto simp: handleKey_def andThen_eq_Ret intro: picks)
    next
      case other: False
      with False None assms show ?thesis
        by (intro same) (auto simp: handleKey_def split: shareStage.splits if_splits)
    qed
  qed
qed

lemma handleKey_pending:
  assumes "handleKey key u = Ret (u', cmd)"
  shows "keeps_pending u u' \<or> answers_pending True u u' \<and> key = ''y'' \<or> answers_pending False u u'"
proof -
  obtain chans m where u: "u = (chans, m)" by (cases u)
  from assms [unfolded u] show ?thesis
  proof (cases rule: handleKey_cases)
    case (picks m')
    from picks(4) have "pendingRespond m' = pendingRespond m"
      by (cases rule: picker_key_cases) (auto elim: enter_key_Ret)
    with picks u show ?thesis by (simp add: keeps_pending_def)
  next
    case (answers n)
    then show ?thesis
      by (auto simp: u answer_key_def chan_send_def keeps_pending_def answers_pending_def split: if_splits)
  qed (simp add: u keeps_pending_def)
qed

lemma handleOwnerEvent_pending:
  assumes "handleOwnerEvent env e u = Ret u'"
  shows "keeps_pending u u' \<or> answers_pending False u u'"
proof -
  obtain chans m where u: "u = (chans, m)" by (cases u)
  show ?thesis
  proof (cases "OKind e")
    case OwnerGuestLeft
    with assms show ?thesis
      by (auto simp: handleOwnerEvent_def u keeps_pending_def answers_pending_def chan_send_def Let_def
          split: option.splits if_splits)
  qed (use assms in \<open>auto simp: handleOwnerEvent_def u keeps_pending_def split: if_splits\<close>)
qed

lemma share_Update_pending:
  assumes "share_Update env msg u = Ret (u', cmd)" "\<forall>i fp n. msg \<noteq> JoinRequestMsg i fp n"
  shows "keeps_pending u u' \<or> answers_pending True u u' \<and> msg = KeyMsg ''y'' \<or> answers_pending False u u'"
proof -
  obtain chans m where u: "u = (chans, m)" by (cases u)
  show ?thesis
  proof (cases msg)
    case (KeyMsg key)
    with assms(1) have "handleKey key u = Ret (u', cmd)" by (simp add: share_Update_def u)
    with handleKey_pending [of key u u' cmd] KeyMsg show ?thesis by blast
  next
    case (OwnerEventMsg e)
    with assms(1) have "handleOwnerEvent env e u = Ret u'" by (auto simp: share_Update_def u andThen_eq_Ret)
    with handleOwnerEvent_pending [of env e u u'] show ?thesis by blast
  qed (use assms in \<open>auto simp: share_Update_def u keeps_pending_def\<close>)
qed

lemma share_Update_activity:
  assumes "share_Update env msg (chans, m) = Ret ((chans', m'), cmd)" "length (activity m) \<le> activityLogLimit"
  shows "length (activity m') \<le> activityLogLimit"
proof (cases msg)
  case (KeyMsg key)
  with assms(1) have "handleKey key (chans, m) = Ret ((chans', m'), cmd)" by (simp add: share_Update_def)
  then show ?thesis
  proof (cases rule: handleKey_cases)
    case (picks m1)
    from picks(4) have "activity m1 = activity m" by (cases rule: picker_key_cases) (auto elim: enter_key_Ret)
    with picks(3) assms(2) show ?thesis by simp
  qed (use assms(2) in \<open>auto simp: answer_key_def andThen_eq_Ret split: if_splits\<close>)
next
  case (OwnerEventMsg e)
  with assms(1) have "handleOwnerEvent env e (chans, m) = Ret (chans', m')" by (auto simp: share_Update_def andThen_eq_Ret)
  with assms(2) show ?thesis
    by (cases "OKind e") (auto simp: handleOwnerEvent_def andThen_eq_Ret length_appendActivity Let_def split: if_splits)
qed (use assms in \<open>auto simp: share_Update_def\<close>)

definition chooser_ok :: "flow_phase \<Rightarrow> nat \<Rightarrow> shareModel \<Rightarrow> bool" where
  "chooser_ok f pendingFetches m \<longleftrightarrow>
     0 \<le> cursor m \<and> (cursor m = 0 \<or> cursor m < int (length (devices m))) \<and>
     length (selectedDevice m) \<le> 1 \<and> (f \<noteq> WaitingForDevice \<longrightarrow> selectedDevice m = []) \<and>
     (share_stage m \<in> {shareStageLoadingDevices, shareStageSelectDevice} \<longrightarrow>
       f = WaitingForDevice \<and> selectedDevice m = []) \<and>
     (pendingFetches > 0 \<longrightarrow> share_stage m = shareStageLoadingDevices \<and> pendingFetches = 1)"

lemma picker_ok_chooser: "picker_ok s \<longleftrightarrow> chooser_ok (flow s) (fetching s) (screen s)"
  by (simp add: picker_ok_def chooser_ok_def)

lemma picker_key_chooser:
  assumes "picker_key key m = Ret (m', cmd)" "chooser_ok f k m" "share_stage m = shareStageSelectDevice"
  shows "chooser_ok f (k + fetches cmd) m'"
  using assms(1)
proof (cases rule: picker_key_cases)
  case (moves d)
  with assms(2,3) show ?thesis by (simp add: chooser_ok_def) (auto simp: move_cursor_def)
next
  case chooses
  have m: "chooser_ok f k m" "share_stage m = shareStageSelectDevice" "fetches cmd = 0" using assms(2,3) chooses(2) by simp_all
  from chooses(1) show ?thesis
  proof (cases rule: enter_key_Ret)
    case 1
    with m show ?thesis by simp
  next
    case (2 d)
    with m show ?thesis by (simp add: chooser_ok_def)
  qed
qed (use assms(2,3) in \<open>simp_all add: chooser_ok_def\<close>)

lemma chooser_ok_same:
  assumes "chooser_ok f k m" "cursor m' = cursor m" "devices m' = devices m" "selectedDevice m' = selectedDevice m"
    and "share_stage m' = share_stage m \<or> share_stage m' \<notin> {shareStageLoadingDevices, shareStageSelectDevice} \<and> f \<noteq> WaitingForDevice"
    and "f' = f \<or> f \<noteq> WaitingForDevice \<and> f' \<noteq> WaitingForDevice"
  shows "chooser_ok f' k m'"
  using assms(1,5,6) by (elim disjE; auto simp: chooser_ok_def assms(2-4))

lemma handleOwnerEvent_chooser:
  assumes "handleOwnerEvent env e (chans, m) = Ret (chans', m')"
  shows "cursor m' = cursor m" "devices m' = devices m" "selectedDevice m' = selectedDevice m"
    "share_stage m' = share_stage m \<or> share_stage m' = shareStageRoomActive"
  using assms by (cases "OKind e", auto simp: handleOwnerEvent_def andThen_eq_Ret Let_def split: if_splits)+

lemma share_Update_chooser:
  assumes "share_Update env msg (boxes s, screen s) = Ret ((chans', m'), cmd)" "deliverable s msg" "picker_ok s"
  shows "chooser_ok (flow (arrived msg s)) (fetching (arrived msg s) + fetches cmd) m'"
proof -
  have ok: "chooser_ok (flow s) (fetching s) (screen s)" using assms(3) by (simp add: picker_ok_chooser)
  note same = chooser_ok_same [OF ok]
  show ?thesis
  proof (cases msg)
    case (KeyMsg key)
    with assms(1) have "handleKey key (boxes s, screen s) = Ret ((chans', m'), cmd)" by (simp add: share_Update_def)
    then show ?thesis
    proof (cases rule: handleKey_cases)
      case (picks m1)
      with picker_key_chooser [OF picks(4) ok] KeyMsg show ?thesis by simp
    next
      case (answers n)
      then have "m' = screen s \<or> m' = forget_pending (screen s)" by (auto simp: answer_key_def andThen_eq_Ret split: if_splits)
      with answers(3) KeyMsg ok show ?thesis by (auto intro!: same)
    qed (use ok KeyMsg in simp)
  next
    case (OwnerEventMsg e)
    with assms(1) have "handleOwnerEvent env e (boxes s, screen s) = Ret (chans', m')" "cmd = NoCmd"
      by (auto simp: share_Update_def andThen_eq_Ret)
    note event = handleOwnerEvent_chooser [OF this(1)]
    have "flow (arrived msg s) = flow s" "fetching (arrived msg s) = fetching s" "flow s \<noteq> WaitingForDevice"
      using assms(2) by (auto simp: OwnerEventMsg)
    with event \<open>cmd = NoCmd\<close> show ?thesis by (auto intro!: same)
  next
    case (DevicesLoadedMsg ds e)
    then show ?thesis using assms(1,2) ok by (auto simp: share_Update_def chooser_ok_def)
  next
    case (ShareErrorMsg e)
    then show ?thesis using assms(1,2) by (auto simp: share_Update_def intro!: same)
  next
    case SessionTimeoutMsg
    then show ?thesis using assms(1,2) by (auto simp: share_Update_def intro!: same)
  qed (use assms(1,2) in \<open>auto simp: share_Update_def intro!: same\<close>)
qed

section \<open>The invariant holds\<close>

lemma pending_ok_keeps:
  assumes "keeps_pending (boxes s, screen s) (boxes s', screen s')" "requests s' = requests s" "pending_ok env s"
  shows "pending_ok env s'"
  using assms by (auto simp: keeps_pending_def pending_ok_def)

lemma boxes_ok_answers:
  assumes "answers_pending b (boxes s, screen s) (boxes s', screen s')" "requests s' = requests s" "boxes_ok s"
  shows "boxes_ok s'" "pending_ok env s'"
  using assms by (auto simp: answers_pending_def pending_ok_def boxes_ok_def dest!: set_update_subset_insert [THEN subsetD])

theorem share_step_ok:
  assumes "share_step env s a s'" "share_ok env s"
  shows "share_ok env s'"
  using assms(1)
proof cases
  case (delivers msg u cmd)
  obtain chans' m' where u: "u = (chans', m')" by (cases u)
  have parts: "pending_ok env s" "boxes_ok s" "picker_ok s" "length (activity (screen s)) \<le> activityLogLimit"
    using assms(2) by (simp_all add: share_ok_def)
  have req: "requests s' = requests s" using delivers(2) by (cases msg) (simp_all add: updated_def)
  have s': "boxes s' = chans'" "screen s' = m'" using delivers(2) u by (simp_all add: updated_def)
  have "\<forall>i fp n. msg \<noteq> JoinRequestMsg i fp n" using delivers(3) by auto
  from share_Update_pending [OF delivers(4) this]
  have "pending_ok env s' \<and> boxes_ok s'"
    using pending_ok_keeps [OF _ req parts(1)] boxes_ok_answers [OF _ req parts(2)] parts(2) req s' u
    by (auto simp: keeps_pending_def boxes_ok_def)
  moreover have "picker_ok s'"
    using share_Update_chooser [OF delivers(4) [unfolded u] delivers(3) parts(3)] delivers(2) u
    by (simp add: picker_ok_chooser updated_def)
  moreover have "length (activity (screen s')) \<le> activityLogLimit"
    using share_Update_activity [OF delivers(4) [unfolded u] parts(4)] s' by simp
  ultimately show ?thesis by (simp add: share_ok_def)
next
  case (takes_device d ds)
  with assms(2) show ?thesis by (auto simp: share_ok_def pending_ok_def boxes_ok_def picker_ok_def)
next
  case (accepts_all p r q)
  with assms(2) show ?thesis by (simp add: share_ok_def pending_ok_def boxes_ok_def picker_ok_def)
next
  case (asks p r q n u cmd)
  have parts: "pending_ok env s" "boxes_ok s" "picker_ok s" "length (activity (screen s)) \<le> activityLogLimit"
    using assms(2) by (simp_all add: share_ok_def)
  let ?m = "(screen s)\<lparr>pendingGuestId := fst r, pendingFingerprint := Fingerprint (Sum256 env) (snd r), pendingRespond := Some n\<rparr>"
  have u: "u = (boxes s @ [[]], ?m)" "cmd = NoCmd" using asks(6) by (simp_all add: join_request_def share_Update_def)
  have s': "screen s' = ?m" "boxes s' = boxes s @ [[]]" "requests s' = requests s @ [r]" "flow s' = flow s" "fetching s' = fetching s"
    by (simp_all add: asks(2) updated_def u)
  have "length (requests s) = length (boxes s)" using parts(2) by (simp add: boxes_ok_def)
  then have "pending_ok env s'" by (simp add: pending_ok_def s' asks(5) nth_append)
  moreover have "boxes_ok s'" using parts(2) by (simp add: boxes_ok_def s')
  moreover have "picker_ok s'" using parts(3) by (simp add: picker_ok_chooser s' chooser_ok_def)
  ultimately show ?thesis using parts(4) by (simp add: share_ok_def s')
next
  case (gets_answer n b bs)
  have parts: "pending_ok env s" "boxes_ok s" "picker_ok s" "length (activity (screen s)) \<le> activityLogLimit"
    using assms(2) by (simp_all add: share_ok_def)
  have "length (b # bs) \<le> 1" using parts(2) nth_mem [OF gets_answer(3)] by (simp only: boxes_ok_def gets_answer(4))
  then have "\<forall>x \<in> set ((boxes s)[n := bs]). length x \<le> 1"
    using parts(2) set_update_subset_insert [of "boxes s" n bs] by (auto simp: boxes_ok_def)
  then have "boxes_ok s'" using parts(2) by (simp add: boxes_ok_def gets_answer(2))
  moreover have "pending_ok env s'" using parts(1) gets_answer(4) by (auto simp: pending_ok_def gets_answer(2,3) nth_list_update)
  moreover have "picker_ok s'" using parts(3) by (simp add: picker_ok_chooser gets_answer(2))
  ultimately show ?thesis using parts(4) by (simp add: share_ok_def gets_answer(2))
qed

lemma share_run_ok: "share_run env s0 tr s \<Longrightarrow> share_ok env s0 \<Longrightarrow> share_ok env s"
  by (induction rule: share_run.induct) (auto intro: share_step_ok)

section \<open>Progress\<close>

lemma answer_key_returns:
  assumes "pending_ok env s" "pendingRespond (screen s) = Some n"
  shows "\<exists>u. answer_key key n (boxes s, screen s) = Ret u"
proof -
  have "boxes s ! n = []" using assms by (simp add: pending_ok_def)
  then show ?thesis by (simp add: answer_key_def chan_send_def)
qed

lemma enter_key_returns:
  assumes "chooser_ok f k m" "share_stage m = shareStageSelectDevice"
  shows "\<exists>m'. enter_key m = Ret m'"
  using assms by (auto simp: chooser_ok_def enter_key_def select_device_def)

lemma picker_key_returns:
  assumes "chooser_ok f k m" "share_stage m = shareStageSelectDevice"
  shows "\<exists>r. picker_key key m = Ret r"
proof -
  obtain m' where "enter_key m = Ret m'" using enter_key_returns [OF assms] by blast
  then have "andThen (enter_key m) (\<lambda>m1. Ret (m1, NoCmd)) = Ret (m', NoCmd)" by simp
  then show ?thesis unfolding picker_key_def by (simp only: split: if_split) blast
qed

lemma handleKey_returns:
  assumes "pending_ok env s" "picker_ok s"
  shows "\<exists>r. handleKey key (boxes s, screen s) = Ret r"
proof (cases "pendingRespond (screen s)")
  case (Some n)
  with answer_key_returns [OF assms(1) Some, of key] show ?thesis by (auto simp: handleKey_def)
next
  case None
  show ?thesis
  proof (cases "share_stage (screen s) = shareStageSelectDevice")
    case True
    have "chooser_ok (flow s) (fetching s) (screen s)" using assms(2) by (simp add: picker_ok_chooser)
    from picker_key_returns [OF this True, of key] obtain m1 cmd1 where "picker_key key (screen s) = Ret (m1, cmd1)"
      by auto
    with None True show ?thesis by (simp add: handleKey_def)
  next
    case False
    with None show ?thesis by (cases "share_stage (screen s)") (simp_all add: handleKey_def)
  qed
qed

lemma handleOwnerEvent_returns:
  assumes "pending_ok env s"
  shows "\<exists>u. handleOwnerEvent env e (boxes s, screen s) = Ret u"
proof (cases "OKind e")
  case OwnerGuestLeft
  show ?thesis
  proof (cases "pendingRespond (screen s)")
    case (Some n)
    then have "boxes s ! n = []" using assms by (simp add: pending_ok_def)
    with Some OwnerGuestLeft show ?thesis by (simp add: handleOwnerEvent_def Let_def chan_send_def)
  qed (use OwnerGuestLeft in \<open>simp add: handleOwnerEvent_def Let_def\<close>)
qed (simp_all add: handleOwnerEvent_def)

lemma share_Update_returns:
  assumes "share_ok env s"
  shows "\<exists>r. share_Update env msg (boxes s, screen s) = Ret r"
proof (cases msg)
  case (KeyMsg key)
  with handleKey_returns [of env s key] assms show ?thesis by (simp add: share_ok_def share_Update_def)
next
  case (OwnerEventMsg e)
  with handleOwnerEvent_returns [of env s e] assms show ?thesis by (auto simp: share_ok_def share_Update_def)
qed (simp_all add: share_Update_def)

text \<open>
  C32.  The owner's screen never hangs or crashes: in every state it can reach, whatever message comes next,
  \<open>Update\<close> returns: no answer or device is ever sent to a full channel, and the cursor always is on
  a device when one is picked.  The log of activities stays within its limit.
\<close>

theorem share_never_blocks:
  assumes "share_run env (share_start presetDevice accept_all fp) tr s"
  shows "(\<exists>u cmd. share_Update env msg (boxes s, screen s) = Ret (u, cmd)) \<and>
     length (activity (screen s)) \<le> 10 \<and>
     (devices (screen s) \<noteq> [] \<longrightarrow> 0 \<le> cursor (screen s) \<and> cursor (screen s) < int (length (devices (screen s))))"
proof -
  have ok: "share_ok env s" by (rule share_run_ok [OF assms share_ok_start])
  then have "length (activity (screen s)) \<le> 10" "picker_ok s" by (simp_all add: share_ok_def activityLogLimit_def)
  moreover have "\<exists>u cmd. share_Update env msg (boxes s, screen s) = Ret (u, cmd)"
    using share_Update_returns [OF ok, of msg] by auto
  ultimately show ?thesis by (auto simp: picker_ok_def)
qed

section \<open>Who is accepted\<close>

text \<open>The operator pressed \<open>y\<close> while this request was the one the screen asks about.\<close>

definition shown_and_accepted :: "ui_env \<Rightarrow> string \<times> bytes \<Rightarrow> (share_state \<times> share_act) \<Rightarrow> bool" where
  "shown_and_accepted env r x \<longleftrightarrow> snd x = Delivered (KeyMsg ''y'') \<and> pendingRespond (screen (fst x)) \<noteq> None \<and>
     pendingGuestId (screen (fst x)) = fst r \<and> pendingFingerprint (screen (fst x)) = Fingerprint (Sum256 env) (snd r)"

definition accepts_ok :: "ui_env \<Rightarrow> bool \<Rightarrow> (share_state \<times> share_act) list \<Rightarrow> share_state \<Rightarrow> bool" where
  "accepts_ok env accept_all tr s \<longleftrightarrow> autoAccept (screen s) = accept_all \<and>
     (\<forall>n < length (boxes s). True \<in> set (boxes s ! n) \<longrightarrow> (\<exists>x \<in> set tr. shown_and_accepted env (requests s ! n) x)) \<and>
     (\<forall>r. (r, True) \<in> set (decided s) \<longrightarrow> accept_all \<or> (\<exists>x \<in> set tr. shown_and_accepted env r x))"

lemma share_Update_autoAccept:
  assumes "share_Update env msg (chans, m) = Ret ((chans', m'), cmd)"
  shows "autoAccept m' = autoAccept m"
proof (cases msg)
  case (KeyMsg key)
  with assms have "handleKey key (chans, m) = Ret ((chans', m'), cmd)" by (simp add: share_Update_def)
  then show ?thesis
  proof (cases rule: handleKey_cases)
    case (picks m1)
    from picks(4) show ?thesis using picks(3) by (cases rule: picker_key_cases) (auto elim: enter_key_Ret)
  qed (auto simp: answer_key_def andThen_eq_Ret split: if_splits)
next
  case (OwnerEventMsg e)
  with assms have "handleOwnerEvent env e (chans, m) = Ret (chans', m')" by (auto simp: share_Update_def andThen_eq_Ret)
  then show ?thesis
    by (cases "OKind e") (auto simp: handleOwnerEvent_def andThen_eq_Ret Let_def split: if_splits)
qed (use assms in \<open>auto simp: share_Update_def\<close>)

end
