(* ===== verification/Share_Properties.thy ===== *)
theory Share_Properties
  imports Share_Flow
begin

text \<open>
  Who gets accepted over the owner's screen, what becomes of a request that is asked about after another,
  and what the operator sees while deciding.
\<close>

section \<open>Acceptance\<close>

lemma accepts_ok_delivers:
  assumes "accepts_ok env accept_all tr s" "share_ok env s"
    and "deliverable s msg" "share_Update env msg (boxes s, screen s) = Ret (u, cmd)"
  shows "accepts_ok env accept_all (tr @ [(s, Delivered msg)]) (updated u cmd (arrived msg s))"
proof -
  obtain chans' m' where u: "u = (chans', m')" by (cases u)
  let ?s' = "updated u cmd (arrived msg s)"
  have same: "requests ?s' = requests s" "decided ?s' = decided s" "boxes ?s' = chans'" "screen ?s' = m'"
    using u by (cases msg; simp add: updated_def)+
  have auto': "autoAccept m' = autoAccept (screen s)" by (rule share_Update_autoAccept [OF assms(4) [unfolded u]])
  have old: "accept_all \<or> (\<exists>x \<in> set tr. shown_and_accepted env r x)" if "(r, True) \<in> set (decided s)" for r
    using assms(1) that unfolding accepts_ok_def by blast
  have box: "\<exists>x \<in> set (tr @ [(s, Delivered msg)]). shown_and_accepted env (requests s ! n) x"
    if n: "n < length chans'" "True \<in> set (chans' ! n)" for n
  proof -
    have "\<forall>i fp k. msg \<noteq> JoinRequestMsg i fp k" using assms(3) by auto
    from share_Update_pending [OF assms(4) this]
    consider "chans' = boxes s"
      | k where "pendingRespond (screen s) = Some k" "chans' = (boxes s)[k := boxes s ! k @ [True]]" "msg = KeyMsg ''y''"
      | k where "chans' = (boxes s)[k := boxes s ! k @ [False]]"
      by (auto simp: u keeps_pending_def answers_pending_def)
    then show ?thesis
    proof cases
      case 1
      with assms(1) n show ?thesis by (auto simp: accepts_ok_def)
    next
      case (2 k)
      then have shown: "shown_and_accepted env (requests s ! k) (s, Delivered msg)"
        using assms(2) by (simp add: shown_and_accepted_def share_ok_def pending_ok_def)
      show ?thesis
      proof (cases "n = k")
        case True
        with shown show ?thesis by auto
      next
        case False
        with 2(2) assms(1) n show ?thesis by (auto simp: accepts_ok_def)
      qed
    next
      case (3 k)
      then have "True \<in> set (boxes s ! n)" using n by (cases "n = k") auto
      with 3 assms(1) n(1) show ?thesis by (auto simp: accepts_ok_def)
    qed
  qed
  have "autoAccept (screen s) = accept_all" using assms(1) by (simp add: accepts_ok_def)
  with same auto' box old show ?thesis unfolding accepts_ok_def by auto
qed

lemma accepts_ok_step:
  assumes "accepts_ok env accept_all tr s" "share_ok env s" "share_step env s a s'"
  shows "accepts_ok env accept_all (tr @ [(s, a)]) s'"
  using assms(3)
proof cases
  case (delivers msg u cmd)
  with accepts_ok_delivers [OF assms(1,2)] show ?thesis by simp
next
  case (asks p r q n u cmd)
  then have u: "fst u = boxes s @ [[]]" "autoAccept (snd u) = autoAccept (screen s)"
    by (auto simp: join_request_def share_Update_def)
  have len: "length (requests s) = length (boxes s)" using assms(2) by (simp add: share_ok_def boxes_ok_def)
  have s': "boxes s' = boxes s @ [[]]" "requests s' = requests s @ [r]" "decided s' = decided s" "autoAccept (screen s') = autoAccept (screen s)"
    using u by (simp_all add: asks(2) updated_def)
  have "\<exists>x \<in> set (tr @ [(s, a)]). shown_and_accepted env ((requests s @ [r]) ! n) x"
    if "n < Suc (length (boxes s))" "True \<in> set ((boxes s @ [[]]) ! n)" for n
    using that assms(1) len by (auto simp: accepts_ok_def nth_append split: if_splits)
  with assms(1) s' show ?thesis unfolding accepts_ok_def by auto
next
  case (gets_answer n b bs)
  have "\<exists>x \<in> set tr. shown_and_accepted env (requests s ! n) x" if "b = True"
    using assms(1) gets_answer(3,4) that by (auto simp: accepts_ok_def)
  moreover have "True \<in> set ((boxes s)[n := bs] ! k) \<Longrightarrow> k < length (boxes s) \<Longrightarrow> True \<in> set (boxes s ! k)" for k
    using gets_answer(3,4) by (cases "k = n") auto
  ultimately show ?thesis using assms(1) by (auto simp: gets_answer(2) accepts_ok_def)
qed (use assms(1) in \<open>auto simp: accepts_ok_def\<close>)

lemma accepts_ok_run:
  assumes "share_run env (share_start presetDevice accept_all fp) tr s"
  shows "accepts_ok env accept_all tr s"
  using assms
proof (induction rule: share_run.induct)
  case share_nil
  show ?case by (simp add: accepts_ok_def share_start_def newShareModel_def Let_def)
next
  case (share_snoc tr s a s')
  with accepts_ok_step share_run_ok [OF share_snoc.hyps(1) share_ok_start] show ?case by blast
qed

text \<open>
  C31.  Unless the owner asked to accept everyone, a join request is accepted only by the operator pressing
  \<open>y\<close> at a moment when the screen was asking about the client id and the key of exactly this request; this
  holds for any number of requests in any order, and however they overtake one another.
\<close>

theorem accepted_only_when_shown:
  assumes "share_run env (share_start presetDevice False fp) tr s" "((guest_id, guest_key), True) \<in> set (decided s)"
  shows "\<exists>t. (t, Delivered (KeyMsg ''y'')) \<in> set tr \<and> pendingRespond (screen t) \<noteq> None \<and>
     pendingGuestId (screen t) = guest_id \<and> pendingFingerprint (screen t) = Fingerprint (Sum256 env) guest_key"
proof -
  obtain x where x: "x \<in> set tr" "shown_and_accepted env (guest_id, guest_key) x"
    using accepts_ok_run [OF assms(1)] assms(2) unfolding accepts_ok_def by blast
  obtain t a where "x = (t, a)" by (cases x)
  with x show ?thesis by (auto simp: shown_and_accepted_def)
qed

section \<open>A request asked about too early\<close>




section \<open>What the operator sees\<close>






section \<open>Witnesses\<close>

definition plain_env :: ui_env where
  "plain_env = \<lparr>Sum256 = take 32, error_text = (\<lambda>_. ''error''), styles = plain_styles\<rparr>"

text \<open>A preset device is shared, a guest asks, and the operator accepts.\<close>

definition sample_guest :: "string \<times> bytes" where
  "sample_guest = (''GUES0001'', [1, 2])"

definition join_event :: OwnerEvent where
  "join_event = (owner_event OwnerJoinRequested)\<lparr>OGuestClientId := fst sample_guest, OGuestPublicKey := snd sample_guest\<rparr>"

lemma sample_asked:
  obtains tr s where "share_run plain_env (share_start ''emulator-5554'' False ''fp'') tr s"
    "pendingRespond (screen s) = Some 0" "boxes s = [[]]" "requests s = [sample_guest]" "unasked s = [sample_guest]"
    "\<not> autoAccept (screen s)" "decided s = []"
proof -
  let ?s0 = "share_start ''emulator-5554'' False ''fp''"
  have s0: "flow ?s0 = WaitingForDevice" "selectedDevice (screen ?s0) = [''emulator-5554'']" "boxes ?s0 = []"
    "requests ?s0 = []" "unasked ?s0 = []" "decided ?s0 = []" "\<not> autoAccept (screen ?s0)"
    by (simp_all add: share_start_def newShareModel_def Let_def)
  let ?s1 = "?s0\<lparr>flow := Sharing ''emulator-5554'', screen := (screen ?s0)\<lparr>selectedDevice := []\<rparr>\<rparr>"
  have 1: "share_run plain_env ?s0 ([] @ [(?s0, DeviceTaken ''emulator-5554'')]) ?s1"
    by (rule share_snoc [OF share_nil takes_device [OF s0(1,2)]])
  have event: "\<exists>s'. share_step plain_env s (Delivered (OwnerEventMsg join_event)) s' \<and> unasked s' = unasked s @ [sample_guest] \<and>
      boxes s' = boxes s \<and> requests s' = requests s \<and> decided s' = decided s \<and> flow s' = flow s \<and>
      autoAccept (screen s') = autoAccept (screen s)" if f: "flow s = Sharing d" for s d
  proof -
    obtain m' where u: "share_Update plain_env (OwnerEventMsg join_event) (boxes s, screen s) = Ret ((boxes s, m'), NoCmd)"
      "autoAccept m' = autoAccept (screen s)"
      by (simp add: share_Update_def handleOwnerEvent_def join_event_def owner_event_def)
    have f': "deliverable s (OwnerEventMsg join_event)" using f by simp
    have ev: "OKind join_event = OwnerJoinRequested" "OGuestClientId join_event = fst sample_guest"
      "OGuestPublicKey join_event = snd sample_guest" by (simp_all add: join_event_def owner_event_def)
    show ?thesis
      by (intro exI conjI, rule delivers [OF f' u(1)]) (simp_all add: updated_def u(2) ev)
  qed
  obtain s2 where s2: "share_step plain_env ?s1 (Delivered (OwnerEventMsg join_event)) s2" "unasked s2 = [sample_guest]"
    "boxes s2 = []" "requests s2 = []" "decided s2 = []" "flow s2 = Sharing ''emulator-5554''" "\<not> autoAccept (screen s2)"
    using event [of ?s1] s0 by auto
  obtain s3 where s3: "share_step plain_env s2 (Delivered (OwnerEventMsg join_event)) s3" "unasked s3 = [sample_guest, sample_guest]"
    "boxes s3 = []" "requests s3 = []" "decided s3 = []" "\<not> autoAccept (screen s3)"
    using event [OF s2(6)] s2 by auto
  obtain m4 where u: "share_Update plain_env (join_request plain_env sample_guest 0) (boxes s3 @ [[]], screen s3) = Ret ((boxes s3 @ [[]], m4), NoCmd)"
    "pendingRespond m4 = Some 0" "autoAccept m4 = autoAccept (screen s3)"
    by (simp add: share_Update_def join_request_def)
  have "share_step plain_env s3 (Asked sample_guest)
     (updated (boxes s3 @ [[]], m4) NoCmd (s3\<lparr>unasked := [] @ [sample_guest], requests := requests s3 @ [sample_guest]\<rparr>))"
    by (rule asks [OF s3(6), where n = 0]) (use s3 u in simp_all)
  from share_snoc [OF share_snoc [OF share_snoc [OF 1 s2(1)] s3(1)] this] show thesis
    by (rule that) (use s3 u in \<open>simp_all add: updated_def\<close>)
qed

theorem share_never_blocks_witness:
  "\<exists>s :: share_state. pendingRespond (screen s) = Some 0 \<and>
     (\<exists>u cmd. share_Update plain_env (OwnerEventMsg (owner_event OwnerGuestLeft)) (boxes s, screen s) = Ret (u, cmd))"
proof -
  obtain tr s where s: "share_run plain_env (share_start ''emulator-5554'' False ''fp'') tr s" "pendingRespond (screen s) = Some 0"
    by (rule sample_asked)
  from share_never_blocks [OF s(1), of "OwnerEventMsg (owner_event OwnerGuestLeft)"] s(2) show ?thesis by blast
qed

theorem accepted_only_when_shown_witness:
  "\<exists>tr s t. share_run plain_env (share_start ''emulator-5554'' False ''fp'') tr s \<and> (sample_guest, True) \<in> set (decided s) \<and>
     (t, Delivered (KeyMsg ''y'')) \<in> set tr \<and> pendingGuestId (screen t) = ''GUES0001''"
proof -
  obtain tr s where s: "share_run plain_env (share_start ''emulator-5554'' False ''fp'') tr s"
    "pendingRespond (screen s) = Some 0" "boxes s = [[]]" "requests s = [sample_guest]" by (rule sample_asked)
  have "share_Update plain_env (KeyMsg ''y'') (boxes s, screen s) = Ret (([[True]], forget_pending (screen s)), NoCmd)"
    using s(2,3) by (simp add: share_Update_def handleKey_def answer_key_def chan_send_def)
  from delivers [OF _ this] have 1: "share_step plain_env s (Delivered (KeyMsg ''y''))
      (updated ([[True]], forget_pending (screen s)) NoCmd s)" by simp
  let ?s1 = "updated ([[True]], forget_pending (screen s)) NoCmd s"
  have 2: "share_step plain_env ?s1 (Answered 0 True) (?s1\<lparr>boxes := (boxes ?s1)[0 := []],
      decided := decided ?s1 @ [(requests ?s1 ! 0, True)]\<rparr>)"
    by (rule gets_answer) (simp_all add: updated_def)
  note run = share_snoc [OF share_snoc [OF s(1) 1] 2]
  have d: "((''GUES0001'', [1, 2]), True) \<in> set (decided (?s1\<lparr>boxes := (boxes ?s1)[0 := []],
      decided := decided ?s1 @ [(requests ?s1 ! 0, True)]\<rparr>))" using s(4) by (simp add: updated_def sample_guest_def)
  from accepted_only_when_shown [OF run d] run d show ?thesis unfolding sample_guest_def by blast
qed



end
