(* ===== verification/Connect_Screen.thy ===== *)
theory Connect_Screen
  imports Controller_Properties Transfer_Stats Key_Files
begin

text \<open>
  \<open>client/tui/connect.go\<close>: the guest's screen and \<open>runGuestFlow\<close>, which feeds it.  The messages reach
  \<open>Update\<close> in the order they are sent, as there is one sender; window sizes, keys and ticks come in between.
\<close>

section \<open>Data\<close>

datatype connectStage =
    connectStageConnecting | connectStageJoiningRoom | connectStageDenied | connectStageProxyStarting
  | connectStageReady | connectStageRelaying | connectStageDisconnected | connectStageError

record connectModel =
  connect_roomId :: string
  connect_localPort :: string
  connect_fingerprint :: string
  connect_stage :: connectStage
  connect_clientId :: string
  connect_err :: "error option"
  ownerClientId :: string
  ownerFingerprint :: string
  adbConnected :: bool
  adbConnectErr :: "error option"
  relayCount :: int
  lastRelayErr :: "error option"
  connect_stats :: transferStats
  connect_width :: int
  connect_height :: int

datatype connect_msg =
    ConnectWindowSize int int
  | ConnectTick int u64 u64
  | ConnectKey string
  | ConnectClientId string
  | JoiningRoomMsg
  | GuestEventMsg GuestEvent
  | ConnectErrorMsg error

datatype connect_cmd = ConnectNoCmd | ConnectQuit | ConnectTickCmd

definition newConnectModel :: "string \<Rightarrow> string \<Rightarrow> string \<Rightarrow> connectModel" where
  "newConnectModel room localPort fp =
     \<lparr>connect_roomId = room, connect_localPort = localPort, connect_fingerprint = fp,
      connect_stage = connectStageConnecting, connect_clientId = [], connect_err = None, ownerClientId = [],
      ownerFingerprint = [], adbConnected = False, adbConnectErr = None, relayCount = 0, lastRelayErr = None,
      connect_stats = no_stats, connect_width = 0, connect_height = 0\<rparr>"

section \<open>Updates\<close>

definition handleGuestEvent :: "(bytes \<Rightarrow> bytes) \<Rightarrow> GuestEvent \<Rightarrow> connectModel \<Rightarrow> connectModel" where
  "handleGuestEvent Sum256 e m =
     (case GKind e of
        GuestJoinDecided \<Rightarrow>
          if GAccepted e
          then m\<lparr>connect_stage := connectStageProxyStarting, ownerClientId := GOwnerClientId e,
                 ownerFingerprint := Fingerprint Sum256 (GOwnerPublicKey e)\<rparr>
          else m\<lparr>connect_stage := connectStageDenied\<rparr>
      | GuestProxyReady \<Rightarrow> m\<lparr>connect_stage := connectStageReady, connect_localPort := GLocalPort e\<rparr>
      | GuestAdbConnected \<Rightarrow> m\<lparr>adbConnected := True, adbConnectErr := None\<rparr>
      | GuestAdbConnectFailed \<Rightarrow> m\<lparr>adbConnected := False, adbConnectErr := GErr e\<rparr>
      | GuestLocalAdbConnected \<Rightarrow> m\<lparr>connect_stage := connectStageRelaying, relayCount := relayCount m + 1\<rparr>
      | GuestRelayStopped \<Rightarrow> m\<lparr>lastRelayErr := GErr e, connect_stage := connectStageReady\<rparr>
      | GuestTransportLost \<Rightarrow> m\<lparr>connect_stage := connectStageDisconnected\<rparr>)"

definition connect_Update :: "(bytes \<Rightarrow> bytes) \<Rightarrow> connect_msg \<Rightarrow> connectModel \<Rightarrow> connectModel \<times> connect_cmd" where
  "connect_Update Sum256 msg m =
     (case msg of
        ConnectWindowSize w h \<Rightarrow> (m\<lparr>connect_width := w, connect_height := h\<rparr>, ConnectNoCmd)
      | ConnectKey key \<Rightarrow> (m, if key = ''ctrl+c'' \<or> key = ''q'' then ConnectQuit else ConnectNoCmd)
      | ConnectClientId i \<Rightarrow> (m\<lparr>connect_clientId := i\<rparr>, ConnectNoCmd)
      | JoiningRoomMsg \<Rightarrow> (m\<lparr>connect_stage := connectStageJoiningRoom\<rparr>, ConnectNoCmd)
      | GuestEventMsg e \<Rightarrow> (handleGuestEvent Sum256 e m, ConnectNoCmd)
      | ConnectErrorMsg e \<Rightarrow> (m\<lparr>connect_err := Some e, connect_stage := connectStageError\<rparr>, ConnectNoCmd)
      | ConnectTick now bs br \<Rightarrow> (m\<lparr>connect_stats := sample bs br now (connect_stats m)\<rparr>, ConnectTickCmd))"

definition connect_Updates :: "(bytes \<Rightarrow> bytes) \<Rightarrow> connect_msg list \<Rightarrow> connectModel \<Rightarrow> connectModel" where
  "connect_Updates Sum256 msgs m = fold (\<lambda>msg m. fst (connect_Update Sum256 msg m)) msgs m"

text \<open>Errors that are no error screen of their own.\<close>

fun already_reflected :: "error \<Rightarrow> bool" where
  "already_reflected (ErrJoinRoomDenied r) = True"
| "already_reflected ErrTransportClosed = True"
| "already_reflected _ = False"

text \<open>
  What \<open>runGuestFlow\<close> sends, from the results of \<open>Handshake\<close> and \<open>JoinAsGuest\<close>; \<open>cancelled_ctx\<close>
  tells whether the context is over when \<open>JoinAsGuest\<close> returns.
\<close>

definition runGuestFlow :: "error + string \<Rightarrow> GuestEvent list \<Rightarrow> error option \<Rightarrow> bool \<Rightarrow> connect_msg list" where
  "runGuestFlow handshake events err cancelled_ctx =
     (case handshake of
        Inl e \<Rightarrow> [ConnectErrorMsg e]
      | Inr i \<Rightarrow> ConnectClientId i # JoiningRoomMsg # map GuestEventMsg events @
          (case err of None \<Rightarrow> []
           | Some e \<Rightarrow> if cancelled_ctx then [] else if already_reflected e then [] else [ConnectErrorMsg e]))"

section \<open>The view\<close>

definition stateLine :: "Styles \<Rightarrow> connectModel \<Rightarrow> string" where
  "stateLine st m =
     (case connect_stage m of
        connectStageConnecting \<Rightarrow> ''connecting to the transporter...''
      | connectStageJoiningRoom \<Rightarrow> ''joining room '' @ connect_roomId m @ ''...''
      | connectStageDenied \<Rightarrow> errorStyle st ''join request declined''
      | connectStageProxyStarting \<Rightarrow> ''join accepted, starting the local proxy...''
      | connectStageReady \<Rightarrow> successStyle st (''ready '' @ em_dash @ '' waiting for a local adb connection'')
      | connectStageRelaying \<Rightarrow> successStyle st ''relaying ADB traffic''
      | connectStageDisconnected \<Rightarrow> errorStyle st ''disconnected''
      | connectStageError \<Rightarrow> errorStyle st ''error'')"

definition connect_nl :: string where "connect_nl = [newline]"

definition proxy_view :: "Styles \<Rightarrow> (error \<Rightarrow> string) \<Rightarrow> connectModel \<Rightarrow> string" where
  "proxy_view st error_text m =
     ''Local proxy: 127.0.0.1:'' @ connect_localPort m @ connect_nl @
     (if adbConnected m then successStyle st ''adb connect issued automatically'' @ connect_nl @ connect_nl
      else (case adbConnectErr m of
          Some e \<Rightarrow> errorStyle st (''Automatic '' @ [CHR 0x22] @ ''adb connect'' @ [CHR 0x22] @ '' failed: '' @ error_text e) @ connect_nl @
            dimStyle st (''Run it yourself: adb connect 127.0.0.1:'' @ connect_localPort m) @ connect_nl @ connect_nl
        | None \<Rightarrow> connect_nl)) @
     (if relayCount m > 0
      then dimStyle st (''('' @ decimal (nat (relayCount m)) @ '' local adb connection(s) relayed so far)'') @ connect_nl @ connect_nl
      else []) @
     (case lastRelayErr m of
        Some e \<Rightarrow> dimStyle st (''Last relay ended: '' @ error_text e) @ connect_nl @ connect_nl
      | None \<Rightarrow> [])"

definition connect_View :: "Styles \<Rightarrow> (error \<Rightarrow> string) \<Rightarrow> connectModel \<Rightarrow> string outcome" where
  "connect_View st error_text m =
     andThen (render st (connect_stats m)) (\<lambda>footer.
       let body =
         titleStyle st (''adb-remote '' @ em_dash @ '' connect'') @ connect_nl @
         (if connect_clientId m \<noteq> [] then labelStyle st ''Your client id: '' @ connect_clientId m @ connect_nl else []) @
         labelStyle st ''Your fingerprint: '' @ connect_fingerprint m @ connect_nl @
         dimStyle st (''  Share this with the room owner so they can verify it'' @ [CHR 0x27] @ ''s really you accepting.'') @ connect_nl @
         labelStyle st ''Room id:        '' @ connect_roomId m @ connect_nl @ connect_nl @
         (if ownerClientId m \<noteq> [] then labelStyle st ''Room owner: '' @ successStyle st (ownerClientId m) @ connect_nl @
            labelStyle st ''  Owner fingerprint: '' @ ownerFingerprint m @ connect_nl @ connect_nl
          else []) @
         labelStyle st ''Connection state: '' @ stateLine st m @ connect_nl @ connect_nl @
         (case connect_stage m of
            connectStageReady \<Rightarrow> proxy_view st error_text m
          | connectStageRelaying \<Rightarrow> proxy_view st error_text m
          | connectStageDenied \<Rightarrow> errorStyle st ''The room owner declined the join request.'' @ connect_nl @ connect_nl
          | connectStageDisconnected \<Rightarrow>
              errorStyle st ''Disconnected: the room owner left, or the transporter connection was lost.'' @ connect_nl @ connect_nl
          | connectStageError \<Rightarrow>
              errorStyle st (''Error: '' @ (case connect_err m of None \<Rightarrow> ''%!s(<nil>)'' | Some e \<Rightarrow> error_text e)) @ connect_nl @ connect_nl
          | _ \<Rightarrow> []) @
         helpStyle st ''q quit'' in
       Ret (layoutWithFooter st body footer (connect_height m)))"

section \<open>Events\<close>

lemma connect_Updates_simps [simp]:
  "connect_Updates h [] m = m"
  "connect_Updates h (msg # msgs) m = connect_Updates h msgs (fst (connect_Update h msg m))"
  "connect_Updates h (xs @ ys) m = connect_Updates h ys (connect_Updates h xs m)"
  by (simp_all add: connect_Updates_def)

definition local_connections :: "GuestEvent list \<Rightarrow> int" where
  "local_connections events = int (length (filter (\<lambda>e. GKind e = GuestLocalAdbConnected) events))"

lemma relayCount_events:
  "relayCount (connect_Updates h (map GuestEventMsg events) m) = relayCount m + local_connections events"
proof (induction events arbitrary: m)
  case (Cons e events)
  have "relayCount (handleGuestEvent h e m) = relayCount m + (if GKind e = GuestLocalAdbConnected then 1 else 0)"
    by (cases "GKind e") (simp_all add: handleGuestEvent_def)
  with Cons.IH show ?case by (simp add: connect_Update_def local_connections_def)
qed (simp add: local_connections_def)

lemma guest_event_kind [simp]: "GKind (guest_event k) = k"
  by (simp add: guest_event_def)

text \<open>The guest's loop leaves the screen at \<open>Disconnected\<close> exactly when the transporter is gone.\<close>

lemma guest_loop_stage:
  "guest_loop c events c' e \<Longrightarrow> e \<in> {ErrTransportClosed, ErrContextCancelled} \<and>
     connect_stage (connect_Updates h (map GuestEventMsg events) m) =
       (if e = ErrTransportClosed then connectStageDisconnected
        else if events = [] then connect_stage m else connectStageReady)"
proof (induction arbitrary: m rule: guest_loop.induct)
  case (loop_relays conn c turns r x events c2 e)
  show ?case using loop_relays.IH by (auto simp: connect_Update_def handleGuestEvent_def)
qed (auto simp: connect_Update_def handleGuestEvent_def)

lemma connect_clientId_events:
  "connect_clientId (connect_Updates h (map GuestEventMsg events) m) = connect_clientId m"
proof (induction events arbitrary: m)
  case (Cons e events)
  have "connect_clientId (handleGuestEvent h e m) = connect_clientId m"
    by (cases "GKind e") (simp_all add: handleGuestEvent_def)
  with Cons.IH show ?case by (simp add: connect_Update_def)
qed simp

lemma roomJoinStep_events:
  assumes "roomJoinStep key room c = Ret (c1, events, err)"
  shows "events = [] \<and> err \<noteq> None \<or>
     (\<exists>d. events = [d] \<and> GKind d = GuestJoinDecided \<and> err = (if GAccepted d then None else Some (ErrJoinRoomDenied room)))"
proof -
  obtain c2 sent_err where s: "SendJoinRoom room key c = Ret (c2, sent_err)"
    using assms by (auto simp: roomJoinStep_def andThen_eq_Ret)
  show ?thesis
  proof (cases sent_err)
    case (Some e)
    with s assms show ?thesis by (auto simp: roomJoinStep_def)
  next
    case None
    with s assms obtain c3 res where r: "receive_message join_room_answer c2 = Ret (c3, res)"
      by (auto simp: roomJoinStep_def andThen_eq_Ret)
    show ?thesis
    proof (cases res)
      case (Inl e)
      with s None r assms show ?thesis by (auto simp: roomJoinStep_def)
    next
      case (Inr p)
      let ?d = "(guest_event GuestJoinDecided)\<lparr>GAccepted := Accepted p \<noteq> 0, GOwnerClientId := OwnerClientId p,
        GOwnerPublicKey := OwnerPublicKey p\<rparr>"
      have "events = [?d] \<and> err = (if Accepted p \<noteq> 0 then None else Some (ErrJoinRoomDenied room))"
        using s None r Inr assms by (auto simp: roomJoinStep_def Let_def)
      then show ?thesis by (intro disjI2 exI [of _ ?d]) simp
    qed
  qed
qed

text \<open>Where the events of a whole session leave the screen.\<close>

lemma JoinAsGuest_stage:
  assumes "JoinAsGuest key room localPort listen adb_connect c events c' e" "\<forall>x. listen = Some x \<longrightarrow> (\<exists>s. x = ErrOs s)"
    and "already_reflected e" "events \<noteq> []"
  shows "connect_stage (connect_Updates h (map GuestEventMsg events) m) =
     (if e = ErrTransportClosed then connectStageDisconnected else connectStageDenied)"
  using assms(1)
proof cases
  case join_fails
  from roomJoinStep_events [OF join_fails] assms(4) obtain d where
    "events = [d]" "GKind d = GuestJoinDecided" "Some e = (if GAccepted d then None else Some (ErrJoinRoomDenied room))" by auto
  then show ?thesis by (auto simp: connect_Update_def handleGuestEvent_def split: if_splits)
next
  case listen_fails
  then show ?thesis using assms(2,3) by auto
next
  case (serves c1 evs1 evs2)
  from roomJoinStep_events [OF serves(2)] obtain d where "evs1 = [d]" by auto
  moreover have "e = ErrTransportClosed" using guest_loop_stage [OF serves(4), of h m] assms(3) by auto
  ultimately show ?thesis using guest_loop_stage [OF serves(4), of h] by (simp add: serves(1))
qed

section \<open>Properties\<close>

text \<open>
  C35.  When the guest's session is over, its screen tells why: declined, disconnected, or an error of its own,
  and it has counted every local connection.  The exception is a transporter lost while the guest
  waits for the owner's decision: no event tells, the flow drops the error as already shown, and the
  screen says "joining room" for ever.
\<close>

theorem guest_screen_tells_the_end:
  assumes "JoinAsGuest key room localPort listen adb_connect c events c' e" "\<forall>x. listen = Some x \<longrightarrow> (\<exists>s. x = ErrOs s)"
    and "m = connect_Updates h (runGuestFlow (Inr i) events (Some e) False) (newConnectModel room localPort fp)"
  shows "relayCount m = local_connections events \<and> connect_clientId m = i \<and>
     connect_stage m =
       (if \<not> already_reflected e then connectStageError
        else if events = [] then connectStageJoiningRoom
        else if e = ErrTransportClosed then connectStageDisconnected else connectStageDenied)"
proof -
  define m1 where "m1 = (newConnectModel room localPort fp)\<lparr>connect_clientId := i, connect_stage := connectStageJoiningRoom\<rparr>"
  let ?m2 = "connect_Updates h (map GuestEventMsg events) m1"
  have m: "m = (if already_reflected e then ?m2 else ?m2\<lparr>connect_err := Some e, connect_stage := connectStageError\<rparr>)"
    by (simp add: assms(3) runGuestFlow_def connect_Update_def m1_def)
  have "relayCount ?m2 = local_connections events" "connect_clientId ?m2 = i"
    by (simp_all add: relayCount_events connect_clientId_events) (simp_all add: m1_def newConnectModel_def)
  moreover have "connect_stage ?m2 = connectStageJoiningRoom" if "events = []" using that by (simp add: m1_def)
  ultimately show ?thesis using JoinAsGuest_stage [OF assms(1,2)] by (simp add: m)
qed

theorem guest_screen_tells_the_end_witness:
  "connect_stage (connect_Updates (\<lambda>_. []) (runGuestFlow (Inr ''AAAA0000'') [] (Some ErrTransportClosed) False)
     (newConnectModel ''ROOM'' ''5038'' ''fp'')) = connectStageJoiningRoom"
proof -
  obtain c2 where "JoinAsGuest [1] ''ROOM'' ''5038'' None None (sample_peer []) [] c2 ErrTransportClosed"
    using transport_loss_reported_witness by blast
  from guest_screen_tells_the_end [OF this _ refl, of "\<lambda>_. []" "''AAAA0000''" "''fp''"] show ?thesis by simp
qed

end
