(* ===== verification/Commands.thy ===== *)
theory Commands
  imports Transport_Client
begin

text \<open>
  \<open>client/command\<close>: the command line.  \<open>flag.FlagSet.Parse\<close> is modelled as far as the two commands use it, with
  \<open>strconv.ParseInt\<close> as argument; with \<open>flag.ExitOnError\<close> a bad flag ends the program.  \<open>RunShare\<close> and
  \<open>RunConnect\<close> are arguments here; \<open>Share_Screen\<close> and \<open>Connect_Screen\<close> model what they run.
\<close>

section \<open>Flags\<close>

datatype flag_value = StringFlag string | BoolFlag bool | IntFlag int

type_synonym flags = "(string \<times> flag_value) list"

definition set_flag :: "string \<Rightarrow> flag_value \<Rightarrow> flags \<Rightarrow> flags" where
  "set_flag name v fs = map (\<lambda>(n, w). if n = name then (n, v) else (n, w)) fs"

definition string_flag :: "string \<Rightarrow> flags \<Rightarrow> string" where
  "string_flag name fs = (case map_of fs name of Some (StringFlag s) \<Rightarrow> s | _ \<Rightarrow> [])"

definition bool_flag :: "string \<Rightarrow> flags \<Rightarrow> bool" where
  "bool_flag name fs = (case map_of fs name of Some (BoolFlag b) \<Rightarrow> b | _ \<Rightarrow> False)"

definition int_flag :: "string \<Rightarrow> flags \<Rightarrow> int" where
  "int_flag name fs = (case map_of fs name of Some (IntFlag i) \<Rightarrow> i | _ \<Rightarrow> 0)"

definition ParseBool :: "string \<Rightarrow> bool option" where
  "ParseBool s =
     (if s \<in> {''1'', ''t'', ''T'', ''true'', ''TRUE'', ''True''} then Some True
      else if s \<in> {''0'', ''f'', ''F'', ''false'', ''FALSE'', ''False''} then Some False
      else None)"

text \<open>A flag's text: its name, and the value after the first \<open>=\<close> that is not the first letter.\<close>

definition split_flag :: "string \<Rightarrow> string \<times> string option" where
  "split_flag s =
     (case s of [] \<Rightarrow> ([], None)
      | c # t \<Rightarrow> (c # takeWhile (\<lambda>x. x \<noteq> CHR ''='') t,
          case dropWhile (\<lambda>x. x \<noteq> CHR ''='') t of [] \<Rightarrow> None | e # v \<Rightarrow> Some v))"

datatype flag_token = NoFlag | EndOfFlags | BadFlag | Flag string "string option"

definition flag_token :: "string \<Rightarrow> flag_token" where
  "flag_token s =
     (if length s < 2 \<or> s ! 0 \<noteq> CHR ''-'' then NoFlag
      else if s = ''--'' then EndOfFlags
      else let name = (if s ! 1 = CHR ''-'' then drop 2 s else drop 1 s) in
        if name = [] \<or> hd name \<in> {CHR ''-'', CHR ''=''} then BadFlag
        else (case split_flag name of (n, v) \<Rightarrow> Flag n v))"

definition set_value :: "(string \<Rightarrow> int option) \<Rightarrow> string \<Rightarrow> string \<Rightarrow> flags \<Rightarrow> flags option" where
  "set_value ParseInt name v fs =
     (case map_of fs name of
        None \<Rightarrow> None
      | Some (StringFlag _) \<Rightarrow> Some (set_flag name (StringFlag v) fs)
      | Some (BoolFlag _) \<Rightarrow> map_option (\<lambda>b. set_flag name (BoolFlag b) fs) (ParseBool v)
      | Some (IntFlag _) \<Rightarrow> map_option (\<lambda>i. set_flag name (IntFlag i) fs) (ParseInt v))"

datatype parsed = Parsed flags | Exits nat

definition or_exit :: "(flags \<Rightarrow> parsed) \<Rightarrow> flags option \<Rightarrow> parsed" where
  "or_exit go r = (case r of None \<Rightarrow> Exits 2 | Some fs \<Rightarrow> go fs)"

lemma or_exit_cong [fundef_cong]: "r = r' \<Longrightarrow> (\<And>fs. r' = Some fs \<Longrightarrow> go fs = go' fs) \<Longrightarrow> or_exit go r = or_exit go' r'"
  by (auto simp: or_exit_def split: option.splits)

text \<open>An unknown \<open>-help\<close> or \<open>-h\<close> prints the usage and exits with 0, every other mistake with 2.\<close>

fun parse_flags :: "(string \<Rightarrow> int option) \<Rightarrow> string list \<Rightarrow> flags \<Rightarrow> parsed" where
  "parse_flags ParseInt [] fs = Parsed fs"
| "parse_flags ParseInt (s # args) fs =
     (case flag_token s of
        NoFlag \<Rightarrow> Parsed fs
      | EndOfFlags \<Rightarrow> Parsed fs
      | BadFlag \<Rightarrow> Exits 2
      | Flag name value \<Rightarrow>
        (case map_of fs name of
           None \<Rightarrow> Exits (if name \<in> {''help'', ''h''} then 0 else 2)
         | Some (BoolFlag _) \<Rightarrow>
             or_exit (parse_flags ParseInt args) (set_value ParseInt name (case value of None \<Rightarrow> ''true'' | Some v \<Rightarrow> v) fs)
         | Some _ \<Rightarrow>
             (case value of
                Some v \<Rightarrow> or_exit (parse_flags ParseInt args) (set_value ParseInt name v fs)
              | None \<Rightarrow>
                (case args of
                   [] \<Rightarrow> Exits 2
                 | v # rest \<Rightarrow> or_exit (parse_flags ParseInt rest) (set_value ParseInt name v fs)))))"

section \<open>Commands\<close>

record CliCommand =
  Name :: string
  ParameterFactory :: flags
  Handler :: "flags \<Rightarrow> Client \<Rightarrow> (Client \<times> error option) outcome"

definition VerbosityDebug :: string where "VerbosityDebug = ''debug''"
definition RegisterVerbosityFlag :: "string \<times> flag_value" where "RegisterVerbosityFlag = (''verbosity'', StringFlag ''default'')"
definition DefaultSessionTimeoutMinutes :: int where "DefaultSessionTimeoutMinutes = 120"

text \<open>\<open>time.Duration(minutes) * time.Minute\<close>: nanoseconds in 64 bits.\<close>

definition sessionTimeout :: "int \<Rightarrow> int" where
  "sessionTimeout minutes = sint ((word_of_int minutes :: u64) * 60000000000)"

definition CreateShareCommand ::
  "(string \<Rightarrow> bool \<Rightarrow> int \<Rightarrow> Client \<Rightarrow> (Client \<times> error option) outcome) \<Rightarrow> CliCommand" where
  "CreateShareCommand RunShare =
     \<lparr>Name = ''share'',
      ParameterFactory = [(''targetDevice'', StringFlag []), (''yes'', BoolFlag False),
        (''sessionTimeout'', IntFlag DefaultSessionTimeoutMinutes), RegisterVerbosityFlag, (''help'', BoolFlag False)],
      Handler = (\<lambda>args. RunShare (string_flag ''targetDevice'' args) (bool_flag ''yes'' args)
        (sessionTimeout (int_flag ''sessionTimeout'' args)))\<rparr>"

definition CreateConnectCommand ::
  "string \<Rightarrow> (string \<Rightarrow> string \<Rightarrow> Client \<Rightarrow> (Client \<times> error option) outcome) \<Rightarrow> CliCommand" where
  "CreateConnectCommand default_port RunConnect =
     \<lparr>Name = ''connect'',
      ParameterFactory = [(''targetRoomId'', StringFlag []), (''port'', StringFlag default_port), RegisterVerbosityFlag,
        (''help'', BoolFlag False)],
      Handler = (\<lambda>args. RunConnect (string_flag ''targetRoomId'' args) (string_flag ''port'' args))\<rparr>"

definition findCommand :: "CliCommand list \<Rightarrow> string \<Rightarrow> CliCommand option" where
  "findCommand commands name = List.find (\<lambda>c. Name c = name) commands"

text \<open>
  What a run of the program comes to.  \<open>new_file\<close> and \<open>dialled\<close> are the results of creating the capture file
  and of dialling the transporter; the client is closed when the handler returns.
\<close>

datatype run = PrintsHelp | PrintsUsage | ExitsWith nat | FailsToStart error | Handled "error option"

definition ParseCommand ::
  "(string \<Rightarrow> int option) \<Rightarrow> error + net_conn \<Rightarrow> error + net_conn \<Rightarrow> CliCommand list \<Rightarrow> string list \<Rightarrow> Client \<Rightarrow>
   (Client \<times> run) outcome" where
  "ParseCommand ParseInt new_file dialled commands args c =
     (case args of
        program # name # rest \<Rightarrow>
          (case findCommand commands name of
             None \<Rightarrow> Ret (c, PrintsHelp)
           | Some command \<Rightarrow>
             (case parse_flags ParseInt rest (ParameterFactory command) of
                Exits code \<Rightarrow> Ret (c, ExitsWith code)
              | Parsed fs \<Rightarrow>
                if bool_flag ''help'' fs then Ret (c, PrintsUsage)
                else
                  (case (if string_flag ''verbosity'' fs = VerbosityDebug then EnableDebugCapture new_file c else (c, None)) of
                     (c1, Some e) \<Rightarrow> Ret (c1, FailsToStart e)
                   | (c1, None) \<Rightarrow>
                     (case Start dialled c1 of
                        (c2, Some e) \<Rightarrow> Ret (c2, FailsToStart e)
                      | (c2, None) \<Rightarrow>
                        andThen (Handler command fs c2) (\<lambda>(c3, err). Ret (Client_Close c3, Handled err))))))
      | _ \<Rightarrow> Ret (c, PrintsHelp))"

section \<open>Properties\<close>

text \<open>
  The session timeout is what the user asked for up to 153722867 minutes (292 years), and not positive for \<open>-1\<close>
  and every other negative number of the same size; beyond, the product wraps: one more minute disables
  the timer, and one less on the negative side starts one.
\<close>

theorem sessionTimeout_range:
  "(\<bar>minutes\<bar> \<le> 153722867 \<longrightarrow> sessionTimeout minutes = minutes * 60000000000) \<and>
   sessionTimeout 153722868 < 0 \<and> sessionTimeout (- 153722868) > 0"
proof -
  have w: "word_of_int i * 60000000000 = (word_of_int (i * 60000000000) :: u64)" for i by simp
  have eq: "sessionTimeout i = signed_take_bit 63 (i * 60000000000)" for i
    unfolding sessionTimeout_def w sint_sbintrunc' by simp
  have "sessionTimeout minutes = minutes * 60000000000" if "\<bar>minutes\<bar> \<le> 153722867"
    unfolding eq by (rule signed_take_bit_int_eq_self) (use that in simp_all)
  then show ?thesis unfolding eq by (simp add: signed_take_bit_eq_take_bit_shift take_bit_eq_mod)
qed

text \<open>The handler runs only for a known command with flags that parse, when no help was asked for and the
  transporter was reached, and then the client's connection is closed when it returns.\<close>

theorem handler_runs_iff:
  assumes "ParseCommand ParseInt new_file dialled commands (program # name # rest) c = Ret (c', Handled err)"
  shows "\<exists>command fs conn c2 c3. findCommand commands name = Some command \<and>
     parse_flags ParseInt rest (ParameterFactory command) = Parsed fs \<and> \<not> bool_flag ''help'' fs \<and>
     dialled = Inr conn \<and> client_connection c2 = Some conn \<and> reader c2 = Reading \<and>
     Handler command fs c2 = Ret (c3, err) \<and> c' = Client_Close c3"
proof -
  obtain command where cmd: "findCommand commands name = Some command"
    using assms by (cases "findCommand commands name") (simp_all add: ParseCommand_def)
  obtain fs where fs: "parse_flags ParseInt rest (ParameterFactory command) = Parsed fs"
    using assms cmd by (cases "parse_flags ParseInt rest (ParameterFactory command)") (simp_all add: ParseCommand_def)
  have no_help: "\<not> bool_flag ''help'' fs" using assms cmd fs by (auto simp: ParseCommand_def)
  obtain c1 res where captured: "(if string_flag ''verbosity'' fs = VerbosityDebug then EnableDebugCapture new_file c else (c, None)) = (c1, res)"
    by (rule prod.exhaust)
  have res: "res = None" using assms cmd fs no_help by (cases res) (simp_all add: ParseCommand_def captured)
  note run = assms [unfolded ParseCommand_def, simplified cmd fs no_help captured res, simplified]
  obtain conn where d: "dialled = Inr conn" using run by (cases dialled) (simp_all add: cmd fs no_help captured res Start_def)
  let ?c2 = "c1\<lparr>client_connection := Some conn, ctx_done := False, reader := Reading\<rparr>"
  obtain c3 e where h: "Handler command fs ?c2 = Ret (c3, e)" "c' = Client_Close c3" "e = err"
    using run by (auto simp: cmd fs no_help captured res d Start_def andThen_eq_Ret)
  show ?thesis
    by (intro exI [of _ command] exI [of _ fs] exI [of _ conn] exI [of _ ?c2] exI [of _ c3])
      (use cmd fs no_help d h in simp)
qed

end
