(* ===== verification/Pretty_Log.thy ===== *)
theory Pretty_Log
  imports Prelude
begin

text \<open>
  \<open>shared/prettyLogHandler/pretty_log_handler.go\<close>: the log handler of both programs.  The JSON handler it wraps and
  the JSON package are arguments (\<open>json_env\<close>); what the wrapped handler writes goes through one scratch buffer
  that all handlers derived from one another share.  The mutex makes \<open>Handle\<close> one atomic step.
\<close>

section \<open>Data\<close>

record log_record =
  log_time :: int
  log_level :: int
  log_message :: string

text \<open>
  \<open>inner_Handle\<close> is what the wrapped handler writes for a record, and its error; \<open>Unmarshal\<close> and
  \<open>MarshalIndent\<close> are \<open>json\<close>'s, \<open>format_time\<close> is \<open>Time.Format\<close>.
\<close>

record ('h, 'attrs) json_env =
  inner_Handle :: "'h \<Rightarrow> log_record \<Rightarrow> string \<times> error option"
  Unmarshal :: "string \<Rightarrow> error + 'attrs"
  MarshalIndent :: "'attrs \<Rightarrow> error + string"
  format_time :: "int \<Rightarrow> string"
  inner_WithAttrs :: "(string \<times> string) list \<Rightarrow> 'h \<Rightarrow> 'h"
  inner_WithGroup :: "string \<Rightarrow> 'h \<Rightarrow> 'h"
  inner_Enabled :: "'h \<Rightarrow> int \<Rightarrow> bool"

text \<open>What the handlers share: the scratch buffer and what was written to the log.\<close>

record log_state =
  log_buffer :: string
  log_output :: string

section \<open>Formatting\<close>

definition reset :: string where "reset = [CHR 0x1B] @ ''[0m''"

definition cyan :: nat where "cyan = 36"
definition lightGray :: nat where "lightGray = 37"
definition darkGray :: nat where "darkGray = 90"
definition lightRed :: nat where "lightRed = 91"
definition lightYellow :: nat where "lightYellow = 93"
definition white :: nat where "white = 97"

definition colorize :: "nat \<Rightarrow> string \<Rightarrow> string" where
  "colorize colorCode v = [CHR 0x1B] @ ''['' @ decimal colorCode @ ''m'' @ v @ reset"

text \<open>\<open>slog\<close>'s levels and their names, with the distance to the level below.\<close>

definition LevelDebug :: int where "LevelDebug = -4"
definition LevelInfo :: int where "LevelInfo = 0"
definition LevelWarn :: int where "LevelWarn = 4"
definition LevelError :: int where "LevelError = 8"

definition level_offset :: "string \<Rightarrow> int \<Rightarrow> string" where
  "level_offset base d =
     (if d = 0 then base else if d > 0 then base @ ''+'' @ decimal (nat d) else base @ ''-'' @ decimal (nat (- d)))"

definition level_name :: "int \<Rightarrow> string" where
  "level_name l =
     (if l < LevelInfo then level_offset ''DEBUG'' (l - LevelDebug)
      else if l < LevelWarn then level_offset ''INFO'' (l - LevelInfo)
      else if l < LevelError then level_offset ''WARN'' (l - LevelWarn)
      else level_offset ''ERROR'' (l - LevelError))"

definition colored_level :: "int \<Rightarrow> string" where
  "colored_level l =
     (let level = level_name l @ '':'' in
      if l = LevelDebug then colorize darkGray level
      else if l = LevelInfo then colorize cyan level
      else if l = LevelWarn then colorize lightYellow level
      else if l = LevelError then colorize lightRed level
      else level)"

text \<open>\<open>None\<close> is the empty attribute, which the JSON handler leaves out.\<close>

definition suppressDefaults ::
  "(string list \<Rightarrow> string \<times> 'v \<Rightarrow> (string \<times> 'v) option) option \<Rightarrow> string list \<Rightarrow> string \<times> 'v \<Rightarrow> (string \<times> 'v) option" where
  "suppressDefaults next_replace groups a =
     (if fst a \<in> {''time'', ''level'', ''msg''} then None
      else (case next_replace of None \<Rightarrow> Some a | Some f \<Rightarrow> f groups a))"

section \<open>The handler\<close>

definition computeAttrs :: "('h, 'attrs) json_env \<Rightarrow> 'h \<Rightarrow> log_record \<Rightarrow> log_state \<Rightarrow> log_state \<times> (error + 'attrs)" where
  "computeAttrs env h r st =
     (case inner_Handle env h r of (written, err) \<Rightarrow>
      let buffered = log_buffer st @ written;
          res = (case err of Some e \<Rightarrow> Inl (ErrLogHandle e)
            | None \<Rightarrow> (case Unmarshal env buffered of Inl e \<Rightarrow> Inl (ErrLogUnmarshal e) | Inr attrs \<Rightarrow> Inr attrs)) in
      (st\<lparr>log_buffer := []\<rparr>, res))"

definition log_line :: "('h, 'attrs) json_env \<Rightarrow> log_record \<Rightarrow> string \<Rightarrow> string" where
  "log_line env r attrs_text =
     colorize lightGray (format_time env (log_time r)) @ '' '' @ colored_level (log_level r) @ '' '' @
     colorize white (log_message r) @ '' '' @ colorize darkGray attrs_text @ [CHR 0x0A]"

definition Handle :: "('h, 'attrs) json_env \<Rightarrow> 'h \<Rightarrow> log_record \<Rightarrow> log_state \<Rightarrow> log_state \<times> error option" where
  "Handle env h r st =
     (case computeAttrs env h r st of
        (st1, Inl e) \<Rightarrow> (st1, Some e)
      | (st1, Inr attrs) \<Rightarrow>
        (case MarshalIndent env attrs of
           Inl e \<Rightarrow> (st1, Some (ErrLogMarshal e))
         | Inr text \<Rightarrow> (st1\<lparr>log_output := log_output st1 @ log_line env r text\<rparr>, None)))"

definition Enabled :: "('h, 'attrs) json_env \<Rightarrow> 'h \<Rightarrow> int \<Rightarrow> bool" where
  "Enabled env h level = inner_Enabled env h level"

definition WithAttrs :: "('h, 'attrs) json_env \<Rightarrow> (string \<times> string) list \<Rightarrow> 'h \<Rightarrow> 'h" where
  "WithAttrs env attrs h = inner_WithAttrs env attrs h"

definition WithGroup :: "('h, 'attrs) json_env \<Rightarrow> string \<Rightarrow> 'h \<Rightarrow> 'h" where
  "WithGroup env name h = inner_WithGroup env name h"

section \<open>Building a handler\<close>

text \<open>
  The options of \<open>slog\<close>'s handlers.  \<open>NewJSONHandler\<close> is the library's constructor, \<open>Stdout\<close> the process's
  standard output; the scratch buffer begins empty.
\<close>

record 'v HandlerOptions =
  opt_Level :: "int option"
  opt_AddSource :: bool
  opt_ReplaceAttr :: "(string list \<Rightarrow> string \<times> 'v \<Rightarrow> (string \<times> 'v) option) option"

definition no_options :: "'v HandlerOptions" where
  "no_options = \<lparr>opt_Level = None, opt_AddSource = False, opt_ReplaceAttr = None\<rparr>"

definition CreatePrettyHandler ::
  "('v HandlerOptions \<Rightarrow> 'h) \<Rightarrow> 'w \<Rightarrow> 'w option \<Rightarrow> 'v HandlerOptions option \<Rightarrow> 'w \<times> 'h \<times> string" where
  "CreatePrettyHandler NewJSONHandler Stdout writer opts =
     (let w = (case writer of None \<Rightarrow> Stdout | Some w \<Rightarrow> w);
          os = (case opts of None \<Rightarrow> no_options | Some os \<Rightarrow> os) in
      (w, NewJSONHandler \<lparr>opt_Level = opt_Level os, opt_AddSource = opt_AddSource os,
          opt_ReplaceAttr = Some (suppressDefaults (opt_ReplaceAttr os))\<rparr>, []))"

text \<open>
  Whatever the options, the wrapped handler hides the three attributes the line shows already, applies the caller's
  replacement to every other one and to nothing else, and keeps the caller's level.
\<close>

theorem created_handler_options:
  "\<exists>replace. CreatePrettyHandler (\<lambda>os. os) Stdout writer opts =
     (case writer of None \<Rightarrow> Stdout | Some w \<Rightarrow> w,
      \<lparr>opt_Level = (case opts of None \<Rightarrow> None | Some os \<Rightarrow> opt_Level os),
       opt_AddSource = (case opts of None \<Rightarrow> False | Some os \<Rightarrow> opt_AddSource os), opt_ReplaceAttr = Some replace\<rparr>, []) \<and>
     (\<forall>groups k v. replace groups (k, v) =
        (if k \<in> {''time'', ''level'', ''msg''} then None
         else case opts of None \<Rightarrow> Some (k, v)
           | Some os \<Rightarrow> (case opt_ReplaceAttr os of None \<Rightarrow> Some (k, v) | Some f \<Rightarrow> f groups (k, v))))"
  by (cases opts) (auto simp: CreatePrettyHandler_def Let_def no_options_def suppressDefaults_def split: option.splits)

section \<open>Records do not mix\<close>

text \<open>What one call writes, on its own.\<close>

definition line_of :: "('h, 'attrs) json_env \<Rightarrow> 'h \<times> log_record \<Rightarrow> string" where
  "line_of env hr =
     (case inner_Handle env (fst hr) (snd hr) of
        (written, Some e) \<Rightarrow> []
      | (written, None) \<Rightarrow>
        (case Unmarshal env written of Inl e \<Rightarrow> []
         | Inr attrs \<Rightarrow> (case MarshalIndent env attrs of Inl e \<Rightarrow> [] | Inr text \<Rightarrow> log_line env (snd hr) text)))"

lemma Handle_alone:
  "log_buffer st = [] \<Longrightarrow>
   fst (Handle env h r st) = st\<lparr>log_output := log_output st @ line_of env (h, r)\<rparr>"
  by (simp add: Handle_def computeAttrs_def line_of_def Let_def split: prod.split option.split sum.split)

text \<open>
  The shared buffer is not seen: any calls of any handlers, failing ones among them, write exactly what each
  would have written on its own, in order, and leave the buffer empty.
\<close>

theorem log_calls_do_not_mix:
  assumes "log_buffer st = []"
  shows "fold (\<lambda>(h, r) st. fst (Handle env h r st)) calls st =
     st\<lparr>log_output := log_output st @ concat (map (line_of env) calls)\<rparr>"
  using assms
proof (induction calls arbitrary: st)
  case (Cons c calls)
  obtain h r where "c = (h, r)" by (cases c)
  with Cons Handle_alone [OF Cons.prems, of env h r] show ?case by simp
qed simp

end
