(* ===== verification/Transporter_Server.thy ===== *)
theory Transporter_Server
  imports Reader_Properties Room_Properties Key_Files
begin

text \<open>
  The transporter as a process: \<open>StartServer\<close> with its certificate, listener and accept loop, the
  goroutine of each connection with its \<open>recover\<close>, the room manager's loop with
  \<open>dispatchMessageSafely\<close>, and both \<open>Stop\<close>s.  The lemmas lift the invariant of \<open>Transporter\<close> to
  the process, and show that the recovers are never used and when \<open>Stop\<close> ends the server.
\<close>

section \<open>Goroutines that recover\<close>

text \<open>
  \<open>run\<close> of a connection (clientConnection.go): the handshake, then one message after the other, until a
  step returns false.  A panic closes the connection; \<open>Panic\<close> carries no state, so the arm
  closes it in the state before the step.  It is shown below that the arm is never taken.
\<close>

definition recovered ::
  "nat \<Rightarrow> ConnectionManager \<Rightarrow> (ConnectionManager \<times> bool) outcome \<Rightarrow> (ConnectionManager \<times> bool) outcome" where
  "recovered cc cm r = (case r of Panic \<Rightarrow> closing cc cm | _ \<Rightarrow> r)"

fun client_turn :: "bytes \<Rightarrow> nat \<Rightarrow> reader \<Rightarrow> ConnectionManager \<Rightarrow> (ConnectionManager \<times> bool) outcome" where
  "client_turn entropy cc Handshaking cm = recovered cc cm (performHandshake entropy cc cm)"
| "client_turn entropy cc Reading cm = recovered cc cm (readNextMessage cc cm)"
| "client_turn entropy cc Finished cm = Ret (cm, False)"

definition dispatchMessageSafely :: "bytes \<Rightarrow> ClientMessageContainer \<Rightarrow> RoomManager \<Rightarrow> RoomManager outcome" where
  "dispatchMessageSafely entropy mc rm =
     (case dispatchMessage entropy mc rm of
        Panic \<Rightarrow> close_client (Sender mc) (dispose_of (Message mc) rm)
      | r \<Rightarrow> r)"

text \<open>
  One turn of the room manager's \<open>run\<close> (roomManager.go): \<open>select\<close> takes a ready arm, \<open>stopped\<close> being
  whether the context was cancelled.  The flag of the result is whether the loop goes on.
\<close>

datatype room_arm = DoneArm | ClientGone | MessageArm bytes

definition goes_on :: "RoomManager outcome \<Rightarrow> (RoomManager \<times> bool) outcome" where
  "goes_on r = andThen r (\<lambda>rm. Ret (rm, True))"

fun room_turn :: "room_arm \<Rightarrow> bool \<Rightarrow> RoomManager \<Rightarrow> (RoomManager \<times> bool) outcome option" where
  "room_turn DoneArm stopped rm = (if stopped then Some (Ret (rm, False)) else None)"
| "room_turn ClientGone stopped rm =
     (case ClientDisconnectedChannel (connectionManager rm) of
        [] \<Rightarrow> None
      | cc # rest \<Rightarrow> Some (goes_on (handleClientDisconnected cc (with_disconnected rest rm))))"
| "room_turn (MessageArm entropy) stopped rm =
     (case ClientMessageChannel (connectionManager rm) of
        [] \<Rightarrow> None
      | mc # rest \<Rightarrow> Some (goes_on (dispatchMessageSafely entropy mc (with_messages rest rm))))"

section \<open>Starting and serving (connectionManager.go)\<close>

text \<open>
  \<open>StartServer\<close> up to the accept loop.  \<open>listen\<close> is the error of \<open>tls.Listen\<close> on an address with a
  certificate, if any; a \<open>tls.Certificate\<close> is its chain of DER blocks.  The fingerprint is only logged.
\<close>

definition StartServer ::
  "(bytes \<Rightarrow> bytes \<Rightarrow> error + bytes list) \<Rightarrow> faults \<Rightarrow> error + bytes \<times> bytes \<Rightarrow> (string \<Rightarrow> bytes list \<Rightarrow> error option) \<Rightarrow>
   TransporterConfiguration \<Rightarrow> files \<Rightarrow> ConnectionManager \<Rightarrow> files \<times> (error + ConnectionManager)" where
  "StartServer pair flt selfSigned listen config fs cm =
     (case LoadOrCreateCertificate pair flt selfSigned (CertPath config) (KeyPath config) fs of
        (fs1, Inl e) \<Rightarrow> (fs1, Inl e)
      | (fs1, Inr cert) \<Rightarrow>
        (case listen (Address config) cert of
           Some e \<Rightarrow> (fs1, Inl e)
         | None \<Rightarrow> (fs1, Inr (cm\<lparr>server := Some True\<rparr>))))"

text \<open>
  One turn of the accept loop, on the result of \<open>Accept\<close>: the flag is whether the loop goes on.
\<close>

fun accept_client :: "error + net_conn \<Rightarrow> transporter \<Rightarrow> transporter \<times> bool" where
  "accept_client (Inl e) s = (s, \<not> cancelled (cmgr s))"
| "accept_client (Inr c) s =
     (with_cm (accept_connection c (cmgr s)) s\<lparr>readers := readers s @ [Handshaking]\<rparr>, True)"

text \<open>What \<open>Accept\<close> may return: a new open connection only while the listener is open.\<close>

fun may_accept :: "bool option \<Rightarrow> error + net_conn \<Rightarrow> bool" where
  "may_accept l (Inl e) \<longleftrightarrow> True"
| "may_accept l (Inr c) \<longleftrightarrow> l = Some True \<and> \<not> conn_closed c"

section \<open>The process\<close>

datatype server_phase = NotStarted | Accepting | Returned "error option"

record server_process =
  live :: transporter
  phase :: server_phase
  rooms_stopped :: bool
  rooms_running :: bool

text \<open>Both managers exist, the room manager's goroutine runs, and \<open>StartServer\<close> was not called yet.\<close>

definition initial_process :: server_process where
  "initial_process =
     \<lparr>live = initial_transporter, phase = NotStarted, rooms_stopped = False, rooms_running = True\<rparr>"

definition after_start :: "server_process \<Rightarrow> error + ConnectionManager \<Rightarrow> server_process" where
  "after_start p res =
     (case res of Inl e \<Rightarrow> p\<lparr>phase := Returned (Some e)\<rparr>
      | Inr cm \<Rightarrow> p\<lparr>live := with_cm cm (live p), phase := Accepting\<rparr>)"

inductive server_step :: "server_process \<Rightarrow> server_process \<Rightarrow> bool" where
  start: "phase p = NotStarted \<Longrightarrow>
    StartServer pair flt selfSigned listen config fs (cmgr (live p)) = (fs', res) \<Longrightarrow>
    server_step p (after_start p res)"
| accepts: "phase p = Accepting \<Longrightarrow> may_accept (server (cmgr (live p))) accepted \<Longrightarrow>
    accept_client accepted (live p) = (s, more_to_come) \<Longrightarrow>
    server_step p (p\<lparr>live := s, phase := if more_to_come then Accepting else Returned None\<rparr>)"
| client: "cc < length (clients (cmgr (live p))) \<Longrightarrow> readers (live p) ! cc \<noteq> Finished \<Longrightarrow>
    GenerateClientId entropy = Ret (newId, rest) \<Longrightarrow>
    client_turn entropy cc (readers (live p) ! cc) (cmgr (live p)) = Ret (cm, ok) \<Longrightarrow>
    server_step p (p\<lparr>live := with_cm cm (live p)
      \<lparr>readers := (readers (live p))[cc := if ok then Reading else Finished]\<rparr>\<rparr>)"
| peer: "cc < length (clients (cmgr (live p))) \<Longrightarrow> network_moves (conn_of cc (cmgr (live p))) c \<Longrightarrow>
    server_step p (p\<lparr>live := with_cm (set_conn cc c (cmgr (live p))) (live p)\<rparr>)"
| room: "rooms_running p \<Longrightarrow> GenerateClientId entropy = Ret (newId, rest) \<Longrightarrow>
    arm \<in> {DoneArm, ClientGone, MessageArm entropy} \<Longrightarrow>
    room_turn arm (rooms_stopped p) (manager (live p)) = Some (Ret (rm, go_on)) \<Longrightarrow>
    server_step p (p\<lparr>live := (live p)\<lparr>manager := rm\<rparr>, rooms_running := go_on\<rparr>)"
| stop_rooms: "server_step p (p\<lparr>rooms_stopped := True\<rparr>)"
| stop_server: "server_step p (p\<lparr>live := with_cm (stop_listener (cmgr (live p))) (live p)\<rparr>)"
| stop_client: "cancelled (cmgr (live p)) \<Longrightarrow> cc < length (clients (cmgr (live p))) \<Longrightarrow>
    Close cc (cmgr (live p)) = Ret cm \<Longrightarrow>
    server_step p (p\<lparr>live := with_cm cm (live p)\<rparr>)"

inductive server_reachable :: "server_process \<Rightarrow> bool" where
  start: "server_reachable initial_process"
| step: "server_reachable p \<Longrightarrow> server_step p q \<Longrightarrow> server_reachable q"

inductive_cases server_stepE: "server_step p q"

section \<open>The invariant of the process\<close>

lemma recovered_returns [simp]: "r \<noteq> Panic \<Longrightarrow> recovered cc cm r = r"
  by (cases r) (simp_all add: recovered_def)

lemma client_never_panics:
  assumes "transporter_ok s" "cc < length (clients (cmgr s))" "GenerateClientId entropy = Ret (newId, rest)"
  shows "performHandshake entropy cc (cmgr s) \<noteq> Panic" "readNextMessage cc (cmgr s) \<noteq> Panic"
proof -
  have ok: "cm_ok wf_message (cmgr s)" using assms(1) by (simp add: transporter_ok_def rm_ok_def)
  show "performHandshake entropy cc (cmgr s) \<noteq> Panic"
    by (rule safe_no_panic [OF performHandshake_keeps [OF ok assms(2,3)]])
  show "readNextMessage cc (cmgr s) \<noteq> Panic"
    by (rule safe_no_panic [OF readNextMessage_keeps [OF ok assms(2)]])
qed

lemma dispatch_safely_is_dispatch:
  assumes "transporter_ok s" "ClientMessageChannel (cmgr s) = mc # q" "GenerateClientId entropy = Ret (newId, rest)"
  shows "dispatchMessage entropy mc (with_messages q (manager s)) \<noteq> Panic"
    "dispatchMessageSafely entropy mc (with_messages q (manager s)) = dispatchMessage entropy mc (with_messages q (manager s))"
proof -
  show np: "dispatchMessage entropy mc (with_messages q (manager s)) \<noteq> Panic"
    using assms(1) by (intro safe_no_panic [OF dispatch_keeps [OF _ _ assms(2,3)]]) (simp_all add: transporter_ok_def)
  then show "dispatchMessageSafely entropy mc (with_messages q (manager s)) = dispatchMessage entropy mc (with_messages q (manager s))"
    by (simp add: dispatchMessageSafely_def split: outcome.split)
qed

lemma goes_on_Ret: "goes_on r = Ret (rm, b) \<longleftrightarrow> r = Ret rm \<and> b"
  by (cases r) (auto simp: goes_on_def)

lemma room_turn_keeps:
  assumes "transporter_ok s" "GenerateClientId entropy = Ret (newId, rest)"
    and "arm \<in> {DoneArm, ClientGone, MessageArm entropy}"
    and "room_turn arm stopped (manager s) = Some (Ret (rm, go_on))"
  shows "transporter_ok (s\<lparr>manager := rm\<rparr>)"
proof (cases arm)
  case DoneArm
  with assms(1,4) show ?thesis by (auto split: if_splits)
next
  case ClientGone
  with assms(4) have "run_turn Disconnected (manager s) = Some (Ret rm)"
    by (auto simp: goes_on_Ret split: list.splits)
  then show ?thesis using step_keeps [OF transporter_step.disconnected assms(1)] by simp
next
  case (MessageArm entropy')
  with assms(3) have "arm = MessageArm entropy" by simp
  with assms(4) obtain mc q where q: "ClientMessageChannel (cmgr s) = mc # q"
    "dispatchMessageSafely entropy mc (with_messages q (manager s)) = Ret rm"
    by (auto simp: goes_on_Ret split: list.splits)
  with dispatch_safely_is_dispatch [OF assms(1) q(1) assms(2)]
  have "run_turn (Arrived entropy) (manager s) = Some (Ret rm)" by simp
  then show ?thesis using step_keeps [OF transporter_step.arrived [OF assms(2)] assms(1)] by simp
qed

lemma StartServer_result:
  assumes "StartServer pair flt selfSigned listen config fs cm = (fs', Inr cm')"
  shows "cm' = cm\<lparr>server := Some True\<rparr>"
  using assms by (auto simp: StartServer_def split: prod.splits sum.splits option.splits)

lemma listener_keeps:
  assumes "transporter_ok s"
  shows "transporter_ok (with_cm (cmgr s\<lparr>server := l\<rparr>) s)"
  using assms
  by (intro transporter_ok_with_cm)
    (simp_all add: transporter_ok_def rm_ok_def cm_ok_def registered_ok_def pending_ok_def
      conn_of_def GetClientId_def buffers_accounted_def)

lemma client_turn_keeps:
  assumes "transporter_ok s" "cc < length (clients (cmgr s))" "readers s ! cc \<noteq> Finished"
    and id: "GenerateClientId entropy = Ret (newId, rest)"
    and turn: "client_turn entropy cc (readers s ! cc) (cmgr s) = Ret (cm, ok)"
  shows "transporter_step s (with_cm cm s\<lparr>readers := (readers s)[cc := if ok then Reading else Finished]\<rparr>)"
proof (cases "readers s ! cc")
  case Handshaking
  with turn client_never_panics(1) [OF assms(1,2) id] have "performHandshake entropy cc (cmgr s) = Ret (cm, ok)" by simp
  with Handshaking show ?thesis by (intro transporter_step.handshake [OF assms(2) _ id])
next
  case Reading
  with turn client_never_panics(2) [OF assms(1,2) id] have "readNextMessage cc (cmgr s) = Ret (cm, ok)" by simp
  with Reading show ?thesis by (intro transporter_step.read [OF assms(2)])
qed (use assms(3) in simp)

lemma server_step_keeps:
  assumes "server_step p q" "transporter_ok (live p)"
  shows "transporter_ok (live q)"
  using assms(1)
proof cases
  case (start pair flt selfSigned listen config fs fs' res)
  then show ?thesis
    using assms(2) by (cases res) (auto simp: after_start_def dest!: StartServer_result intro: listener_keeps)
next
  case (accepts accepted s more_to_come)
  then show ?thesis using assms(2) accept_keeps by (cases accepted) auto
next
  case (client cc entropy newId rest cm ok)
  from client_turn_keeps [OF assms(2) client(2,3,4,5)] client(1) assms(2) show ?thesis
    by (simp add: step_keeps)
next
  case (peer cc c)
  then show ?thesis using assms(2) network_keeps by simp
next
  case (room entropy newId rest arm rm go_on)
  then show ?thesis using assms(2) room_turn_keeps [of "live p"] by simp
next
  case stop_rooms
  then show ?thesis using assms(2) by simp
next
  case stop_server
  then show ?thesis using assms(2) stopping_keeps by simp
next
  case (stop_client cc cm)
  then show ?thesis using assms(2) stop_close_keeps by simp
qed

lemma server_reachable_ok: "server_reachable p \<Longrightarrow> transporter_ok (live p)"
  by (induction rule: server_reachable.induct) (simp_all add: initial_process_def transporter_ok_initial server_step_keeps)

section \<open>Stopping\<close>

text \<open>
  Closing the registered connections one after the other: each is announced on the channel the
  room manager reads, and the first that finds it full waits.
\<close>

definition closable :: "ConnectionManager \<Rightarrow> nat list \<Rightarrow> bool" where
  "closable cm ccs \<longleftrightarrow> distinct ccs \<and> (\<forall>cc \<in> set ccs. cc < length (clients cm) \<and> cc \<in> set (connections cm) \<and>
     \<not> closeOnce (clients cm ! cc) \<and> \<not> conn_closed (conn_of cc cm))"

lemma closable_next:
  assumes "closable cm (cc # ccs)"
  shows "closable (closed_client cc cm) ccs"
proof -
  have "b \<noteq> cc" if "b \<in> set ccs" for b using that assms by (auto simp: closable_def)
  with assms show ?thesis
    by (auto simp: closable_def closed_client_others conn_of_def in_set_remove1)
qed

lemma close_all_result:
  assumes "closable cm ccs" "length (ClientDisconnectedChannel cm) + length ccs \<le> ConnectionPoolSize"
  shows "close_all ccs cm = Ret (fold closed_client ccs cm)"
  using assms
proof (induction ccs arbitrary: cm)
  case (Cons cc ccs)
  have "Close cc cm = Ret (closed_client cc cm)"
    using Cons.prems by (simp add: Close_def internalClose_result closable_def)
  with Cons.IH [OF closable_next [OF Cons.prems(1)]] Cons.prems(2) show ?case by simp
qed simp

lemma close_all_blocked:
  assumes "closable cm ccs" "ccs \<noteq> []" "ConnectionPoolSize < length (ClientDisconnectedChannel cm) + length ccs"
  shows "close_all ccs cm = Blocked"
  using assms
proof (induction ccs arbitrary: cm)
  case (Cons cc ccs)
  show ?case
  proof (cases "length (ClientDisconnectedChannel cm) < ConnectionPoolSize")
    case True
    then have "Close cc cm = Ret (closed_client cc cm)"
      using Cons.prems by (simp add: Close_def internalClose_result closable_def)
    with Cons.IH [OF closable_next [OF Cons.prems(1)]] Cons.prems(3) True show ?thesis by (cases ccs) simp_all
  next
    case False
    then have "Close cc cm = Blocked"
      using Cons.prems(1) by (simp add: Close_def internalClose_blocked closable_def)
    then show ?thesis by simp
  qed
qed simp

lemma closed_client_listener [simp]: "listener (closed_client cc cm) = listener cm"
  by (simp add: closed_client_def)

lemma fold_closed:
  "listener (fold closed_client ccs cm) = listener cm"
  "ClientDisconnectedChannel (fold closed_client ccs cm) = ClientDisconnectedChannel cm @ ccs"
  "connections (fold closed_client ccs cm) = fold remove1 ccs (connections cm)"
  by (induction ccs arbitrary: cm) simp_all

lemma fold_remove1_append: "fold remove1 xs (xs @ ys) = ys"
  by (induction xs) simp_all

lemma fold_closed_conn:
  assumes "closable cm ccs"
  shows "length (clients (fold closed_client ccs cm)) = length (clients cm) \<and>
    (\<forall>b < length (clients cm). conn_closed (conn_of b (fold closed_client ccs cm)) \<longleftrightarrow>
       b \<in> set ccs \<or> conn_closed (conn_of b cm))"
  using assms
proof (induction ccs arbitrary: cm)
  case (Cons cc ccs)
  have cc: "cc < length (clients cm)" using Cons.prems by (simp add: closable_def)
  then have self: "conn_closed (conn_of cc (closed_client cc cm))"
    by (simp add: conn_of_def closed_client_def upd_client_def)
  have "conn_closed (conn_of b (closed_client cc cm)) \<longleftrightarrow> b = cc \<or> conn_closed (conn_of b cm)" for b
    using self closed_client_others [of b cc cm] by (cases "b = cc") (simp_all add: conn_of_def)
  with Cons.IH [OF closable_next [OF Cons.prems]] show ?case by auto
qed simp

text \<open>
  \<open>Stop\<close> without anybody taking from the channel: it closes every connection, announces each, and
  leaves the listener closed, as long as the channel holds them all; one more and it waits for
  ever, the connections not yet reached still open.
\<close>

theorem Stop_returns_iff:
  assumes "cm_ok wf_message cm" "\<forall>cc \<in> set (connections cm). \<not> closeOnce (clients cm ! cc)"
  shows "if connections cm = [] \<or> length (ClientDisconnectedChannel cm) + length (connections cm) \<le> 10
    then \<exists>cm'. Stop cm = Ret cm' \<and> connections cm' = [] \<and>
      (\<forall>b < length (clients cm). conn_closed (conn_of b cm')) \<and>
      ClientDisconnectedChannel cm' = ClientDisconnectedChannel cm @ connections cm \<and>
      cancelled cm' \<and> server cm' \<noteq> Some True
    else Stop cm = Blocked"
proof -
  let ?cm = "stop_listener cm" and ?ccs = "connections cm"
  have reg: "\<forall>b < length (clients cm). b \<in> set ?ccs \<longleftrightarrow> \<not> conn_closed (conn_of b cm)"
    using assms(1) by (simp add: cm_ok_def registered_ok_def)
  have "closable ?cm ?ccs"
    using assms unfolding cm_ok_def registered_ok_def closable_def
    by (auto simp: stop_listener_def conn_of_def)
  note c = this
  show ?thesis
  proof (cases "?ccs = [] \<or> length (ClientDisconnectedChannel cm) + length ?ccs \<le> 10")
    case True
    have same: "ClientDisconnectedChannel ?cm = ClientDisconnectedChannel cm" "connections ?cm = ?ccs @ []"
      "clients ?cm = clients cm" "conn_of b ?cm = conn_of b cm" for b
      by (simp_all add: stop_listener_def conn_of_def)
    have l: "listener (fold closed_client ?ccs ?cm) = (map_option (\<lambda>_. False) (server cm), True)"
      unfolding fold_closed by (simp add: listener_def stop_listener_def)
    have "Stop cm = Ret (fold closed_client ?ccs ?cm)"
      using True close_all_result [OF c] unfolding Stop_def same(1)
      by (cases "?ccs") (simp_all add: ConnectionPoolSize_def)
    moreover have "connections (fold closed_client ?ccs ?cm) = []"
      unfolding fold_closed same(2) by (rule fold_remove1_append)
    moreover have "\<forall>b < length (clients cm). conn_closed (conn_of b (fold closed_client ?ccs ?cm))"
      using fold_closed_conn [OF c] reg unfolding same by blast
    ultimately show ?thesis
      using True l by (cases "server cm") (simp_all add: fold_closed(2) same(1) listener_def)
  next
    case False
    then have "Stop cm = Blocked"
      unfolding Stop_def by (intro close_all_blocked [OF c]) (simp_all add: ConnectionPoolSize_def stop_listener_def)
    with False show ?thesis by simp
  qed
qed

section \<open>The listener over the steps\<close>

lemma keeps_listener:
  assumes "transporter_ok s"
  shows "cc < length (clients (cmgr s)) \<Longrightarrow> GenerateClientId entropy = Ret (newId, rest) \<Longrightarrow>
      r \<noteq> Finished \<Longrightarrow> client_turn entropy cc r (cmgr s) = Ret (cm, ok) \<Longrightarrow>
      listener cm = listener (cmgr s) \<and> length (clients cm) = length (clients (cmgr s))"
    "GenerateClientId entropy = Ret (newId, rest) \<Longrightarrow> arm \<in> {DoneArm, ClientGone, MessageArm entropy} \<Longrightarrow>
      room_turn arm stopped (manager s) = Some (Ret (rm, go_on)) \<Longrightarrow>
      listener (connectionManager rm) = listener (cmgr s) \<and>
      length (clients (connectionManager rm)) = length (clients (cmgr s))"
    "cc < length (clients (cmgr s)) \<Longrightarrow> Close cc (cmgr s) = Ret cm \<Longrightarrow>
      listener cm = listener (cmgr s) \<and> length (clients cm) = length (clients (cmgr s))"
proof -
  have ok: "cm_ok wf_message (cmgr s)" "rm_ok wf_message (manager s)" "buffers_accounted (cmgr s)"
    using assms by (simp_all add: transporter_ok_def rm_ok_def)
  {
    assume a: "cc < length (clients (cmgr s))" "GenerateClientId entropy = Ret (newId, rest)"
      "r \<noteq> Finished" "client_turn entropy cc r (cmgr s) = Ret (cm, ok)"
    note p = client_never_panics [OF assms a(1,2)]
    from a p performHandshake_keeps [OF ok(1) a(1,2)] readNextMessage_keeps [OF ok(1) a(1)]
    show "listener cm = listener (cmgr s) \<and> length (clients cm) = length (clients (cmgr s))"
      by (cases r) simp_all
  next
    assume a: "GenerateClientId entropy = Ret (newId, rest)" "arm \<in> {DoneArm, ClientGone, MessageArm entropy}"
      "room_turn arm stopped (manager s) = Some (Ret (rm, go_on))"
    from a(2) consider "arm = DoneArm" | "arm = ClientGone" | "arm = MessageArm entropy" by auto
    then show "listener (connectionManager rm) = listener (cmgr s) \<and>
        length (clients (connectionManager rm)) = length (clients (cmgr s))"
    proof cases
      case 1
      with a(3) show ?thesis by (auto split: if_splits)
    next
      case 2
      with a(3) obtain cc q where q: "ClientDisconnectedChannel (cmgr s) = cc # q"
        "handleClientDisconnected cc (with_disconnected q (manager s)) = Ret rm"
        by (auto simp: goes_on_Ret split: list.splits)
      with disconnected_keeps [OF ok(2,3) q(1)] show ?thesis by simp
    next
      case 3
      with a(3) obtain mc q where q: "ClientMessageChannel (cmgr s) = mc # q"
        "dispatchMessageSafely entropy mc (with_messages q (manager s)) = Ret rm"
        by (auto simp: goes_on_Ret split: list.splits)
      then have "dispatchMessage entropy mc (with_messages q (manager s)) = Ret rm"
        using dispatch_safely_is_dispatch(2) [OF assms q(1) a(1)] by simp
      with dispatch_keeps [OF ok(2,3) q(1) a(1)] show ?thesis by simp
    qed
  next
    assume "cc < length (clients (cmgr s))" "Close cc (cmgr s) = Ret cm"
    with Close_evolves [OF ok(1)] show "listener cm = listener (cmgr s) \<and> length (clients cm) = length (clients (cmgr s))"
      by (fastforce simp: cm_evolves_def)
  }
qed

text \<open>What one step does to the listener, the phase and the number of connections.\<close>

definition listener_moves :: "server_process \<Rightarrow> server_process \<Rightarrow> bool" where
  "listener_moves p q \<longleftrightarrow>
     (phase q = phase p \<and> listener (cmgr (live q)) \<in>
        {listener (cmgr (live p)), listener (stop_listener (cmgr (live p)))} \<and>
      length (clients (cmgr (live q))) = length (clients (cmgr (live p)))) \<or>
     phase p = NotStarted \<or>
     (phase p = Accepting \<and> listener (cmgr (live q)) = listener (cmgr (live p)) \<and>
      (if phase q = Returned None
       then cancelled (cmgr (live p)) \<and> length (clients (cmgr (live q))) = length (clients (cmgr (live p)))
       else phase q = Accepting \<and> (server (cmgr (live p)) = Some True \<or>
         length (clients (cmgr (live q))) = length (clients (cmgr (live p))))))"

lemma server_step_listener:
  assumes "server_step p q" "transporter_ok (live p)"
  shows "listener_moves p q"
  using assms(1)
proof cases
  case (accepts accepted s more_to_come)
  then show ?thesis
    by (cases accepted)
      (auto simp: listener_moves_def accept_connection_def registerConnection_def listener_def)
next
  case (client cc entropy newId rest cm ok)
  from keeps_listener(1) [OF assms(2) client(2,4,3,5)] client(1) show ?thesis by (simp add: listener_moves_def)
next
  case (room entropy newId rest arm rm go_on)
  from keeps_listener(2) [OF assms(2) room(3,4,5)] room(1) show ?thesis by (simp add: listener_moves_def)
next
  case (stop_client cc cm)
  from keeps_listener(3) [OF assms(2) stop_client(3,4)] stop_client(1) show ?thesis by (simp add: listener_moves_def)
qed (simp_all add: listener_moves_def stop_listener_def)

section \<open>Properties\<close>

text \<open>
  C8.  No recover of the transporter is ever used: in every state the process can reach, whatever the
  peers send and however the goroutines, \<open>StartServer\<close> and the two \<open>Stop\<close>s interleave, neither the
  handshake nor the reading of any connection panics, nor the handling of the next queued
  message.  (The entropy source must not fail.)
\<close>

theorem recovers_never_used:
  assumes "server_reachable p" "GenerateClientId entropy = Ret (newId, rest)"
  shows "(\<forall>cc < length (clients (cmgr (live p))).
      performHandshake entropy cc (cmgr (live p)) \<noteq> Panic \<and> readNextMessage cc (cmgr (live p)) \<noteq> Panic) \<and>
    (\<forall>mc q. ClientMessageChannel (cmgr (live p)) = mc # q \<longrightarrow>
      dispatchMessage entropy mc (with_messages q (manager (live p))) \<noteq> Panic)"
proof -
  note ok = server_reachable_ok [OF assms(1)]
  show ?thesis
    using client_never_panics [OF ok _ assms(2)] dispatch_safely_is_dispatch(1) [OF ok _ assms(2)] by blast
qed

text \<open>
  \<open>Stop\<close> ends the server.  Once it was called while the accept loop runs, in every later
  state either \<open>StartServer\<close> has returned without an error, or the loop is still waiting for \<open>Accept\<close> and its very next
  result, which can only be an error, makes it return; and no connection was accepted meanwhile.
\<close>

theorem server_returns_after_stop:
  assumes "server_reachable p" "phase p = Accepting" "server (cmgr (live p)) = Some True"
    and "server_step\<^sup>*\<^sup>* (p\<lparr>live := with_cm (stop_listener (cmgr (live p))) (live p)\<rparr>) q"
  shows "length (clients (cmgr (live q))) = length (clients (cmgr (live p))) \<and>
    (phase q = Returned None \<or>
     phase q = Accepting \<and> (\<forall>accepted. may_accept (server (cmgr (live q))) accepted \<longrightarrow>
       accept_client accepted (live q) = (live q, False)))"
proof -
  let ?p = "p\<lparr>live := with_cm (stop_listener (cmgr (live p))) (live p)\<rparr>"
  have "server_reachable q \<and> length (clients (cmgr (live q))) = length (clients (cmgr (live p))) \<and>
      listener (cmgr (live q)) = (Some False, True) \<and> phase q \<in> {Accepting, Returned None}"
    using assms(4)
  proof (induction rule: rtranclp_induct)
    case base
    have "server_reachable ?p" by (rule server_reachable.step [OF assms(1) server_step.stop_server])
    with assms(2,3) show ?case by (simp add: listener_def stop_listener_def)
  next
    case (step q r)
    then have "listener_moves q r" using server_step_listener server_reachable_ok by blast
    moreover have "listener (stop_listener (cmgr (live q))) = (Some False, True)"
      using step.IH by (simp add: listener_def stop_listener_def)
    moreover have "server_reachable r" using step server_reachable.step by blast
    ultimately show ?case using step.IH by (auto simp: listener_moves_def listener_def split: if_splits)
  qed
  moreover from this have "accept_client accepted (live q) = (live q, False)"
    if "may_accept (server (cmgr (live q))) accepted" for accepted
    using that by (cases accepted) (simp_all add: listener_def)
  ultimately show ?thesis by blast
qed

text \<open>
  A \<open>Stop\<close> that comes before \<open>StartServer\<close> has its listener finds none to close: the server then listens,
  with its context already cancelled, and accepts whoever connects; only an error of \<open>Accept\<close>, which an
  open listener need not give, would end it.
\<close>

theorem early_stop_is_lost:
  assumes "phase p = NotStarted" "server (cmgr (live p)) = None"
    and "p1 = p\<lparr>live := with_cm (stop_listener (cmgr (live p))) (live p)\<rparr>"
    and "StartServer pair flt selfSigned listen config fs (cmgr (live p1)) = (fs', Inr cm)"
    and "\<not> conn_closed c"
  shows "server_step p p1 \<and> server_step p1 (after_start p1 (Inr cm)) \<and> cancelled cm \<and> server cm = Some True \<and>
    (\<exists>q. server_step (after_start p1 (Inr cm)) q \<and> phase q = Accepting \<and>
       clients (cmgr (live q)) = clients cm @ [\<lparr>connection = c, clientId = [], closeOnce = False\<rparr>])"
proof -
  have cm: "cm = cmgr (live p1)\<lparr>server := Some True\<rparr>" by (rule StartServer_result [OF assms(4)])
  let ?s = "after_start p1 (Inr cm)"
  have s: "phase ?s = Accepting" "live ?s = with_cm cm (live p1)" by (simp_all add: after_start_def)
  have "server_step ?s (?s\<lparr>live := fst (accept_client (Inr c) (live ?s)),
      phase := if snd (accept_client (Inr c) (live ?s)) then Accepting else Returned None\<rparr>)"
    by (rule server_step.accepts [OF s(1), of "Inr c"]) (simp_all add: after_start_def cm assms(5))
  moreover have "server_step p1 ?s"
    by (rule server_step.start [OF _ assms(4)]) (simp add: assms(1,3))
  moreover have "server_step p p1" unfolding assms(3) by (rule server_step.stop_server)
  ultimately show ?thesis
    using assms(3) by (auto simp: after_start_def cm stop_listener_def accept_connection_def registerConnection_def intro!: exI)
qed

section \<open>Witnesses\<close>

definition serving :: server_process where
  "serving = after_start initial_process (Inr (cmgr (live initial_process)\<lparr>server := Some True\<rparr>))"

lemma sample_start:
  "StartServer (\<lambda>c k. Inr [c]) no_faults (Inr ([1], [2])) (\<lambda>_ _. None) sample_config Map.empty cm =
    (Map.empty(''transporter-cert.pem'' \<mapsto> [1], ''k'' \<mapsto> [2]), Inr (cm\<lparr>server := Some True\<rparr>))"
  by (simp add: StartServer_def sample_config_def CertPath_def KeyPath_def DefaultTLSCertFile_def
      LoadOrCreateCertificate_def LoadX509KeyPair_def ReadFile_def no_faults_def persist_def WriteFile_def)

lemma serving_reachable: "server_reachable serving"
  unfolding serving_def
  by (rule server_reachable.step [OF server_reachable.start server_step.start [OF _ sample_start]])
    (simp_all add: initial_process_def)

lemma serving_simps [simp]:
  "phase serving = Accepting" "server (cmgr (live serving)) = Some True" "clients (cmgr (live serving)) = []"
  by (simp_all add: serving_def after_start_def initial_process_def initial_transporter_def CreateRoomManager_def
      CreateConnectionManager_def)

definition serving_one :: server_process where
  "serving_one = serving\<lparr>live := fst (accept_client (Inr (fresh_conn [])) (live serving)), phase := Accepting\<rparr>"

lemma serving_one_reachable: "server_reachable serving_one"
proof -
  have "server_step serving (serving\<lparr>live := fst (accept_client (Inr (fresh_conn [])) (live serving)),
      phase := if True then Accepting else Returned None\<rparr>)"
    by (rule server_step.accepts [of _ "Inr (fresh_conn [])"]) simp_all
  then show ?thesis unfolding serving_one_def if_True by (rule server_reachable.step [OF serving_reachable])
qed

theorem recovers_never_used_witness:
  "performHandshake (replicate 8 0) 0 (cmgr (live serving_one)) \<noteq> Panic \<and>
   length (clients (cmgr (live serving_one))) = 1"
proof -
  have "length (clients (cmgr (live serving_one))) = 1"
    by (simp add: serving_one_def accept_connection_def registerConnection_def)
  moreover have "GenerateClientId (replicate 8 0) = Ret (''AAAA0000'', [])" by (rule sample_entropy)
  ultimately show ?thesis
    using recovers_never_used [OF serving_one_reachable, of "replicate 8 0"] by simp
qed

theorem server_returns_after_stop_witness:
  "accept_client (Inl ErrNoCertificate) (with_cm (stop_listener (cmgr (live serving))) (live serving)) =
     (with_cm (stop_listener (cmgr (live serving))) (live serving), False)"
  using server_returns_after_stop [OF serving_reachable _ _ rtranclp.rtrancl_refl]
  by (simp add: stop_listener_def)

theorem Stop_returns_iff_witness:
  "Stop (sample_cm (replicate 11 (fresh_conn []))) = Blocked"
proof -
  let ?cm = "sample_cm (replicate 11 (fresh_conn []))"
  have ok: "cm_ok wf_message ?cm" by (simp add: sample_cm_ok)
  have "distinct (connections ?cm)" using ok by (simp add: cm_ok_def registered_ok_def)
  moreover have set: "set (connections ?cm) = {..<11}" by (simp add: sample_cm_connections)
  ultimately have "length (connections ?cm) = 11" using distinct_card [of "connections ?cm"] by simp
  moreover have "\<forall>cc \<in> set (connections ?cm). \<not> closeOnce (clients ?cm ! cc)"
    unfolding set by (simp add: sample_cm_clients)
  ultimately show ?thesis using Stop_returns_iff [OF ok] by (auto split: if_splits)
qed

theorem early_stop_is_lost_witness:
  "\<exists>p1 q. server_step initial_process p1 \<and> server_step\<^sup>*\<^sup>* p1 q \<and> cancelled (cmgr (live p1)) \<and>
     phase q = Accepting \<and> length (clients (cmgr (live q))) = 1"
proof -
  let ?p1 = "initial_process\<lparr>live := with_cm (stop_listener (cmgr (live initial_process))) (live initial_process)\<rparr>"
  have "phase initial_process = NotStarted" "server (cmgr (live initial_process)) = None"
    "clients (cmgr (live initial_process)) = []" "\<not> conn_closed (fresh_conn [])"
    by (simp_all add: initial_process_def initial_transporter_def CreateRoomManager_def CreateConnectionManager_def)
  note i = this
  from early_stop_is_lost [OF i(1,2) refl sample_start i(4)]
  obtain q where q: "server_step initial_process ?p1"
    "server_step ?p1 (after_start ?p1 (Inr (cmgr (live ?p1)\<lparr>server := Some True\<rparr>)))"
    "server_step (after_start ?p1 (Inr (cmgr (live ?p1)\<lparr>server := Some True\<rparr>))) q"
    "phase q = Accepting" "length (clients (cmgr (live q))) = 1" "cancelled (cmgr (live ?p1))"
    using i(3) by (auto simp: stop_listener_def)
  then have "server_step\<^sup>*\<^sup>* ?p1 q" by auto
  with q show ?thesis by blast
qed

end
