(* ===== verification/Screen_Stages.thy ===== *)
theory Screen_Stages
  imports Share_Flow
begin

text \<open>
  The stages of the owner's screen are numbered constants in \<open>client/tui/share.go\<close>; here they get the
  order of those numbers, and the screen is shown to move forward only: once a device is chosen the picker
  does not come back.
\<close>

definition stage_number :: "shareStage \<Rightarrow> nat" where
  "stage_number st = (case st of
     shareStageLoadingDevices \<Rightarrow> 0 | shareStageSelectDevice \<Rightarrow> 1 | shareStageConnecting \<Rightarrow> 2
   | shareStageRoomActive \<Rightarrow> 3 | shareStageSessionTimeout \<Rightarrow> 4 | shareStageError \<Rightarrow> 5)"

lemma stage_number_inject: "stage_number a = stage_number b \<longleftrightarrow> a = b"
  by (cases a; cases b) (simp_all add: stage_number_def)

instantiation shareStage :: linorder
begin

definition less_eq_shareStage :: "shareStage \<Rightarrow> shareStage \<Rightarrow> bool" where
  "less_eq_shareStage a b \<longleftrightarrow> stage_number a \<le> stage_number b"

definition less_shareStage :: "shareStage \<Rightarrow> shareStage \<Rightarrow> bool" where
  "less_shareStage a b \<longleftrightarrow> stage_number a < stage_number b"

instance
  by standard (auto simp: less_eq_shareStage_def less_shareStage_def stage_number_inject)

end

lemmas stage_order = less_eq_shareStage_def less_shareStage_def stage_number_def

lemma past_the_picker:
  "shareStageConnecting \<le> st \<longleftrightarrow> st \<noteq> shareStageLoadingDevices \<and> st \<noteq> shareStageSelectDevice"
  by (cases st) (simp_all add: stage_order)

fun_cases loadedE: "deliverable s (DevicesLoadedMsg ds e)"

lemma handleOwnerEvent_stage:
  assumes "handleOwnerEvent env e (chans, m) = Ret (chans', m')"
  shows "share_stage m' = share_stage m \<or> share_stage m' = shareStageRoomActive"
  using assms
  by (auto simp: handleOwnerEvent_def Let_def andThen_eq_Ret split: OwnerEventKind.splits if_splits)

lemma answer_key_stage: "answer_key key n (chans, m) = Ret (chans', m') \<Longrightarrow> share_stage m' = share_stage m"
  by (auto simp: answer_key_def andThen_eq_Ret split: if_splits)

lemma Update_moves_forward:
  assumes "share_Update env msg (chans, m) = Ret ((chans', m'), cmd)" "shareStageConnecting \<le> share_stage m"
    and "\<And>ds e. msg \<noteq> DevicesLoadedMsg ds e"
  shows "shareStageConnecting \<le> share_stage m'"
proof (cases msg)
  case (KeyMsg key)
  with assms(1) have "handleKey key (chans, m) = Ret ((chans', m'), cmd)" by (simp add: share_Update_def)
  then show ?thesis
    using assms(2) by (cases rule: handleKey_cases) (auto simp: past_the_picker dest: answer_key_stage)
next
  case (OwnerEventMsg e)
  with assms(1) have "handleOwnerEvent env e (chans, m) = Ret (chans', m')"
    by (auto simp: share_Update_def andThen_eq_Ret)
  from handleOwnerEvent_stage [OF this] assms(2) show ?thesis by (auto simp: past_the_picker)
qed (use assms in \<open>auto simp: share_Update_def past_the_picker\<close>)

text \<open>
  In every state the screen can be in, a step from a stage past the picker leads to a stage past the
  picker: the one message that shows the picker is the answer to a device query, and none is under way.
\<close>

theorem picker_never_returns:
  assumes "share_ok env s" "share_step env s a s'" "shareStageConnecting \<le> share_stage (screen s)"
  shows "shareStageConnecting \<le> share_stage (screen s')"
  using assms(2)
proof cases
  case (delivers msg u cmd)
  obtain chans' m' where u: "u = (chans', m')" by (cases u)
  have "\<not> fetching s > 0" using assms(1,3) by (auto simp: share_ok_def picker_ok_def past_the_picker)
  then have "msg \<noteq> DevicesLoadedMsg ds e" for ds e using delivers(3) by (auto elim: loadedE)
  from Update_moves_forward [OF _ assms(3) this] delivers(4) show ?thesis
    by (simp add: u delivers(2) updated_def)
next
  case (asks r p q n u cmd)
  obtain chans' m' where u: "u = (chans', m')" by (cases u)
  from Update_moves_forward [OF _ assms(3)] asks show ?thesis
    by (simp add: u updated_def join_request_def)
qed (use assms(3) in simp_all)

theorem picker_never_returns_witness:
  "\<exists>s'. share_step env (share_start ''usb'' True ''fp'') (DeviceTaken ''usb'') s' \<and>
     shareStageConnecting \<le> share_stage (screen s')"
proof -
  let ?s = "share_start ''usb'' True ''fp''"
  have "share_step env ?s (DeviceTaken ''usb'')
      (?s\<lparr>flow := Sharing ''usb'', screen := (screen ?s)\<lparr>selectedDevice := []\<rparr>\<rparr>)"
    by (rule share_step.takes_device) (simp_all add: share_start_def newShareModel_def Let_def)
  moreover have "shareStageConnecting \<le> share_stage (screen ?s)"
    by (simp add: share_start_def newShareModel_def Let_def)
  ultimately show ?thesis using picker_never_returns [OF share_ok_start] by blast
qed

end
