(* ===== verification/Session_Owner.thy ===== *)
theory Session_Owner
  imports Owner_Session
begin

text \<open>
  The owner's end of a session: the WRTE messages of the guest for one stream, read off the transporter's
  connection one after the other by the session's loop, end as bytes on the device's connection, each
  acknowledged.
\<close>

section \<open>A client with input to come\<close>

definition client_taking :: "bytes \<Rightarrow> Client \<Rightarrow> bool" where
  "client_taking rest c \<longleftrightarrow> \<not> ctx_done c \<and>
     (\<exists>conn. client_connection c = Some conn \<and> writable conn \<and> inbound conn = rest)"

lemma client_taking_writable: "client_taking rest c \<Longrightarrow> client_writable c"
  by (auto simp: client_taking_def client_writable_def)

interpretation taking: transport_client_up "client_holding p0 a msg" SendAdbMessage client_wire "client_taking rest"
  for p0 a msg rest
proof
  fix c m bs
  assume c: "client_holding p0 a msg c" "client_taking rest c" "AdbBytes m = Ret bs" "length bs \<le> 0xF000"
  then have "good_pool wf_message (messagePool c)" by (simp add: client_holding_def client_ok_def)
  from adb_sender.client_send [OF this client_taking_writable [OF c(2)], of bs] c(4) obtain p where
    "SendAdbMessage m c = Ret ((sent_frame (encode_frame CommandAdbTransport bs) c)\<lparr>messagePool := p\<rparr>, None)"
    by (auto simp: SendAdbMessage_fill [OF c(3)])
  with c(2) show "\<exists>c'. SendAdbMessage m c = Ret (c', None) \<and> client_taking rest c'"
    by (auto simp: client_taking_def)
qed

section \<open>One WRTE\<close>

text \<open>
  \<open>stream_up own i rest s\<close>: the session's loop is reading, \<open>rest\<close> is what it has still to read, and the guest's id \<open>own\<close> is the live stream
  \<open>i\<close>, whose device takes every write.
\<close>

definition stream_up :: "u32 \<Rightarrow> nat \<Rightarrow> bytes \<Rightarrow> owner_session \<Rightarrow> bool" where
  "stream_up own i rest s \<longleftrightarrow> session_ok (messagePool (session_client s)) s \<and> reader (session_client s) = Reading \<and>
     client_taking rest (session_client s) \<and> streams (session_mux s) own = Some i \<and>
     writable (stream_conn (stream_heap (session_mux s) ! i))"

definition device_got :: "nat \<Rightarrow> owner_session \<Rightarrow> bytes" where
  "device_got i s = outbound (stream_conn (stream_heap (session_mux s) ! i))"

lemma session_write_turn:
  assumes s: "stream_up own i (encode_frame CommandAdbTransport (adb_wire AdbCommandWrite g own chk data) @ rest) s"
    and len: "length data \<le> 0x8000"
  shows "\<exists>s'. session_step ownerKey OpenStream s s' \<and> stream_up own i rest s' \<and>
     device_got i s' = device_got i s @ data \<and>
     client_wire (session_client s') = client_wire (session_client s) @ adb_frame AdbCommandOkay own g []"
proof -
  let ?p0 = "messagePool (session_client s)" and ?w = "adb_wire AdbCommandWrite g own chk data"
  have ok: "session_ok ?p0 s" "reader (session_client s) = Reading" "\<not> ctx_done (session_client s)"
    "streams (session_mux s) own = Some i" "writable (stream_conn (stream_heap (session_mux s) ! i))"
    using s by (simp_all add: stream_up_def client_taking_def)
  obtain conn where conn: "client_connection (session_client s) = Some conn" "writable conn"
    "inbound conn = encode_frame CommandAdbTransport ?w @ rest"
    using s by (auto simp: stream_up_def client_taking_def)
  have cok: "client_ok (session_client s)"
    using session_client_live [OF ok(1)] by (simp add: client_live_def client_recv_def)
  have "length ?w \<le> 0xF000" using len by simp
  then have "decode_frame (in_end conn) (inbound conn) = Inr (CommandAdbTransport, ?w, rest)"
    unfolding conn(3) by (rule decode_encode_frame)
  moreover have "\<not> conn_closed conn" using conn(2) by (simp add: writable_def)
  ultimately obtain c1 a where r: "Messages (session_client s) = Ret (c1, Some a)"
    "took_frame (session_client s) c1 a CommandAdbTransport ?w rest"
    using Messages_decodes [OF cok conn(1) _ ok(3,2)] by auto
  let ?s1 = "set_session_client c1 s"
  obtain m where m: "client_holding ?p0 a m c1" "clean_message m" "mux_ok (client_holding ?p0 a m) (session_mux ?s1)"
    "session_client ?s1 = c1"
    by (rule session_receives [OF ok(1) r(1)])
  have data: "Data a (messagePool c1) = Inr m" using m(1) by (simp add: client_holding_def)
  then have frame: "Command m = CommandAdbTransport" "payload_bytes m = ?w"
    using r(2) by (auto simp: took_frame_def holds_frame_def)
  have taking: "client_taking rest c1"
    using r(2) conn ok(3) by (simp add: took_frame_def client_taking_def writable_def)
  have wire1: "client_wire c1 = client_wire (session_client s)"
    using r(2) conn(1) by (simp add: took_frame_def client_wire_def)
  obtain am where am: "DecodeMessage ?w = Ret (Inr am)" "adb_holds am AdbCommandWrite g own chk data"
    using DecodeMessage_wire [of AdbCommandWrite data g own chk] len adb_commands_ok by auto
  note f = adb_holds_fields [OF am(2)]
  have mux1: "stream_heap (session_mux ?s1) = stream_heap (session_mux s)" "streams (session_mux ?s1) own = Some i"
    "tclient (session_mux ?s1) = c1"
    using ok(4) by (simp_all add: set_session_client_def)
  then have live: "i < length (stream_heap (session_mux ?s1))" "ownId (stream_heap (session_mux ?s1) ! i) = own"
    "\<not> stream_done (stream_heap (session_mux ?s1) ! i)"
    using m(3) by (simp_all add: mux_ok_def table_ok_def)
  let ?dc = "stream_conn (stream_heap (session_mux ?s1) ! i)"
  let ?dc1 = "?dc\<lparr>outbound := outbound ?dc @ data\<rparr>"
  have w: "conn_Write ?dc data = (?dc1, length data, None)"
    using ok(5) mux1(1) by (intro conn_Write_writable) simp
  have cs: "can_send (client_holding ?p0 a m) (session_mux ?s1)" using m(3) by (simp add: mux_ok_def)
  obtain mux2 where h: "handleWrite SendAdbMessage g own data (session_mux ?s1) = Ret mux2"
    "same_table mux2 (upd_stream i (\<lambda>st. st\<lparr>stream_conn := ?dc1\<rparr>) (session_mux ?s1))"
    "client_wire (tclient mux2) = client_wire c1 @ adb_frame AdbCommandOkay own g []"
    "client_taking rest (tclient mux2)"
    using taking.write_answer [OF cs _ mux1(2) live w, of rest g] taking by (auto simp: mux1(3))
  have mux2: "mux_ok (client_holding ?p0 a m) mux2"
    using holding.write_moves [OF m(3) h(1)] by (simp add: mux_moves_def)
  let ?s' = "?s1\<lparr>session_mux := dispose_in a mux2\<rparr>"
  have "dispatch_data SendAdbMessage OpenStream (Inr m) (session_mux ?s1) = Ret mux2"
    using m(2) Payload_ok am f(1-3,7) h(1)
    by (auto simp: dispatch_data_def clean_message_def frame(2) dispatch_adb_def adb_command_defs)
  then have "dispatchOwnerMessage OpenStream a ?s1 = Ret ?s'"
    using data frame(1) m(4) mux1(3) by (simp add: dispatchOwnerMessage_def Dispatch_def)
  then have step: "session_step ownerKey OpenStream s ?s'" by (rule session_step.handles [OF r(1)])
  have live2: "client_live ?p0 (tclient (dispose_in a mux2))" "mux_ok (client_live ?p0) (dispose_in a mux2)"
    using mux_ok_dispose_in [OF mux2] by (simp_all add: mux_ok_def can_send_def)
  have c2: "client_holding ?p0 a m (tclient mux2)" using mux2 by (simp add: mux_ok_def can_send_def)
  have tc: "tclient (dispose_in a mux2) = fst (dispose_received a (tclient mux2))"
    "stream_heap (dispose_in a mux2) = stream_heap mux2" "streams (dispose_in a mux2) = streams mux2"
    by (simp_all add: dispose_in_def)
  have leases: "same_leases ?p0 (messagePool (tclient (dispose_in a mux2)))"
    "reader (tclient (dispose_in a mux2)) = Reading"
    using c2 pool_holds_dispose [of a ?p0] by (simp_all add: tc dispose_received_pool client_holding_def)
  have heap: "stream_heap mux2 ! i = (stream_heap (session_mux s) ! i)\<lparr>stream_conn := ?dc1\<rparr>" "streams mux2 own = Some i"
    using h(2) live(1) mux1(1,2) by (simp_all add: same_table_def stream_heap_upd_stream)
  have "session_ok (messagePool (session_client ?s')) ?s'"
    using live2 leases by (simp add: session_client_def) (simp add: mux_ok_def can_send_def client_live_def client_recv_def tc client_ok_def)
  then have "stream_up own i rest ?s'"
    using h(4) leases(2) heap ok(5) mux1(1)
    by (simp add: stream_up_def session_client_def tc client_taking_def dispose_received_pool)
  moreover have "device_got i ?s' = device_got i s @ data"
    using heap mux1(1) by (simp add: device_got_def tc)
  moreover have "client_wire (session_client ?s') = client_wire (session_client s) @ adb_frame AdbCommandOkay own g []"
    using h(3) wire1 by (simp add: session_client_def tc dispose_received_pool)
  ultimately show ?thesis using step by blast
qed

section \<open>A sequence of WRTEs\<close>

text \<open>What the guest's local adb server sends for one stream, and the OKAYs it gets back.\<close>

definition stream_writes :: "u32 \<Rightarrow> u32 \<Rightarrow> (u32 \<times> bytes) list \<Rightarrow> bytes list" where
  "stream_writes g own ds = map (\<lambda>(chk, data). adb_wire AdbCommandWrite g own chk data) ds"

definition stream_okays :: "u32 \<Rightarrow> u32 \<Rightarrow> nat \<Rightarrow> bytes" where
  "stream_okays g own n = concat (replicate n (adb_frame AdbCommandOkay own g []))"

lemma in_stream_writes:
  assumes "w \<in> set (stream_writes g own ds)" "\<forall>(chk, data) \<in> set ds. length data \<le> 0x8000"
  obtains chk data where "w = adb_wire AdbCommandWrite g own chk data" "length data \<le> 0x8000"
  using assms by (auto simp: stream_writes_def)

lemma session_writes:
  assumes "stream_up own i (concat (map (encode_frame CommandAdbTransport) (stream_writes g own ds)) @ rest) s"
    and "\<forall>(chk, data) \<in> set ds. length data \<le> 0x8000"
  shows "\<exists>s'. (session_step ownerKey OpenStream)\<^sup>*\<^sup>* s s' \<and> stream_up own i rest s' \<and>
     device_got i s' = device_got i s @ concat (map snd ds) \<and>
     client_wire (session_client s') = client_wire (session_client s) @ stream_okays g own (length ds)"
  using assms
proof (induction ds arbitrary: s)
  case Nil
  then show ?case by (intro exI [of _ s]) (simp add: stream_writes_def stream_okays_def)
next
  case (Cons d ds)
  obtain chk data where d: "d = (chk, data)" by (cases d)
  let ?frames = "concat (map (encode_frame CommandAdbTransport) (stream_writes g own ds))"
  obtain s1 where s1: "session_step ownerKey OpenStream s s1" "stream_up own i (?frames @ rest) s1"
    "device_got i s1 = device_got i s @ data"
    "client_wire (session_client s1) = client_wire (session_client s) @ adb_frame AdbCommandOkay own g []"
    using session_write_turn [of own i g chk data "?frames @ rest" s ownerKey OpenStream] Cons.prems d
    by (auto simp: stream_writes_def)
  from Cons.IH [OF s1(2)] Cons.prems(2) obtain s2 where s2: "(session_step ownerKey OpenStream)\<^sup>*\<^sup>* s1 s2"
    "stream_up own i rest s2" "device_got i s2 = device_got i s1 @ concat (map snd ds)"
    "client_wire (session_client s2) = client_wire (session_client s1) @ stream_okays g own (length ds)" by auto
  have "(session_step ownerKey OpenStream)\<^sup>*\<^sup>* s s2" using s1(1) s2(1) by (rule converse_rtranclp_into_rtranclp)
  with s1 s2 show ?case by (intro exI [of _ s2]) (simp add: d stream_okays_def)
qed

end
