(* ===== verification/Session_Path.thy ===== *)
theory Session_Path
  imports Transporter_Server Session_Owner
begin

text \<open>
  The whole way of an ADB session: what one client sends crosses the transporter and is written by the
  other.  The transporter's part is a run of its step relation, the reader of one participant and the room manager taking turns.
\<close>

section \<open>One frame\<close>

lemma dispatch_adb_frame:
  assumes ok: "rm_ok wf_message rm" and q: "ClientMessageChannel (connectionManager rm) = [\<lparr>Sender = cc, Message = a\<rparr>]"
    and m: "Data a (transporterMessagePool (connectionManager rm)) = Inr m" "holds_frame m CommandAdbTransport w" "w \<noteq> []"
    and room: "findRoomByParticipant cc rm = Some r" "other_participant cc (room_at r rm) = Some t"
    and out: "writable (conn_of t (connectionManager rm))"
  shows "\<exists>rm'. run_turn (Arrived entropy) rm = Some (Ret rm') \<and>
     Room_Properties.delivered t (encode_frame CommandAdbTransport w) (connectionManager rm) (connectionManager rm') \<and>
     rooms rm' = rooms rm \<and> roomStore rm' = roomStore rm \<and> ClientMessageChannel (connectionManager rm') = []"
proof -
  let ?rm = "with_messages [] rm"
  have same: "transporterMessagePool (connectionManager ?rm) = transporterMessagePool (connectionManager rm)"
    "clients (connectionManager ?rm) = clients (connectionManager rm)" "ClientMessageChannel (connectionManager ?rm) = []"
    "rooms ?rm = rooms rm" "roomStore ?rm = roomStore rm" "conn_of b (connectionManager ?rm) = conn_of b (connectionManager rm)"
    "findRoomByParticipant cc ?rm = findRoomByParticipant cc rm" "room_at r ?rm = room_at r rm" for b
    by (simp_all add: with_messages_def conn_of_def findRoomByParticipant_def room_at_def)
  have wf: "wf_message m" "payload_fits m" "Command m = CommandAdbTransport" "wire_bytes m = encode_frame CommandAdbTransport w"
    using m(2,3) wire_bytes_encode [of m] by (simp_all add: holds_frame_def)
  have t: "t < length (clients (connectionManager rm))"
    using find_room(4,6) [OF ok room(1) [unfolded findRoomByParticipant_def]] room(2)
    by (auto simp: other_participant_def split: if_splits)
  let ?cm = "set_conn t ((conn_of t (connectionManager rm))
      \<lparr>outbound := outbound (conn_of t (connectionManager rm)) @ wire_bytes m\<rparr>) (connectionManager ?rm)"
  have "handle_message entropy cc m ?rm = Ret (?rm\<lparr>connectionManager := ?cm\<rparr>)"
    using Write_writable [OF wf(1,2) out]
    by (simp add: handle_message_def wf(3) command_defs handleAdbTransport_def room same on_connections_def Send_def)
  then have "run_turn (Arrived entropy) rm = Some (Ret (dispose_of a (?rm\<lparr>connectionManager := ?cm\<rparr>)))"
    by (simp add: q dispatchMessage_def same(1) m(1))
  moreover have "Room_Properties.delivered t (encode_frame CommandAdbTransport w) (connectionManager rm)
      (connectionManager (dispose_of a (?rm\<lparr>connectionManager := ?cm\<rparr>)))"
    using t by (simp add: Room_Properties.delivered_def dispose_of_def clients_set_conn same wf(4))
  ultimately show ?thesis using same
    by (simp add: dispose_of_def dispose_message_def set_conn_def upd_client_def)
qed

section \<open>A whole session\<close>

text \<open>
  \<open>relays_between cc t s\<close>: the participants \<open>cc\<close> and \<open>t\<close> of a room, the first being read from and the second
  taking output, and no message waiting.  \<open>moved\<close>: what crossing means for the connections.
\<close>

definition relays_between :: "nat \<Rightarrow> nat \<Rightarrow> transporter \<Rightarrow> bool" where
  "relays_between cc t s \<longleftrightarrow> transporter_ok s \<and> cc < length (clients (cmgr s)) \<and> readers s ! cc = reader.Reading \<and>
     \<not> conn_closed (conn_of cc (cmgr s)) \<and> cc \<noteq> t \<and> ClientMessageChannel (cmgr s) = [] \<and>
     (\<exists>r. findRoomByParticipant cc (manager s) = Some r \<and> other_participant cc (room_at r (manager s)) = Some t) \<and>
     writable (conn_of t (cmgr s))"

definition moved :: "nat \<Rightarrow> nat \<Rightarrow> bytes \<Rightarrow> bytes \<Rightarrow> transporter \<Rightarrow> transporter \<Rightarrow> bool" where
  "moved cc t bs rest s s' \<longleftrightarrow> (\<forall>b. conn_of b (cmgr s') =
     (if b = cc then (conn_of cc (cmgr s))\<lparr>inbound := rest\<rparr>
      else if b = t then (conn_of t (cmgr s))\<lparr>outbound := outbound (conn_of t (cmgr s)) @ bs\<rparr>
      else conn_of b (cmgr s)))"

lemma moved_trans:
  "moved cc t bs rest s s1 \<Longrightarrow> moved cc t bs' rest' s1 s2 \<Longrightarrow> cc \<noteq> t \<Longrightarrow> moved cc t (bs @ bs') rest' s s2"
  by (simp add: moved_def)

lemma sample_id: "GenerateClientId (replicate 8 0) = Ret (''AAAA0000'', [])"
  by (rule sample_entropy)

lemma frame_crosses:
  assumes s: "relays_between cc t s" and w: "w \<noteq> []" "length w \<le> 0xF000"
    and input: "inbound (conn_of cc (cmgr s)) = encode_frame CommandAdbTransport w @ rest"
  shows "\<exists>s'. transporter_step\<^sup>*\<^sup>* s s' \<and> relays_between cc t s' \<and>
     moved cc t (encode_frame CommandAdbTransport w) rest s s'"
proof -
  have ok: "transporter_ok s" "cm_ok wf_message (cmgr s)" "cc < length (clients (cmgr s))"
    "ClientMessageChannel (cmgr s) = []" "cc \<noteq> t" "readers s ! cc = reader.Reading" "\<not> conn_closed (conn_of cc (cmgr s))"
    "writable (conn_of t (cmgr s))"
    using s by (simp_all add: relays_between_def transporter_ok_def rm_ok_def)
  obtain r where room: "findRoomByParticipant cc (manager s) = Some r" "other_participant cc (room_at r (manager s)) = Some t"
    using s by (auto simp: relays_between_def)
  obtain cm a m where read: "readNextMessage cc (cmgr s) = Ret (cm, True)"
    "ClientMessageChannel cm = [\<lparr>Sender = cc, Message = a\<rparr>]" "Data a (transporterMessagePool cm) = Inr m"
    "holds_frame m CommandAdbTransport w" "length (clients cm) = length (clients (cmgr s))"
    "\<And>b. conn_of b cm = (if b = cc then (conn_of cc (cmgr s))\<lparr>inbound := rest\<rparr> else conn_of b (cmgr s))"
    using reader_queues_frame [OF ok(2,3,7) input w(2)] ok(4) by (auto simp: ConnectionPoolSize_def)
  let ?s1 = "with_cm cm s\<lparr>readers := (readers s)[cc := if True then reader.Reading else reader.Finished]\<rparr>"
  have step1: "transporter_step s ?s1" by (rule transporter_step.read [OF ok(3,6) read(1)])
  then have ok1: "transporter_ok ?s1" using ok(1) by (rule step_keeps)
  have m1: "manager ?s1 = (manager s)\<lparr>connectionManager := cm\<rparr>" "cmgr ?s1 = cm" by simp_all
  have room1: "findRoomByParticipant cc (manager ?s1) = Some r" "other_participant cc (room_at r (manager ?s1)) = Some t"
    using room by (simp_all add: m1 findRoomByParticipant_def room_at_def)
  have "rm_ok wf_message (manager ?s1)" using ok1 by (simp add: transporter_ok_def)
  moreover have "writable (conn_of t cm)" using ok(5,8) by (simp add: read(6))
  ultimately obtain rm where d: "run_turn (Arrived (replicate 8 0)) (manager ?s1) = Some (Ret rm)"
    "Room_Properties.delivered t (encode_frame CommandAdbTransport w) cm (connectionManager rm)"
    "rooms rm = rooms (manager s)" "roomStore rm = roomStore (manager s)" "ClientMessageChannel (connectionManager rm) = []"
    using dispatch_adb_frame [of "manager ?s1" cc a m w r t "replicate 8 0"] read(2-4) w(1) room1 by auto
  let ?s2 = "?s1\<lparr>manager := rm\<rparr>"
  have step2: "transporter_step ?s1 ?s2" by (rule transporter_step.arrived [OF sample_id d(1)])
  then have ok2: "transporter_ok ?s2" using ok1 by (rule step_keeps)
  have conns: "conn_of b (connectionManager rm) = (if b = t
      then (conn_of t (cmgr s))\<lparr>outbound := outbound (conn_of t (cmgr s)) @ encode_frame CommandAdbTransport w\<rparr>
      else if b = cc then (conn_of cc (cmgr s))\<lparr>inbound := rest\<rparr> else conn_of b (cmgr s))" for b
    using d(2) read(6) ok(5) by (simp add: Room_Properties.delivered_def)
  have len: "length (clients (connectionManager rm)) = length (clients (cmgr s))" "length (readers s) = length (clients (cmgr s))"
    using d(2) read(5) ok(1) by (simp_all add: Room_Properties.delivered_def transporter_ok_def)
  have "relays_between cc t ?s2"
    using ok2 ok room len d(3-5) conns
    by (simp add: relays_between_def findRoomByParticipant_def room_at_def writable_def)
  moreover have "moved cc t (encode_frame CommandAdbTransport w) rest s ?s2"
    using conns ok(5) by (simp add: moved_def)
  moreover have "transporter_step\<^sup>*\<^sup>* s ?s2" using step1 step2 by auto
  ultimately show ?thesis by blast
qed

lemma session_crosses:
  assumes "relays_between cc t s" "\<forall>w \<in> set ws. w \<noteq> [] \<and> length w \<le> 0xF000"
    and "inbound (conn_of cc (cmgr s)) = concat (map (encode_frame CommandAdbTransport) ws) @ rest"
  shows "\<exists>s'. transporter_step\<^sup>*\<^sup>* s s' \<and> relays_between cc t s' \<and>
     moved cc t (concat (map (encode_frame CommandAdbTransport) ws)) rest s s'"
  using assms
proof (induction ws arbitrary: s)
  case Nil
  then have "moved cc t [] rest s s" by (simp add: moved_def)
  with Nil show ?case by auto
next
  case (Cons w ws)
  let ?frames = "concat (map (encode_frame CommandAdbTransport) ws)"
  obtain s1 where s1: "transporter_step\<^sup>*\<^sup>* s s1" "relays_between cc t s1"
    "moved cc t (encode_frame CommandAdbTransport w) (?frames @ rest) s s1"
    using frame_crosses [OF Cons.prems(1), of w "?frames @ rest"] Cons.prems(2,3) by auto
  then have "inbound (conn_of cc (cmgr s1)) = ?frames @ rest" by (simp add: moved_def)
  with Cons.IH [OF s1(2)] Cons.prems(2) obtain s2 where s2: "transporter_step\<^sup>*\<^sup>* s1 s2" "relays_between cc t s2"
    "moved cc t ?frames rest s1 s2" by auto
  have "cc \<noteq> t" using Cons.prems(1) by (simp add: relays_between_def)
  with moved_trans [OF s1(3) s2(3)] s1(1) s2(1,2) show ?case by (auto intro: rtranclp_trans)
qed

section \<open>From the guest's adb server to the device\<close>

text \<open>
  C22.  The whole way across the three programs.  The guest's local adb server writes data to a stream in WRTE messages and
  closes: the guest's relay sends one frame for each; the transporter, when it holds these bytes from one
  participant of a room, can pass exactly these bytes to the other, reading and dispatching in turn, and reads nothing else; and the owner's session,
  when it holds these bytes, writes exactly the data to the device's connection, in order, and acknowledges every message.
\<close>

theorem session_reaches_device:
  assumes guest: "inbound conn = concat (stream_writes g own ds)" "in_end conn = ErrEOF" "\<not> conn_closed conn"
      "client_ok c" "client_writable c" "\<forall>(chk, data) \<in> set ds. length data \<le> 0x8000"
    and bytes: "bs = concat (map (encode_frame CommandAdbTransport) (stream_writes g own ds))"
    and transporter: "relays_between cc t s" "inbound (conn_of cc (cmgr s)) = bs @ more_in"
    and owner: "stream_up own i (bs @ rest) o1"
  shows "(\<exists>st c'. pumpLocalToRemote (\<lambda>_. False) 0 (CreateMessage, conn, c) = Ret ((fst st, snd st, c'), ErrEOF) \<and>
      client_wire c' = client_wire c @ bs) \<and>
    (\<exists>s'. transporter_step\<^sup>*\<^sup>* s s' \<and> relays_between cc t s' \<and> moved cc t bs more_in s s') \<and>
    (\<exists>o2. (session_step ownerKey OpenStream)\<^sup>*\<^sup>* o1 o2 \<and> stream_up own i rest o2 \<and>
      device_got i o2 = device_got i o1 @ concat (map snd ds) \<and>
      client_wire (session_client o2) = client_wire (session_client o1) @ stream_okays g own (length ds))"
proof -
  have "adb_wires (stream_writes g own ds)"
    unfolding adb_wires_def
  proof
    fix w assume "w \<in> set (stream_writes g own ds)"
    then obtain chk data where "w = adb_wire AdbCommandWrite g own chk data" "length data \<le> 0x8000"
      using guest(6) by (rule in_stream_writes)
    with adb_commands_ok(6) show "\<exists>command arg1 arg2 chk data. adb_command_ok command \<and> length data \<le> 0x8000 \<and>
        w = adb_wire command arg1 arg2 chk data" by blast
  qed
  from pumpLocalToRemote_session [OF adb_wf_CreateMessage guest(4,5,3) this guest(1,2), of 0]
  obtain m' conn' c' where g: "pumpLocalToRemote (\<lambda>_. False) 0 (CreateMessage, conn, c) = Ret ((m', conn', c'), ErrEOF)"
    "client_wire c' = client_wire c @ bs" unfolding bytes by blast
  have "\<forall>w \<in> set (stream_writes g own ds). w \<noteq> [] \<and> length w \<le> 0xF000"
  proof
    fix w assume "w \<in> set (stream_writes g own ds)"
    then obtain chk data where "w = adb_wire AdbCommandWrite g own chk data" "length data \<le> 0x8000"
      using guest(6) by (rule in_stream_writes)
    then have "length w = 24 + length data" "length data \<le> 0x8000" by simp_all
    then show "w \<noteq> [] \<and> length w \<le> 0xF000" by auto
  qed
  from session_crosses [OF transporter(1) this, of more_in] transporter(2)
  have "\<exists>s'. transporter_step\<^sup>*\<^sup>* s s' \<and> relays_between cc t s' \<and> moved cc t bs more_in s s'" by (simp add: bytes)
  moreover note session_writes [OF owner [unfolded bytes] guest(6), of ownerKey OpenStream]
  ultimately show ?thesis using g by (intro conjI exI [of _ "(m', conn')"] exI [of _ c']) simp_all
qed

section \<open>Witness\<close>

definition sample_writes :: "(u32 \<times> bytes) list" where "sample_writes = [(0, [108, 115]), (0, [10])]"

definition sample_bytes :: bytes where
  "sample_bytes = concat (map (encode_frame CommandAdbTransport) (stream_writes 7 1 sample_writes))"

definition sample_path :: transporter where
  "sample_path = \<lparr>manager = sample_rm (sample_cm [fresh_conn sample_bytes, fresh_conn []]) [sample_room (Some 1)],
     readers = [reader.Reading, reader.Reading]\<rparr>"

lemma sample_path_ready: "relays_between 1 0 sample_path" "inbound (conn_of 1 (cmgr sample_path)) = sample_bytes @ []"
proof -
  let ?cs = "[fresh_conn sample_bytes, fresh_conn []]"
  have "buffers_accounted (sample_cm ?cs)"
    by (simp add: buffers_accounted_def sample_cm.simps accept_connection_def registerConnection_def
        CreateConnectionManager_def NewObjectPool_def uses_def)
  then have "transporter_ok sample_path"
    using sample_rm_ok [of ?cs "Some 1"] by (simp add: transporter_ok_def sample_path_def sample_simps)
  then show "relays_between 1 0 sample_path"
    by (simp add: relays_between_def sample_path_def sample_simps findRoomByParticipant_def other_participant_def)
  show "inbound (conn_of 1 (cmgr sample_path)) = sample_bytes @ []"
    by (simp add: sample_path_def sample_simps)
qed

definition sample_open :: "bytes \<Rightarrow> owner_session" where
  "sample_open bs = \<lparr>session_mux = (NewOwnerMultiplexer ''emulator-5554'' (sample_peer bs))
     \<lparr>nextId := 1, stream_heap := [sample_stream], streams := [1 \<mapsto> 0]\<rparr>, pending = [], owner_events = []\<rparr>"

lemma sample_open_up: "stream_up 1 0 bs (sample_open bs)" "device_got 0 (sample_open bs) = []"
proof -
  let ?mux = "session_mux (sample_open bs)"
  have parts: "nextId ?mux = 1" "stream_heap ?mux = [sample_stream]" "streams ?mux = [1 \<mapsto> 0]" "tclient ?mux = sample_peer bs"
    "good_pool adb_wf (adbMessagePool ?mux)"
    by (simp_all add: sample_open_def NewOwnerMultiplexer_def good_pool_New)
  have "table_ok ?mux"
    unfolding table_ok_def fresh_ids_def parts by (simp add: sample_stream_def pump_fits_def)
  moreover have "client_live (messagePool (sample_peer bs)) (sample_peer bs)"
    using sample_peer_ok(4) client_recv_start [OF sample_peer_ok(1,4)] by (simp add: client_live_def)
  ultimately have "session_ok (messagePool (sample_peer bs)) (sample_open bs)"
    by (simp add: session_ok_def mux_ok_def can_send_def parts)
  then show "stream_up 1 0 bs (sample_open bs)"
    using sample_peer_ok by (simp add: stream_up_def session_client_def parts client_taking_def sample_stream_def)
  show "device_got 0 (sample_open bs) = []" by (simp add: device_got_def parts sample_stream_def)
qed

theorem session_reaches_device_witness:
  "(\<exists>s'. transporter_step\<^sup>*\<^sup>* sample_path s' \<and> outbound (conn_of 0 (cmgr s')) = sample_bytes) \<and>
   (\<exists>o2. (session_step [7] sample_device)\<^sup>*\<^sup>* (sample_open (sample_bytes @ [])) o2 \<and> device_got 0 o2 = [108, 115, 10])"
proof -
  let ?conn = "fresh_conn (concat (stream_writes 7 1 sample_writes))"
  have conn: "inbound ?conn = concat (stream_writes 7 1 sample_writes)" "in_end ?conn = ErrEOF" "\<not> conn_closed ?conn"
    by (simp_all add: fresh_conn_def)
  have small: "\<forall>(chk, data) \<in> set sample_writes. length data \<le> 0x8000" by (simp add: sample_writes_def)
  from session_reaches_device [OF conn sample_client_ok(1,2) small sample_bytes_def sample_path_ready sample_open_up(1),
      of "[7]" sample_device]
  obtain s' o2 where "transporter_step\<^sup>*\<^sup>* sample_path s'" "moved 1 0 sample_bytes [] sample_path s'"
    "(session_step [7] sample_device)\<^sup>*\<^sup>* (sample_open (sample_bytes @ [])) o2"
    "device_got 0 o2 = device_got 0 (sample_open (sample_bytes @ [])) @ concat (map snd sample_writes)" by blast
  moreover have "outbound (conn_of 0 (cmgr sample_path)) = []" by (simp add: sample_path_def sample_simps)
  ultimately show ?thesis
    unfolding sample_open_up(2) by (auto simp: moved_def sample_writes_def)
qed

end
