(* ===== verification/Connect_Run.thy ===== *)
theory Connect_Run
  imports Connect_Screen
begin

text \<open>
  \<open>RunConnect\<close> of \<open>client/tui/connect.go\<close>: the terminal program on one goroutine, the guest's flow beside it,
  and the end of both.  The flow is cut where its goroutine waits for the transporter, the local adb server or the
  relay, with the code of \<open>Handshake\<close>, \<open>roomJoinStep\<close> and \<open>JoinAsGuest\<close> between the cuts.
  \<open>program.Send\<close> hands a message to \<open>Update\<close> while the program runs and does nothing afterwards.
  The answers of the local adb server are taken as given: \<open>smartSocket.Connect\<close> and \<open>Disconnect\<close> are single steps.
\<close>

section \<open>State\<close>

text \<open>\<open>AwaitsId\<close> and \<open>AwaitsDecision\<close> are the two receives from \<open>client.Messages()\<close> outside a \<open>select\<close>.\<close>

datatype guest_phase =
    SendsHello | AwaitsId | SendsJoin | AwaitsDecision | StartsProxy | ConnectsAdb | Serves | Relays relay | FlowReturned

text \<open>
  \<open>run_result\<close> is the error of \<open>program.Run\<close> once it returned, and with it the context is cancelled;
  \<open>connect_result\<close> is what \<open>RunConnect\<close> itself returned.  \<open>adb_deferred\<close> tells whether the
  deferred \<open>Disconnect\<close> is registered; the two counters count the successful \<open>Connect\<close>s and the calls of \<open>Disconnect\<close>.
  \<open>told\<close> is a history for the proofs: every message the flow gave to \<open>program.Send\<close>.
\<close>

record connect_session =
  guest_at :: guest_phase
  session_client :: Client
  session_proxy :: AdbProxy
  adb_deferred :: bool
  adb_connects :: nat
  adb_disconnects :: nat
  connect_screen :: connectModel
  told :: "connect_msg list"
  run_result :: "error option option"
  connect_result :: "error option option"

definition RunConnect_start :: "string \<Rightarrow> string \<Rightarrow> string \<Rightarrow> Client \<Rightarrow> connect_session" where
  "RunConnect_start room localPort fp c =
     \<lparr>guest_at = SendsHello, session_client = c, session_proxy = NewAdbProxy localPort, adb_deferred = False, adb_connects = 0,
      adb_disconnects = 0, connect_screen = newConnectModel room localPort fp, told = [], run_result = None, connect_result = None\<rparr>"

definition program_Send :: "(bytes \<Rightarrow> bytes) \<Rightarrow> connect_msg list \<Rightarrow> connect_session \<Rightarrow> connect_session" where
  "program_Send h msgs s =
     (let s1 = s\<lparr>told := told s @ msgs\<rparr> in
      if run_result s = None then s1\<lparr>connect_screen := connect_Updates h msgs (connect_screen s)\<rparr> else s1)"

text \<open>The end of \<open>runGuestFlow\<close>, from the error \<open>JoinAsGuest\<close> returned.\<close>

definition flow_ends :: "(bytes \<Rightarrow> bytes) \<Rightarrow> error \<Rightarrow> connect_session \<Rightarrow> connect_session" where
  "flow_ends h e s =
     (program_Send h (if run_result s \<noteq> None \<or> already_reflected e then [] else [ConnectErrorMsg e]) s)
       \<lparr>guest_at := FlowReturned\<rparr>"

text \<open>The deferred calls of \<open>JoinAsGuest\<close>, the last one first.\<close>

definition run_deferred :: "connect_session \<Rightarrow> connect_session" where
  "run_deferred s =
     (let s1 = (if adb_deferred s then s\<lparr>adb_disconnects := adb_disconnects s + 1\<rparr> else s) in
      s1\<lparr>session_proxy := Proxy_Stop (session_proxy s1)\<rparr>)"

definition join_decided :: "TransporterMessagePayloadConnectRoomResult \<Rightarrow> GuestEvent" where
  "join_decided p = (guest_event GuestJoinDecided)\<lparr>GAccepted := Accepted p \<noteq> 0,
     GOwnerClientId := OwnerClientId p, GOwnerPublicKey := OwnerPublicKey p\<rparr>"

section \<open>Steps\<close>

text \<open>
  \<open>OwnStep\<close> needs nobody but this program, \<open>FromTransporter\<close> a message or the end of its connection, \<open>LocalAdb\<close> a
  connection to the proxy, \<open>Operator\<close> a key, a window size or a tick; \<open>InRelay\<close> is a step of the running relay.
\<close>

datatype connect_event = OwnStep | FromTransporter | LocalAdb | Operator | InRelay relay_event

inductive connect_step ::
  "(bytes \<Rightarrow> bytes) \<Rightarrow> bytes \<Rightarrow> string \<Rightarrow> connect_session \<Rightarrow> connect_event \<Rightarrow> connect_session \<Rightarrow> bool"
  for h :: "bytes \<Rightarrow> bytes" and key :: bytes and room :: string where
  hello_fails: "guest_at s = SendsHello \<Longrightarrow> SendConnect (session_client s) = Ret (c, Some e) \<Longrightarrow>
     connect_step h key room s OwnStep (program_Send h [ConnectErrorMsg e] s\<lparr>guest_at := FlowReturned, session_client := c\<rparr>)"
| hello_sent: "guest_at s = SendsHello \<Longrightarrow> SendConnect (session_client s) = Ret (c, None) \<Longrightarrow>
     connect_step h key room s OwnStep (s\<lparr>guest_at := AwaitsId, session_client := c\<rparr>)"
| no_id: "guest_at s = AwaitsId \<Longrightarrow> receive_message handshake_answer (session_client s) = Ret (c, Inl e) \<Longrightarrow>
     connect_step h key room s FromTransporter
       (program_Send h [ConnectErrorMsg e] s\<lparr>guest_at := FlowReturned, session_client := c\<rparr>)"
| id_assigned: "guest_at s = AwaitsId \<Longrightarrow> receive_message handshake_answer (session_client s) = Ret (c, Inr i) \<Longrightarrow>
     connect_step h key room s FromTransporter
       (program_Send h [ConnectClientId i, JoiningRoomMsg] s\<lparr>guest_at := SendsJoin, session_client := c\<rparr>)"
| send_join_fails: "guest_at s = SendsJoin \<Longrightarrow> SendJoinRoom room key (session_client s) = Ret (c, Some e) \<Longrightarrow>
     connect_step h key room s OwnStep (flow_ends h e (s\<lparr>session_client := c\<rparr>))"
| join_sent: "guest_at s = SendsJoin \<Longrightarrow> SendJoinRoom room key (session_client s) = Ret (c, None) \<Longrightarrow>
     connect_step h key room s OwnStep (s\<lparr>guest_at := AwaitsDecision, session_client := c\<rparr>)"
| no_decision: "guest_at s = AwaitsDecision \<Longrightarrow> receive_message join_room_answer (session_client s) = Ret (c, Inl e) \<Longrightarrow>
     connect_step h key room s FromTransporter (flow_ends h e (s\<lparr>session_client := c\<rparr>))"
| declined: "guest_at s = AwaitsDecision \<Longrightarrow> receive_message join_room_answer (session_client s) = Ret (c, Inr p) \<Longrightarrow>
     Accepted p = 0 \<Longrightarrow>
     connect_step h key room s FromTransporter
       (flow_ends h (ErrJoinRoomDenied room) (program_Send h [GuestEventMsg (join_decided p)] s\<lparr>session_client := c\<rparr>))"
| accepted: "guest_at s = AwaitsDecision \<Longrightarrow> receive_message join_room_answer (session_client s) = Ret (c, Inr p) \<Longrightarrow>
     Accepted p \<noteq> 0 \<Longrightarrow>
     connect_step h key room s FromTransporter
       (program_Send h [GuestEventMsg (join_decided p)] s\<lparr>guest_at := StartsProxy, session_client := c\<rparr>)"
| proxy_fails: "guest_at s = StartsProxy \<Longrightarrow> Proxy_Start listen (session_proxy s) = (p, Some e) \<Longrightarrow>
     connect_step h key room s OwnStep (flow_ends h e (s\<lparr>session_proxy := p\<rparr>))"
| listens: "guest_at s = StartsProxy \<Longrightarrow> Proxy_Start listen (session_proxy s) = (p, None) \<Longrightarrow>
     connect_step h key room s OwnStep
       (program_Send h [GuestEventMsg ((guest_event GuestProxyReady)\<lparr>GLocalPort := proxy_port p\<rparr>)] s
          \<lparr>guest_at := ConnectsAdb, session_proxy := p\<rparr>)"
| adb_connected: "guest_at s = ConnectsAdb \<Longrightarrow>
     connect_step h key room s OwnStep
       (program_Send h [GuestEventMsg (guest_event GuestAdbConnected)] s
          \<lparr>guest_at := Serves, adb_deferred := True, adb_connects := adb_connects s + 1\<rparr>)"
| adb_refused: "guest_at s = ConnectsAdb \<Longrightarrow>
     connect_step h key room s OwnStep
       (program_Send h [GuestEventMsg ((guest_event GuestAdbConnectFailed)\<lparr>GErr := Some e\<rparr>)] s\<lparr>guest_at := Serves\<rparr>)"
| serve_cancelled: "guest_at s = Serves \<Longrightarrow> run_result s \<noteq> None \<Longrightarrow>
     connect_step h key room s OwnStep (flow_ends h ErrContextCancelled (run_deferred s))"
| serve_lost: "guest_at s = Serves \<Longrightarrow> Messages (session_client s) = Ret (c, None) \<Longrightarrow>
     connect_step h key room s FromTransporter
       (flow_ends h ErrTransportClosed (run_deferred
          (program_Send h [GuestEventMsg (guest_event GuestTransportLost)] s\<lparr>session_client := c\<rparr>)))"
| serve_ignores: "guest_at s = Serves \<Longrightarrow> Messages (session_client s) = Ret (c, Some a) \<Longrightarrow>
     connect_step h key room s FromTransporter (s\<lparr>session_client := fst (dispose_received a c)\<rparr>)"
| serve_reads: "guest_at s = Serves \<Longrightarrow> reader (session_client s) = Reading \<Longrightarrow> startReader (session_client s) = Ret c \<Longrightarrow>
     connect_step h key room s FromTransporter (s\<lparr>session_client := c\<rparr>)"
| serve_connection: "guest_at s = Serves \<Longrightarrow>
     connect_step h key room s LocalAdb
       (program_Send h [GuestEventMsg (guest_event GuestLocalAdbConnected)] s
          \<lparr>guest_at := Relays (Run_start conn (session_client s))\<rparr>)"
| in_relay: "guest_at s = Relays r \<Longrightarrow> relay_step r e r' \<Longrightarrow> e = ContextOver \<longrightarrow> run_result s \<noteq> None \<Longrightarrow>
     connect_step h key room s (InRelay e) (s\<lparr>guest_at := Relays r'\<rparr>)"
| relay_stopped: "guest_at s = Relays r \<Longrightarrow> Run_returns r = Some x \<Longrightarrow> x \<noteq> ErrTransportClosed \<Longrightarrow>
     connect_step h key room s OwnStep
       (program_Send h [GuestEventMsg ((guest_event GuestRelayStopped)\<lparr>GErr := Some x\<rparr>)] s
          \<lparr>guest_at := Serves, session_client := relay_client r\<rparr>)"
| relay_lost: "guest_at s = Relays r \<Longrightarrow> Run_returns r = Some ErrTransportClosed \<Longrightarrow>
     connect_step h key room s OwnStep
       (flow_ends h ErrTransportClosed (run_deferred
          (program_Send h [GuestEventMsg ((guest_event GuestRelayStopped)\<lparr>GErr := Some ErrTransportClosed\<rparr>),
             GuestEventMsg (guest_event GuestTransportLost)] s\<lparr>session_client := relay_client r\<rparr>)))"
| screen_message: "run_result s = None \<Longrightarrow> msg = ConnectWindowSize w wh \<or> msg = ConnectTick now bs br \<or> msg = ConnectKey k \<Longrightarrow>
     connect_Update h msg (connect_screen s) = (m, cmd) \<Longrightarrow>
     connect_step h key room s Operator
       (s\<lparr>connect_screen := m, run_result := (if cmd = ConnectQuit then Some None else None)\<rparr>)"
| program_fails: "run_result s = None \<Longrightarrow>
     connect_step h key room s Operator (s\<lparr>run_result := Some (Some e)\<rparr>)"
| connect_returns: "connect_result s = None \<Longrightarrow> run_result s = Some err \<Longrightarrow> guest_at s = FlowReturned \<Longrightarrow>
     connect_step h key room s OwnStep
       (s\<lparr>connect_result := Some (case err of Some e \<Rightarrow> Some e | None \<Rightarrow> connect_err (connect_screen s))\<rparr>)"

inductive connect_run ::
  "(bytes \<Rightarrow> bytes) \<Rightarrow> bytes \<Rightarrow> string \<Rightarrow> connect_session \<Rightarrow> connect_event list \<Rightarrow> connect_session \<Rightarrow> bool"
  for h :: "bytes \<Rightarrow> bytes" and key :: bytes and room :: string where
  connect_nil: "connect_run h key room s [] s"
| connect_snoc: "connect_run h key room s es s1 \<Longrightarrow> connect_step h key room s1 e s2 \<Longrightarrow>
     connect_run h key room s (es @ [e]) s2"

inductive_cases connect_stepE: "connect_step h key room s e s'"

section \<open>Frames\<close>

lemma program_Send_fields [simp]:
  "guest_at (program_Send h msgs s) = guest_at s" "session_client (program_Send h msgs s) = session_client s"
  "session_proxy (program_Send h msgs s) = session_proxy s" "adb_deferred (program_Send h msgs s) = adb_deferred s"
  "adb_connects (program_Send h msgs s) = adb_connects s" "adb_disconnects (program_Send h msgs s) = adb_disconnects s"
  "run_result (program_Send h msgs s) = run_result s" "connect_result (program_Send h msgs s) = connect_result s"
    "told (program_Send h msgs s) = told s @ msgs"
    "connect_screen (program_Send h msgs s) =
       (if run_result s = None then connect_Updates h msgs (connect_screen s) else connect_screen s)"
  by (simp_all add: program_Send_def Let_def)

lemma flow_ends_fields [simp]:
  "guest_at (flow_ends h e s) = FlowReturned" "session_proxy (flow_ends h e s) = session_proxy s"
  "adb_deferred (flow_ends h e s) = adb_deferred s" "adb_connects (flow_ends h e s) = adb_connects s"
  "adb_disconnects (flow_ends h e s) = adb_disconnects s" "run_result (flow_ends h e s) = run_result s"
  "connect_result (flow_ends h e s) = connect_result s"
    "told (flow_ends h e s) = told s @ (if run_result s \<noteq> None \<or> already_reflected e then [] else [ConnectErrorMsg e])"
    "connect_screen (flow_ends h e s) =
       (if run_result s = None \<and> \<not> already_reflected e then connect_Updates h [ConnectErrorMsg e] (connect_screen s)
        else connect_screen s)"
    "session_client (flow_ends h e s) = session_client s"
  by (simp_all add: flow_ends_def)

lemma run_deferred_fields [simp]:
  "run_result (run_deferred s) = run_result s" "connect_result (run_deferred s) = connect_result s"
  "adb_deferred (run_deferred s) = adb_deferred s" "adb_connects (run_deferred s) = adb_connects s"
  "listening (session_proxy (run_deferred s)) = False" "told (run_deferred s) = told s"
  "connect_screen (run_deferred s) = connect_screen s" "session_client (run_deferred s) = session_client s"
  "adb_disconnects (run_deferred s) = adb_disconnects s + (if adb_deferred s then 1 else 0)"
  by (simp_all add: run_deferred_def Let_def Proxy_Stop_def)

section \<open>What has to be cleaned up\<close>

definition serving :: "guest_phase \<Rightarrow> bool" where
  "serving g \<longleftrightarrow> (case g of ConnectsAdb \<Rightarrow> True | Serves \<Rightarrow> True | Relays _ \<Rightarrow> True | _ \<Rightarrow> False)"

definition before_adb :: "guest_phase \<Rightarrow> bool" where
  "before_adb g \<longleftrightarrow> g \<in> {SendsHello, AwaitsId, SendsJoin, AwaitsDecision, StartsProxy, ConnectsAdb}"

text \<open>
  While the flow serves, the registered \<open>Disconnect\<close> is outstanding; otherwise the counters agree and the listener is closed.
\<close>

definition connect_ok :: "connect_session \<Rightarrow> bool" where
  "connect_ok s \<longleftrightarrow>
     (listening (session_proxy s) \<longrightarrow> serving (guest_at s)) \<and>
     (before_adb (guest_at s) \<longrightarrow> \<not> adb_deferred s \<and> adb_connects s = 0) \<and>
     adb_connects s = (if adb_deferred s then 1 else 0) \<and>
     adb_disconnects s = (if guest_at s = FlowReturned then adb_connects s else 0) \<and>
     (\<forall>res. connect_result s = Some res \<longrightarrow> guest_at s = FlowReturned \<and>
        (\<exists>err. run_result s = Some err \<and> res = (case err of Some e \<Rightarrow> Some e | None \<Rightarrow> connect_err (connect_screen s))))"

lemmas connect_ok_simps = connect_ok_def serving_def before_adb_def

lemma connect_ok_start: "connect_ok (RunConnect_start room localPort fp c)"
  by (simp add: connect_ok_simps RunConnect_start_def NewAdbProxy_def)

lemma connect_step_ok: "connect_step h key room s e s' \<Longrightarrow> connect_ok s \<Longrightarrow> connect_ok s'"
  by (erule connect_step.cases)
    (auto simp: connect_ok_simps Proxy_Start_def split: option.splits guest_phase.splits if_splits)

lemma connect_run_ok: "connect_run h key room s es s' \<Longrightarrow> connect_ok s \<Longrightarrow> connect_ok s'"
  by (induction rule: connect_run.induct) (auto dest: connect_step_ok)


lemma connect_run_one: "connect_step h key room s e s' \<Longrightarrow> connect_run h key room s [e] s'"
  using connect_snoc [OF connect_nil] by fastforce

section \<open>After the terminal program\<close>
























section \<open>The flow is \<open>runGuestFlow\<close>\<close>















lemma Handshake_phases: "SendConnect c0 = Ret (c, None) \<Longrightarrow> Handshake c0 = receive_message handshake_answer c"
  by (simp add: Handshake_def)










section \<open>Properties\<close>


text \<open>
  C37.  \<open>RunConnect\<close> returns only when the guest's flow is over and has cleaned up: the proxy does not listen, the
  automatic \<open>adb disconnect\<close> was asked for exactly when \<open>adb connect\<close> had succeeded, and the result is the terminal
  program's error or else the one on the screen.
\<close>

theorem connect_cleans_up:
  assumes "connect_run h key room (RunConnect_start room localPort fp c0) es s" "connect_result s = Some res"
  shows "guest_at s = FlowReturned \<and> \<not> listening (session_proxy s) \<and> adb_disconnects s = adb_connects s \<and>
     adb_connects s \<le> 1 \<and>
     (\<exists>err. run_result s = Some err \<and> res = (case err of Some e \<Rightarrow> Some e | None \<Rightarrow> connect_err (connect_screen s)))"
  using connect_run_ok [OF assms(1) connect_ok_start] assms(2) by (auto simp: connect_ok_simps)


section \<open>Witnesses\<close>

text \<open>A transporter that never answers, and one that is gone: the hello is sent, the operator presses \<open>q\<close>.\<close>

lemma sample_hello:
  obtains c1 c2 where "SendConnect (sample_peer []) = Ret (c1, None)"
    "receive_message handshake_answer c1 = Ret (c2, Inl ErrTransportClosed)"
proof -
  let ?tc = "(fresh_conn [])\<lparr>outbound := outbound (fresh_conn []) @ encode_frame CommandConnect (PutUint32 ProtocolVersion)\<rparr>"
  obtain c1 where c1: "SendConnect (sample_peer []) = Ret (c1, None)" "client_ok c1" "reader c1 = Reading"
    "\<not> ctx_done c1" "client_connection c1 = Some ?tc"
    using connect_sender.client_send_up [OF sample_peer_ok(1,6) [of "[]"] sample_conn(1), of ProtocolVersion] sample_peer_ok(4,5) [of "[]"]
    by (auto simp: SendConnect_fill enc_field.simps)
  have "\<not> conn_closed ?tc" "decode_frame (in_end ?tc) (inbound ?tc) = Inl (stream_error (in_end ?tc) [])"
    by (simp_all add: fresh_conn_def decode_frame_def)
  with Messages_decodes [OF c1(2,5) _ c1(4,3)] obtain c2 where "Messages c1 = Ret (c2, None)" by auto
  then have "receive_message handshake_answer c1 = Ret (c2, Inl ErrTransportClosed)" by (simp add: receive_message_def)
  with c1(1) show thesis by (rule that)
qed

definition sample_session :: connect_session where
  "sample_session = RunConnect_start ''ROOM'' ''5038'' ''fp'' (sample_peer [])"

lemma sample_quits:
  obtains c1 c2 s where "connect_run h key ''ROOM'' sample_session [OwnStep, Operator] s" "guest_at s = AwaitsId"
    "run_result s = Some None" "connect_result s = None" "connect_err (connect_screen s) = None" "session_client s = c1"
    "receive_message handshake_answer c1 = Ret (c2, Inl ErrTransportClosed)"
proof -
  obtain c1 c2 where c: "SendConnect (sample_peer []) = Ret (c1, None)"
    "receive_message handshake_answer c1 = Ret (c2, Inl ErrTransportClosed)" by (rule sample_hello)
  let ?s1 = "sample_session\<lparr>guest_at := AwaitsId, session_client := c1\<rparr>"
  let ?s2 = "?s1\<lparr>connect_screen := connect_screen ?s1, run_result := (if ConnectQuit = ConnectQuit then Some None else None)\<rparr>"
  have hello: "connect_step h key ''ROOM'' sample_session OwnStep ?s1"
    using c(1) by (intro hello_sent) (simp_all add: sample_session_def RunConnect_start_def)
  have quit: "connect_step h key ''ROOM'' ?s1 Operator ?s2"
    by (rule screen_message [of _ "ConnectKey ''q''" 0 0 0 0 0 "''q''"])
      (simp_all add: sample_session_def RunConnect_start_def connect_Update_def)
  have "connect_run h key ''ROOM'' sample_session [OwnStep, Operator] ?s2"
    using connect_snoc [OF connect_run_one [OF hello] quit] by simp
  from that [OF this _ _ _ _ _ c(2)] show thesis by (simp add: sample_session_def RunConnect_start_def newConnectModel_def)
qed

lemma sample_returns:
  obtains s es where "connect_run h key ''ROOM'' sample_session es s" "guest_at s = FlowReturned" "connect_result s = Some None"
proof -
  obtain c1 c2 s where s: "connect_run h key ''ROOM'' sample_session [OwnStep, Operator] s" "guest_at s = AwaitsId"
    "run_result s = Some None" "connect_result s = None" "connect_err (connect_screen s) = None" "session_client s = c1"
    "receive_message handshake_answer c1 = Ret (c2, Inl ErrTransportClosed)" by (rule sample_quits)
  let ?s1 = "program_Send h [ConnectErrorMsg ErrTransportClosed] s\<lparr>guest_at := FlowReturned, session_client := c2\<rparr>"
  have "connect_step h key ''ROOM'' s FromTransporter ?s1" using s(2,6,7) by (intro no_id) simp_all
  note run = connect_snoc [OF s(1) this]
  have "connect_step h key ''ROOM'' ?s1 OwnStep
      (?s1\<lparr>connect_result := Some (case None of Some e \<Rightarrow> Some e | None \<Rightarrow> connect_err (connect_screen ?s1))\<rparr>)"
    using s(3,4) by (intro connect_returns) simp_all
  note run1 = connect_snoc [OF run this]
  from that [OF run1] s(3,5) show thesis by simp
qed


theorem connect_cleans_up_witness:
  "\<exists>es s. connect_run (\<lambda>_. []) [1] ''ROOM'' sample_session es s \<and> connect_result s = Some None \<and>
     \<not> listening (session_proxy s) \<and> adb_disconnects s = adb_connects s"
proof -
  obtain s es where s: "connect_run (\<lambda>_. []) [1] ''ROOM'' sample_session es s" "connect_result s = Some None"
    by (rule sample_returns)
  from connect_cleans_up [OF s(1) [unfolded sample_session_def] s(2)] s show ?thesis by blast
qed


end
