(* ===== verification/Self_Signed.thy ===== *)
theory Self_Signed
  imports Key_Files
begin

text \<open>
  \<open>generateSelfSigned\<close> of \<open>transporter/tlsutil/selfsigned.go\<close>: the certificate the transporter makes for itself on its
  first run, and the PEM form both of its files have.  Making keys, serial numbers and DER bytes is the work of
  Go's crypto packages; their results are arguments.
\<close>

section \<open>PEM\<close>

text \<open>\<open>base64.StdEncoding\<close> pads to a multiple of four; \<open>encoding/pem\<close> breaks the text into lines of 64.\<close>

definition newline_char :: char where "newline_char = CHR 0x0A"

definition base64_padded :: "nat list \<Rightarrow> string" where
  "base64_padded xs = (let cs = base64 xs in cs @ replicate ((4 - length cs mod 4) mod 4) CHR ''='')"

function pem_lines :: "string \<Rightarrow> string" where
  "pem_lines cs = (if cs = [] then [] else take 64 cs @ newline_char # pem_lines (drop 64 cs))"
  by pat_completeness auto
termination by (relation "measure length") auto

declare pem_lines.simps [simp del]

definition pem_begin :: "string \<Rightarrow> string" where
  "pem_begin kind = ''-----BEGIN '' @ kind @ ''-----'' @ [newline_char]"

definition pem_end :: "string \<Rightarrow> string" where
  "pem_end kind = ''-----END '' @ kind @ ''-----'' @ [newline_char]"

definition EncodeToMemory :: "string \<Rightarrow> bytes \<Rightarrow> bytes" where
  "EncodeToMemory kind d =
     bytes_of_string (pem_begin kind @ pem_lines (base64_padded (map unat d)) @ pem_end kind)"

section \<open>The certificate\<close>

text \<open>Times are nanoseconds; the addresses are the 16 bytes \<open>net.IPv4\<close> and \<open>net.IPv6loopback\<close> have for \<open>127.0.0.1\<close> and \<open>::1\<close>.\<close>

definition hour :: int where "hour = 3600000000000"
definition certValidity :: int where "certValidity = 10 * 365 * 24 * hour"

datatype key_usage = DigitalSignature | CertSign
datatype ext_key_usage = ServerAuth

record Certificate_template =
  SerialNumber :: nat
  CommonName :: string
  NotBefore :: int
  NotAfter :: int
  KeyUsage :: "key_usage set"
  ExtKeyUsage :: "ext_key_usage list"
  IsCA :: bool
  DNSNames :: "string list"
  IPAddresses :: "bytes list"

definition certificate_template :: "nat \<Rightarrow> int \<Rightarrow> int \<Rightarrow> Certificate_template" where
  "certificate_template serial now now' =
     \<lparr>SerialNumber = serial, CommonName = ''adb-remote-transporter'', NotBefore = now - hour, NotAfter = now' + certValidity,
      KeyUsage = {DigitalSignature, CertSign}, ExtKeyUsage = [ServerAuth], IsCA = True, DNSNames = [''localhost''],
      IPAddresses = [replicate 10 0 @ [0xFF, 0xFF, 127, 0, 0, 1], replicate 15 0 @ [1]]\<rparr>"

text \<open>
  \<open>generated\<close> and \<open>serial\<close> are what \<open>ecdsa.GenerateKey\<close> and \<open>rand.Int\<close> return, \<open>now\<close> and \<open>now'\<close> the two readings of
  the clock.
\<close>

definition generateSelfSigned ::
  "error + 'key \<Rightarrow> error + nat \<Rightarrow> int \<Rightarrow> int \<Rightarrow> (Certificate_template \<Rightarrow> 'key \<Rightarrow> error + bytes) \<Rightarrow> ('key \<Rightarrow> error + bytes) \<Rightarrow>
   error + bytes \<times> bytes" where
  "generateSelfSigned generated serial now now' CreateCertificate MarshalECPrivateKey =
     (case generated of Inl e \<Rightarrow> Inl e
      | Inr privateKey \<Rightarrow>
        (case serial of Inl e \<Rightarrow> Inl e
         | Inr serialNumber \<Rightarrow>
           (case CreateCertificate (certificate_template serialNumber now now') privateKey of Inl e \<Rightarrow> Inl e
            | Inr derBytes \<Rightarrow>
              let certPEM = EncodeToMemory ''CERTIFICATE'' derBytes in
              (case MarshalECPrivateKey privateKey of Inl e \<Rightarrow> Inl e
               | Inr keyBytes \<Rightarrow> Inr (certPEM, EncodeToMemory ''EC PRIVATE KEY'' keyBytes)))))"

section \<open>Reading PEM back\<close>

definition strip_prefix :: "string \<Rightarrow> string \<Rightarrow> string option" where
  "strip_prefix p s = (if take (length p) s = p then Some (drop (length p) s) else None)"

definition strip_suffix :: "string \<Rightarrow> string \<Rightarrow> string option" where
  "strip_suffix p s = map_option rev (strip_prefix (rev p) (rev s))"

definition plain_char :: "char \<Rightarrow> bool" where
  "plain_char c \<longleftrightarrow> c \<noteq> newline_char \<and> c \<noteq> CHR ''=''"

definition pem_read :: "string \<Rightarrow> bytes \<Rightarrow> bytes option" where
  "pem_read kind d =
     (case strip_prefix (pem_begin kind) (string_of_bytes d) of None \<Rightarrow> None
      | Some s \<Rightarrow> map_option (\<lambda>body. map word_of_nat (base64_read (filter plain_char body)))
          (strip_suffix (pem_end kind) s))"

lemma strip_prefix_append [simp]: "strip_prefix p (p @ s) = Some s"
  by (simp add: strip_prefix_def)

lemma strip_suffix_append [simp]: "strip_suffix p (s @ p) = Some s"
  by (simp add: strip_suffix_def)

lemma filter_pem_lines:
  assumes that: "\<not> P newline_char"
  shows "filter P (pem_lines cs) = filter P cs"
proof (induction cs rule: pem_lines.induct)
  case (1 cs)
  show ?case
  proof (cases "cs = []")
    case False
    then have "filter P (pem_lines cs) = filter P (take 64 cs) @ filter P (drop 64 cs)"
      using 1 that by (subst pem_lines.simps) simp
    then show ?thesis by (metis append_take_drop_id filter_append)
  qed (simp add: pem_lines.simps)
qed

lemma b64_char_plain:
  assumes "n < 64"
  shows "plain_char (b64_char n)"
proof -
  have "of_char (b64_char n) \<notin> {10, 61 :: nat}"
    using assms by (auto simp: b64_char_def)
  then show ?thesis by (auto simp: plain_char_def newline_char_def)
qed

lemma base64_plain: "\<forall>x \<in> set xs. x < 256 \<Longrightarrow> list_all plain_char (base64 xs)"
proof (induction xs rule: base64.induct)
  case (1 a b c xs)
  then have "a div 4 < 64" "a mod 4 * 16 + b div 16 < 64" "b mod 16 * 4 + c div 64 < 64" "c mod 64 < 64" by auto
  with 1 show ?case by (simp add: b64_char_plain)
next
  case (2 a b)
  then have "a div 4 < 64" "a mod 4 * 16 + b div 16 < 64" "b mod 16 * 4 < 64" by auto
  then show ?case by (simp add: b64_char_plain)
next
  case (3 a)
  then have "a div 4 < 64" "a mod 4 * 16 < 64" by auto
  then show ?case by (simp add: b64_char_plain)
qed simp

lemma unat_byte: "unat (w :: byte) < 256"
  using unsigned_less [of w] by simp

lemma pem_read_back: "pem_read kind (EncodeToMemory kind d) = Some d"
proof -
  let ?xs = "map unat d"
  have small: "\<forall>x \<in> set ?xs. x < 256" using unat_byte by auto
  have "filter plain_char (base64 ?xs) = base64 ?xs"
    using base64_plain [OF small] by (simp add: list_all_iff)
  then have "filter plain_char (base64_padded ?xs) = base64 ?xs"
    by (simp add: base64_padded_def Let_def plain_char_def)
  then have body: "filter plain_char (pem_lines (base64_padded ?xs)) = base64 ?xs"
    by (subst filter_pem_lines) (simp_all add: plain_char_def)
  have "map word_of_nat ?xs = d" by (simp add: map_idI)
  then show ?thesis
    unfolding pem_read_def EncodeToMemory_def string_of_bytes_of_string strip_prefix_append
    by (simp add: body base64_read_back [OF small])
qed

text \<open>
  After a first run both files hold what was generated: read as PEM, the certificate \<open>x509\<close> made from the template, for a
  key and a serial number drawn in this run, and the private key it was made with.  With an unusable entropy
  source, or when a step of \<open>x509\<close> fails, no file is touched.
\<close>

theorem first_run_stores_generated_pair:
  assumes "fs certPath = None" "certPath \<noteq> keyPath"
    and "LoadOrCreateCertificate pair no_faults (generateSelfSigned generated serial now now' CreateCertificate MarshalECPrivateKey)
        certPath keyPath fs = (fs', res)"
  shows "(case generateSelfSigned generated serial now now' CreateCertificate MarshalECPrivateKey of
      Inl e \<Rightarrow> fs' = fs \<and> res = Inl e
    | Inr (certPEM, keyPEM) \<Rightarrow> fs' = fs(certPath \<mapsto> certPEM, keyPath \<mapsto> keyPEM) \<and> res = pair certPEM keyPEM \<and>
        (\<exists>privateKey serialNumber der keyBytes. generated = Inr privateKey \<and> serial = Inr serialNumber \<and>
          CreateCertificate (certificate_template serialNumber now now') privateKey = Inr der \<and>
          MarshalECPrivateKey privateKey = Inr keyBytes \<and>
          pem_read ''CERTIFICATE'' certPEM = Some der \<and> pem_read ''EC PRIVATE KEY'' keyPEM = Some keyBytes))"
proof (cases "generateSelfSigned generated serial now now' CreateCertificate MarshalECPrivateKey")
  case (Inl e)
  with assms show ?thesis
    by (auto simp: LoadOrCreateCertificate_def LoadX509KeyPair_def ReadFile_def no_faults_def)
next
  case (Inr pems)
  then obtain privateKey serialNumber der keyBytes where g: "generated = Inr privateKey" "serial = Inr serialNumber"
    "CreateCertificate (certificate_template serialNumber now now') privateKey = Inr der" "MarshalECPrivateKey privateKey = Inr keyBytes"
    "pems = (EncodeToMemory ''CERTIFICATE'' der, EncodeToMemory ''EC PRIVATE KEY'' keyBytes)"
    by (auto simp: generateSelfSigned_def Let_def split: sum.splits)
  have "fs' = fs(certPath \<mapsto> fst pems, keyPath \<mapsto> snd pems) \<and> res = pair (fst pems) (snd pems)"
    using assms Inr by (cases pems)
      (auto simp: LoadOrCreateCertificate_def LoadX509KeyPair_def ReadFile_def no_faults_def persist_def WriteFile_def)
  with g Inr show ?thesis by (simp add: pem_read_back)
qed

theorem first_run_stores_generated_pair_witness:
  "case LoadOrCreateCertificate (\<lambda>c k. Inr (c, k)) no_faults
       (generateSelfSigned (Inr [7]) (Inr 5) 0 0 (\<lambda>tmpl k. Inr (k @ [of_nat (SerialNumber tmpl)])) Inr) ''c'' ''k'' Map.empty of
     (fs', res) \<Rightarrow> map_option (pem_read ''CERTIFICATE'') (fs' ''c'') = Some (Some [7, 5])"
proof -
  let ?gen = "generateSelfSigned (Inr [7]) (Inr 5) 0 0 (\<lambda>tmpl k. Inr (k @ [of_nat (SerialNumber tmpl)])) Inr"
  obtain fs' res where r: "LoadOrCreateCertificate (\<lambda>c k. Inr (c, k)) no_faults ?gen ''c'' ''k'' Map.empty = (fs', res)"
    by (metis prod.exhaust)
  have "''c'' \<noteq> ''k''" by simp
  from first_run_stores_generated_pair [OF _ this r] show ?thesis
    unfolding r by (simp add: generateSelfSigned_def certificate_template_def)
qed

end
