(* ===== verification/Startup.thy ===== *)
theory Startup
  imports Self_Signed
begin

text \<open>
  What both programs do before they talk: \<open>client/config\<close>, \<open>CreateConfig\<close> of \<open>transporter/config\<close>, \<open>DefaultPath\<close> of
  \<open>client/identity\<close>, and the constructors with branches of \<open>client/di\<close> and \<open>transporter/di\<close>.  \<open>json.Unmarshal\<close>,
  \<open>filepath.Join\<close> and what the operating system says of home, executable and working directory are arguments.  The
  container that calls the constructors is a library and is left out.
\<close>

section \<open>Configuration\<close>

record ClientConfiguration =
  TransporterAddress :: string

definition DefaultConfigPath :: string where "DefaultConfigPath = ''./config.json''"

text \<open>The error of a file that does not exist, as the operating system words it.\<close>

definition ErrNoSuchFile :: error where "ErrNoSuchFile = ErrOs ''no such file or directory''"

definition load_json :: "(bytes \<Rightarrow> error + 'c) \<Rightarrow> faults \<Rightarrow> string \<Rightarrow> files \<Rightarrow> error + 'c" where
  "load_json Unmarshal flt path fs =
     (case ReadFile flt path fs of NotExist \<Rightarrow> Inl ErrNoSuchFile | ReadFails e \<Rightarrow> Inl e | Contents d \<Rightarrow> Unmarshal d)"

definition LoadConfig :: "(bytes \<Rightarrow> error + ClientConfiguration) \<Rightarrow> faults \<Rightarrow> string \<Rightarrow> files \<Rightarrow> error + ClientConfiguration" where
  "LoadConfig Unmarshal flt path fs = load_json Unmarshal flt path fs"

definition client_CreateConfig :: "(bytes \<Rightarrow> error + ClientConfiguration) \<Rightarrow> faults \<Rightarrow> files \<Rightarrow> error + ClientConfiguration" where
  "client_CreateConfig Unmarshal flt fs = LoadConfig Unmarshal flt DefaultConfigPath fs"

definition CreateConfig ::
  "(bytes \<Rightarrow> error + TransporterConfiguration) \<Rightarrow> faults \<Rightarrow> string \<Rightarrow> files \<Rightarrow> error + TransporterConfiguration" where
  "CreateConfig Unmarshal flt path fs = load_json Unmarshal flt path fs"

section \<open>Constructors\<close>

definition ConfigFileName :: string where "ConfigFileName = ''config.json''"

text \<open>The transporter reads its configuration while the container is built; without one it panics.\<close>

definition registerConfiguration ::
  "(string list \<Rightarrow> string) \<Rightarrow> (bytes \<Rightarrow> error + TransporterConfiguration) \<Rightarrow> error + string \<Rightarrow> faults \<Rightarrow> files \<Rightarrow>
   TransporterConfiguration outcome" where
  "registerConfiguration Join Unmarshal wd flt fs =
     (case wd of Inl e \<Rightarrow> Panic
      | Inr workingDirectory \<Rightarrow>
        (case CreateConfig Unmarshal flt (Join [workingDirectory, ConfigFileName]) fs of
           Inl e \<Rightarrow> Panic | Inr configInstance \<Rightarrow> Ret configInstance))"

definition DefaultPath :: "(string list \<Rightarrow> string) \<Rightarrow> error + string \<Rightarrow> error + string" where
  "DefaultPath Join home =
     (case home of Inl e \<Rightarrow> Inl e | Inr dir \<Rightarrow> Inr (Join [dir, ''.adb-remote'', ''identity'']))"

definition registerIdentity ::
  "(string list \<Rightarrow> string) \<Rightarrow> error + string \<Rightarrow> faults \<Rightarrow> error + bytes \<times> bytes \<Rightarrow> files \<Rightarrow> files \<times> (error + Identity)" where
  "registerIdentity Join home flt key fs =
     (case DefaultPath Join home of Inl e \<Rightarrow> (fs, Inl e) | Inr path \<Rightarrow> Load flt key path fs)"

definition Identity_Fingerprint :: "(bytes \<Rightarrow> bytes) \<Rightarrow> Identity \<Rightarrow> string" where
  "Identity_Fingerprint Sum256 i = Fingerprint Sum256 (PublicKey i)"

text \<open>\<open>Dir\<close> is \<open>filepath.Dir\<close>, \<open>made\<close> the error of \<open>os.MkdirAll\<close> on the directory.\<close>

definition logsDir ::
  "(string list \<Rightarrow> string) \<Rightarrow> (string \<Rightarrow> string) \<Rightarrow> string \<Rightarrow> error + string \<Rightarrow> (string \<Rightarrow> error option) \<Rightarrow> string" where
  "logsDir Join Dir TempDir exe made =
     (case exe of Inl e \<Rightarrow> TempDir
      | Inr exePath \<Rightarrow> let dir = Join [Dir exePath, ''logs''] in
          (case made dir of Some e \<Rightarrow> TempDir | None \<Rightarrow> dir))"

text \<open>Where the client's log goes: the file that was opened for appending, or nowhere.\<close>

definition log_writer :: "error + 'file \<Rightarrow> 'file option" where
  "log_writer opened = (case opened of Inl e \<Rightarrow> None | Inr logFile \<Rightarrow> Some logFile)"

section \<open>Properties\<close>

text \<open>
  The transporter starts exactly when its working directory is known and the file there is readable and parses; the
  configuration it then has is the file's, and its certificate files are two different ones unless it names them the same.
\<close>

theorem registerConfiguration_starts_iff:
  "registerConfiguration Join Unmarshal wd flt fs = Ret c \<longleftrightarrow>
     (\<exists>dir d. wd = Inr dir \<and> read_fault flt (Join [dir, ConfigFileName]) = None \<and> fs (Join [dir, ConfigFileName]) = Some d \<and>
        Unmarshal d = Inr c)"
  by (auto simp: registerConfiguration_def CreateConfig_def load_json_def ReadFile_def split: sum.splits option.splits)

theorem default_paths_differ:
  "CertPath c = KeyPath c \<longleftrightarrow>
     TLSCertFile c = TLSKeyFile c \<and> TLSCertFile c \<noteq> [] \<or> TLSCertFile c = [] \<and> TLSKeyFile c = DefaultTLSCertFile \<or>
     TLSKeyFile c = [] \<and> TLSCertFile c = DefaultTLSKeyFile"
  by (auto simp: CertPath_def KeyPath_def DefaultTLSCertFile_def DefaultTLSKeyFile_def)

text \<open>
  A client's identity survives restarts from the default path: after a first start without faults, every later start that
  can read the file shows the fingerprint of the same key; without a home directory no file is touched.
\<close>

theorem fingerprint_survives_restart:
  assumes "registerIdentity Join home flt (Inr (ed25519_Public privateKey, privateKey)) fs = (fs1, Inr i)"
    and "DefaultPath Join home = Inr path" "fs path = None" "length privateKey = PrivateKeySize" "read_fault flt' path = None"
  shows "\<exists>i'. registerIdentity Join home flt' key' fs1 = (fs1, Inr i') \<and>
     Identity_Fingerprint Sum256 i' = Identity_Fingerprint Sum256 i"
  using assms
  by (auto simp: registerIdentity_def Load_def ReadFile_def generate_def persist_def WriteFile_def decode_def
      Identity_Fingerprint_def split: option.splits prod.splits)

theorem fingerprint_survives_restart_witness:
  "\<exists>i'. registerIdentity concat (Inr ''/home/u/'') no_faults (Inl ErrNoCertificate)
       (Map.empty(''/home/u/.adb-remoteidentity'' \<mapsto> replicate 64 7)) =
     (Map.empty(''/home/u/.adb-remoteidentity'' \<mapsto> replicate 64 7), Inr i')"
proof -
  have "registerIdentity concat (Inr ''/home/u/'') no_faults (Inr (ed25519_Public (replicate 64 7), replicate 64 7)) Map.empty =
      (Map.empty(''/home/u/.adb-remoteidentity'' \<mapsto> replicate 64 7),
       Inr \<lparr>PublicKey = ed25519_Public (replicate 64 7), PrivateKey = replicate 64 7\<rparr>)"
    by (simp add: registerIdentity_def DefaultPath_def Load_def ReadFile_def no_faults_def generate_def persist_def WriteFile_def)
  from fingerprint_survives_restart [OF this, of "''/home/u/.adb-remoteidentity''" no_faults "Inl ErrNoCertificate"] show ?thesis
    by (auto simp: DefaultPath_def PrivateKeySize_def no_faults_def)
qed

end
