(* ===== verification/Spec2Isabelle.thy ===== *)
theory Spec2Isabelle
  imports Pool_Properties Room_Properties Reader_Properties Adb_Message Pcap_Writer Owner_Properties Relay_Properties
    Smart_Socket_Properties Controller_Properties Owner_Session Share_Properties Connect_Screen Commands Pretty_Log
    Transporter_Server Screen_Stages Session_Path
    Connect_Run Startup
begin

text \<open>
  Verification of adb-remote: sharing a local Android device over the network.

  \<^bold>\<open>The program.\<close>  Two clients talk to each other through a relay, the \<^emph>\<open>transporter\<close>.
  The \<^emph>\<open>owner\<close> (\<open>share\<close>) has a device and creates a room; the \<^emph>\<open>guest\<close> (\<open>connect\<close>) joins it,
  the owner decides, and from then on the transporter passes \<open>CommandAdbTransport\<close> messages between the two.
  On the guest's side a local proxy accepts the guest's own adb server and a relay turns its ADB messages
  into transporter messages; on the owner's side a multiplexer opens one connection to the device per
  OPEN and plays the device's part of the ADB protocol.  All buffers for messages come from pools.

  \<^bold>\<open>Shared parts.\<close>
  \<^item> \<open>Prelude\<close>: Go's machine data, the error values, the outcome of a piece of code (it returns, panics, or waits
    for ever), byte slices.  \<open>Go_IO\<close>: \<open>net.Conn\<close> and the reads and writes on it.  \<open>Byte_Order\<close>, \<open>Checksums\<close>:
    \<open>encoding/binary\<close>, CRC-32 and the ADB sum.  \<open>Float64\<close>: the rounding of \<open>float64\<close>.
  \<^item> \<open>shared/utils/objectPool.go\<close>: \<open>Object_Pool\<close> (the code), \<open>Pool_Contract\<close> (the abstract leases and the locale of
    what a pool promises), \<open>Pool_Properties\<close>.
  \<^item> \<open>shared/protocol\<close>: \<open>Transporter_Message\<close> (constants, frame buffer, \<open>Read\<close>, \<open>Write\<close>), \<open>Frame\<close> (the wire format and the
    refinement of both), \<open>Payload\<close> and \<open>Payload_Codec\<close> (the primitive fields and their layout), \<open>Typed_Payloads\<close> (the locale
    \<open>payload_codec\<close>, interpreted for every payload), \<open>Protocol_Properties\<close>.
  \<^item> \<open>shared/prettyLogHandler\<close>: \<open>Pretty_Log\<close>.

  \<^bold>\<open>The transporter.\<close>
  \<^item> \<open>transporter/utils\<close>: \<open>Random_Id\<close>.  \<open>transporter/config\<close>, \<open>transporter/tlsutil\<close> (with \<open>client/identity\<close>): \<open>Key_Files\<close>,
    \<open>Self_Signed\<close> (the generated certificate and its PEM form), \<open>Startup\<close> (both configurations, the default paths).
  \<^item> \<open>transporter/manager/connectionManager\<close>: \<open>Client_Connection\<close> (every operation), \<open>Connection_Invariant\<close> (the invariant
    \<open>cm_ok\<close>, what each operation does to it), \<open>Reader\<close> (the goroutine of a connection), \<open>Reader_Properties\<close>.
  \<^item> \<open>transporter/manager/roomManager\<close>: \<open>Room_Manager\<close> (every handler), \<open>Room_Safety\<close> (one lemma per handler: the invariant,
    no panic), \<open>Guest_Left\<close> (the one handler that can panic), \<open>Room_Properties\<close> (what each handler does).
  \<^item> \<open>Transporter\<close>: all goroutines as the step relation \<open>transporter_step\<close>, and the invariant of the reachable states.
    \<open>Transporter_Server\<close>: the process around it, \<open>StartServer\<close>, its accept loop, the recovers, both \<open>Stop\<close>s.

  \<^bold>\<open>The client.\<close>
  \<^item> \<open>client/transportLayer\<close>: \<open>Transport_Client\<close> (every operation), \<open>Client_Reader\<close> and \<open>Client_Steps\<close> (the contract of the
    client towards the relays, as the locale \<open>transport_client\<close>).  \<open>client/pcapwriter\<close>: \<open>Pcap_Writer\<close>.
  \<^item> \<open>client/adb\<close>: \<open>Adb_Message\<close>, \<open>Smart_Socket\<close> with \<open>Smart_Socket_Properties\<close>, \<open>Adb_Proxy\<close>.
  \<^item> \<open>client/relay\<close>: \<open>Relay\<close> with \<open>Relay_Properties\<close> (the guest's side); \<open>Owner_Multiplexer\<close> (every handler and the pumps),
    \<open>Owner_Invariant\<close> (over any client that keeps the contract), \<open>Owner_Steps\<close>, \<open>Owner_Runs\<close>, \<open>Owner_Properties\<close> (the owner's side).
  \<^item> \<open>client/controller\<close>: \<open>Controllers\<close> (handshake, guest), \<open>Owner_Controller\<close>, \<open>Controller_Properties\<close>, \<open>Owner_Session\<close>.
  \<^item> \<open>client/tui\<close>: \<open>Transfer_Stats\<close>, \<open>Share_Screen\<close> (the owner's \<open>Update\<close> and \<open>View\<close>), \<open>Share_Flow\<close> (\<open>runOwnerFlow\<close> beside it),
    \<open>Share_Properties\<close>, \<open>Screen_Stages\<close>, \<open>Connect_Screen\<close> (the guest's \<open>Update\<close> and \<open>View\<close>), \<open>Connect_Run\<close> (\<open>RunConnect\<close>: the
    terminal program, the guest's flow beside it, the end of both).  \<open>client/command\<close>: \<open>Commands\<close>.

  \<^bold>\<open>All three programs.\<close>  \<open>Session_Owner\<close> follows ADB messages into the owner's session and to the device's connection;
  \<open>Session_Path\<close> puts the guest's relay, the transporter's room manager and that session together.

  \<^bold>\<open>How the code is read.\<close>  A definition has the name of the Go function it translates.  A struct is a record; a
  pointer to a shared struct is an index into a store (\<open>clients\<close>, \<open>roomStore\<close>, the pool's \<open>objects\<close>), so that aliasing is
  kept; a slice into a message buffer is a range of the buffer.  Integers keep Go's width and wrap where the
  code's do.  A deferred call is run on every path.  Errors are values; a panic is the outcome \<open>Panic\<close>, which carries no state:
  where the code recovers, the model resumes in the state before the step, and \<open>recovers_never_used\<close>
  shows that no reachable state does.  An unbuffered or full channel makes the sender's step wait;
  where the sender is the only one who could drain it the outcome is \<open>Blocked\<close>.  A mutex makes the code it guards
  one atomic step.  Goroutines are step relations whose steps are the pieces between two points where the goroutine
  can wait; every interleaving of these is a run.

  \<^bold>\<open>What is an input.\<close>  What the network and the operating system do is not computed but given: the bytes that arrive
  and when a connection ends or stops taking output, the results of dialling, listening and accepting, the faults of files, the
  entropy, the clock, the arm a \<open>select\<close> takes, when a context is cancelled, the operator's keys.  Library code that the
  sources only call is an argument: SHA-256, key and certificate generation and parsing, \<open>lipgloss\<close> styles, the
  JSON handler and parser, \<open>strconv.ParseInt\<close>.  No property assumes more of these than its statement says.  Two values are
  unbounded that Go bounds: a slice's length is not limited by memory, and the exponent of a \<open>float64\<close>
  by its eleven bits (the numbers that occur stay far from that limit).

  \<^bold>\<open>What the lemmas show.\<close>
  \<^item> Protocol: what is written is read back, \<open>Read\<close> is the parser of the wire format and refuses every corrupted byte and
    every oversized header, the typed getters never panic and look only at their payload.
  \<^item> Buffers: no buffer is held twice, none is lost; the pool refines its lease specification.
  \<^item> Transporter: the invariant of all reachable states, no panic of a goroutine that recovers, the effect of every handler
    on rooms and on what each client is sent, \<open>Stop\<close>; and the three ways the room manager goes wrong (a recycled
    message that panics, a full channel that deadlocks it, rooms left behind).
  \<^item> Owner: the multiplexer's invariant over every interleaving, one unacknowledged WRTE per stream, the bytes of each
    stream in order both ways, exactly which message panics; the session answers every message and every request.
  \<^item> Guest: ADB messages cross the relay and the transporter unchanged and in order, both pumps end, nothing is relayed after the end,
    every end of the session reaches the screen except one.  \<open>RunConnect\<close> cut into steps refines the flow, cleans up before it
    returns, and hangs after a quit exactly while the transporter owes an answer.
  \<^item> The whole path: what the guest's adb server writes to a stream arrives at the device's connection unchanged and in order.
  \<^item> Screens: \<open>Update\<close> never waits and never panics, a request is accepted only while it is shown, the picker does not return,
    the sizes shown are right to about a twentieth of a unit up to the size that panics.
  \<^item> Files: identity and certificate survive restarts, what a torn write does to them, and the files of a first run hold the
    generated certificate and its key.

  \<^bold>\<open>Loops.\<close>  A loop over data is structural recursion or a \<open>function\<close> with its measure (\<open>fold_carries\<close>, \<open>scan_to\<close>,
  \<open>parse_devices\<close>, \<open>pumpLocalToRemote\<close>, which consumes input with every turn).  The one loop that need not end for a
  reason visible in its arguments, \<open>pumpRemoteToLocal\<close>, is a \<open>partial_function\<close>, and \<open>pumpRemoteToLocal_terminates\<close> proves
  that it returns on every input.  No function takes fuel.  The loops of the goroutines that run as long as the
  program does are turns of a step relation.  The generator of random ids consumes entropy; running out of it is a panic
  of the model, and the properties name the entropy they need.

  \<^bold>\<open>Not modelled.\<close>  The dependency injection (\<open>client/di\<close>, \<open>transporter/di\<close>) and the two \<open>main.go\<close>, but for the constructors
  with branches of their own (\<open>Startup\<close>): wiring through a container library.  \<open>DumpParsed\<close> and \<open>CommandString\<close> of
  \<open>adbMessage.go\<close>: debugging text nobody calls.  \<open>RunShare\<close>'s few lines around \<open>runOwnerFlow\<close> (it does not wait for the flow),
  the work of the terminal library, and the help texts.  Log calls, except the handler that formats them.
  \<open>client/internal/testtls\<close> is a helper of the tests.
\<close>

end
